(* ===== verification/Prelude.thy ===== *)
theory Prelude
  imports Main "HOL-Library.AList" "HOL-Library.Multiset"
begin

section \<open>Shared vocabulary: Go integers, Go maps, table rows\<close>

text \<open>
  The generic notions every component uses: the wrap-around of Go's \<open>int64\<close>, Go maps kept
  as association lists (so that a range loop has something to range over), the three shapes of
  SQL row update (UPDATE, DELETE and INSERT ON CONFLICT), and the named collections that the
  component theories extend.
\<close>

named_theorems sql_simps \<open>unfolding rules of the SQL statements\<close>
named_theorems nofault \<open>what a store operation does when the database engine does not fail\<close>
named_theorems frame \<open>which fields an operation leaves alone\<close>

subsection \<open>Integers of width 64\<close>

definition wrap64 :: "int \<Rightarrow> int" where
  "wrap64 x = (x + 2 ^ 63) mod 2 ^ 64 - 2 ^ 63"

lemma wrap64_id: "- (2 ^ 63) \<le> x \<Longrightarrow> x < 2 ^ 63 \<Longrightarrow> wrap64 x = x"
  by (simp add: wrap64_def mod_pos_pos_trivial)

lemma wrap64_nonneg: "0 \<le> x \<Longrightarrow> x < 2 ^ 63 \<Longrightarrow> wrap64 x = x"
  by (rule wrap64_id) simp_all

lemma wrap64_range: "- (2 ^ 63) \<le> wrap64 x \<and> wrap64 x < 2 ^ 63"
proof -
  have "0 \<le> (x + 2 ^ 63) mod 2 ^ 64" by (rule pos_mod_sign) simp
  moreover have "(x + 2 ^ 63) mod 2 ^ 64 < 2 ^ 64" by (rule pos_mod_bound) simp
  ultimately show ?thesis by (simp add: wrap64_def)
qed

subsection \<open>Go maps as association lists\<close>

text \<open>
  A Go map is an association list with distinct keys. Assignment is \<open>AList.update\<close> and
  \<open>delete(m, k)\<close> is \<open>AList.delete\<close>; a look-up is \<open>map_of\<close>.
\<close>

abbreviation keys_distinct :: "('k \<times> 'v) list \<Rightarrow> bool" where
  "keys_distinct m \<equiv> distinct (map fst m)"

lemma keys_distinct_update: "keys_distinct m \<Longrightarrow> keys_distinct (AList.update k v m)"
  by (rule distinct_update)

lemma keys_distinct_delete: "keys_distinct m \<Longrightarrow> keys_distinct (AList.delete k m)"
  by (rule distinct_delete)

lemma map_of_update_same [simp]: "map_of (AList.update k v m) k = Some v"
  by (simp add: update_conv')

lemma map_of_update_other [simp]: "k \<noteq> j \<Longrightarrow> map_of (AList.update k v m) j = map_of m j"
  by (simp add: update_conv')

lemma map_of_delete_same [simp]: "map_of (AList.delete k m) k = None"
  by (simp add: delete_conv')

lemma map_of_delete_other [simp]: "k \<noteq> j \<Longrightarrow> map_of (AList.delete k m) j = map_of m j"
  by (simp add: delete_conv')

lemma set_alist_update: "set (AList.update k v m) \<subseteq> insert (k, v) (set m)"
  by (induction m) auto

subsection \<open>Rows of a table\<close>

text \<open>UPDATE ... WHERE, DELETE ... WHERE, and INSERT ... ON CONFLICT(key) DO UPDATE.\<close>

definition upd_where :: "('r \<Rightarrow> bool) \<Rightarrow> ('r \<Rightarrow> 'r) \<Rightarrow> 'r list \<Rightarrow> 'r list" where
  "upd_where P f rs = map (\<lambda>r. if P r then f r else r) rs"

definition del_where :: "('r \<Rightarrow> bool) \<Rightarrow> 'r list \<Rightarrow> 'r list" where
  "del_where P rs = filter (\<lambda>r. \<not> P r) rs"

definition upsert :: "('r \<Rightarrow> 'k) \<Rightarrow> 'r \<Rightarrow> ('r \<Rightarrow> 'r) \<Rightarrow> 'r list \<Rightarrow> 'r list" where
  "upsert key new f rs =
     (if key new \<in> set (map key rs) then upd_where (\<lambda>r. key r = key new) f rs else rs @ [new])"

lemma upd_where_Nil [simp]: "upd_where P f [] = []"
  by (simp add: upd_where_def)

lemma upd_where_Cons [simp]:
  "upd_where P f (r # rs) = (if P r then f r else r) # upd_where P f rs"
  by (simp add: upd_where_def)

lemma upd_where_append [simp]: "upd_where P f (rs @ qs) = upd_where P f rs @ upd_where P f qs"
  by (simp add: upd_where_def)

lemma set_upd_where: "set (upd_where P f rs) = (\<lambda>r. if P r then f r else r) ` set rs"
  by (simp add: upd_where_def)

lemma set_del_where [simp]: "set (del_where P rs) = {r \<in> set rs. \<not> P r}"
  by (auto simp: del_where_def)

lemma del_where_Nil [simp]: "del_where P [] = []"
  by (simp add: del_where_def)

lemma del_where_Cons [simp]:
  "del_where P (r # rs) = (if P r then del_where P rs else r # del_where P rs)"
  by (simp add: del_where_def)

lemma distinct_del_where: "distinct (map key rs) \<Longrightarrow> distinct (map key (del_where P rs))"
  unfolding del_where_def by (rule distinct_map_filter)

lemma upd_where_none: "(\<And>r. r \<in> set rs \<Longrightarrow> \<not> P r) \<Longrightarrow> upd_where P f rs = rs"
  by (induction rs) auto

subsection \<open>Key-preserving updates\<close>

text \<open>
  An UPDATE that does not write a key column keeps the keys of the table. Every UPDATE and
  upsert of the store is an instance; the instances are in the theories of the tables.
\<close>

locale keyed_update =
  fixes key :: "'r \<Rightarrow> 'k" and f :: "'r \<Rightarrow> 'r"
  assumes key_f: "key (f r) = key r"
begin

lemma keys_upd_where: "map key (upd_where P f rs) = map key rs"
  by (induction rs) (auto simp: key_f)

lemma distinct_upd_where:
  "distinct (map key rs) \<Longrightarrow> distinct (map key (upd_where P f rs))"
  by (simp add: keys_upd_where)

lemma distinct_upsert:
  "distinct (map key rs) \<Longrightarrow> distinct (map key (upsert key new f rs))"
  by (simp add: upsert_def keys_upd_where)

lemma keys_upsert: "set (map key (upsert key new f rs)) = insert (key new) (set (map key rs))"
proof (cases "key new \<in> set (map key rs)")
  case True
  then have "map key (upsert key new f rs) = map key rs"
    by (simp add: upsert_def keys_upd_where)
  with True show ?thesis by (metis insert_absorb)
next
  case False
  then show ?thesis by (simp add: upsert_def)
qed

text \<open>The rows of other keys are untouched, and the row of the key is written once.\<close>

lemma upsert_other:
  "k \<noteq> key new \<Longrightarrow> filter (\<lambda>r. key r = k) (upsert key new f rs) = filter (\<lambda>r. key r = k) rs"
proof -
  assume k: "k \<noteq> key new"
  have "filter (\<lambda>r. key r = k) (upd_where (\<lambda>r. key r = key new) f rs) = filter (\<lambda>r. key r = k) rs"
    by (induction rs) (use k in \<open>auto simp: key_f\<close>)
  with k show ?thesis by (simp add: upsert_def)
qed

lemma upsert_row:
  "distinct (map key rs) \<Longrightarrow>
   filter (\<lambda>r. key r = key new) (upsert key new f rs) =
     (case filter (\<lambda>r. key r = key new) rs of [] \<Rightarrow> [new] | r # _ \<Rightarrow> [f r])"
proof (induction rs)
  case Nil
  then show ?case by (simp add: upsert_def)
next
  case (Cons r rs)
  show ?case
  proof (cases "key r = key new")
    case True
    with Cons.prems have none: "\<And>q. q \<in> set rs \<Longrightarrow> key q \<noteq> key new" by (auto simp: image_iff)
    then have "upd_where (\<lambda>r. key r = key new) f rs = rs" by (intro upd_where_none) auto
    moreover from none have "filter (\<lambda>r. key r = key new) rs = []" by (simp add: filter_empty_conv)
    ultimately show ?thesis using True by (simp add: upsert_def key_f)
  next
    case False
    with Cons show ?thesis by (auto simp: upsert_def split: if_splits)
  qed
qed

end

subsection \<open>Sums over association lists and lists of rows\<close>

lemma sum_list_map_filter_add:
  "sum_list (map f (filter P xs)) + sum_list (map f (filter (\<lambda>x. \<not> P x) xs)) = (sum_list (map f xs) :: int)"
  by (induction xs) auto

lemma sum_list_nonneg_int: "(\<And>x. x \<in> set xs \<Longrightarrow> 0 \<le> f x) \<Longrightarrow> 0 \<le> (sum_list (map f xs) :: int)"
  by (induction xs) (auto simp: add_increasing)

lemma sum_list_filter_le:
  "(\<And>x. x \<in> set xs \<Longrightarrow> 0 \<le> f x) \<Longrightarrow> sum_list (map f (filter P xs)) \<le> (sum_list (map f xs) :: int)"
  by (induction xs) (auto simp: add_increasing)

lemma sum_list_mset_cong: "mset xs = mset ys \<Longrightarrow> sum_list (map f xs) = (sum_list (map f ys) :: int)"
  by (metis mset_map sum_mset_sum_list)

end
