(* ===== verification/Models.thy ===== *)
theory Models
  imports Prelude
begin

section \<open>The panel's data types (internal/panel/models.go)\<close>

text \<open>
  The Go structs that travel between the store and the handlers. Columns that hold 0 or 1 and
  are decoded with \<^verbatim>\<open>!= 0\<close> are \<open>bool\<close>.
\<close>

record user =
  ID :: int
  Username :: string
  UUID :: string
  SubToken :: string
  DataLimit :: int
  DataUsed :: int
  ExpireAt :: int
  Enabled :: bool
  CreatedAt :: int
  NodeIDs :: "int list"
  PortalPasswordHash :: string
  HasPortalPassword :: bool
  ResetDay :: int
  LastReset :: int
  SessionEpoch :: int
  MustChangePW :: bool
  DeviceCount :: int
  EtaDays :: int
  Note :: string

text \<open>Whether the user should currently be provisioned onto nodes.\<close>

definition active :: "int \<Rightarrow> user \<Rightarrow> bool" where
  "active now u =
     (if \<not> Enabled u then False
      else if ExpireAt u > 0 \<and> now \<ge> ExpireAt u then False
      else if DataLimit u > 0 \<and> DataUsed u \<ge> DataLimit u then False
      else True)"

record node =
  n_ID :: int
  n_Name :: string
  n_Token :: string
  n_Address :: string
  n_Remark :: string
  n_LastSeen :: int
  n_Online :: bool
  n_CreatedAt :: int
  n_RealityDest :: string
  n_RealityServerName :: string
  n_RealityPrivateKey :: string
  n_RealityPublicKey :: string
  n_RealityShortID :: string
  n_TLSDomain :: string
  n_AgentVersion :: string

record admin =
  adm_ID :: int
  adm_Username :: string
  adm_PasswordHash :: string
  adm_TOTPSecret :: string
  adm_TOTPEnabled :: bool
  adm_SessionEpoch :: int

text \<open>What makes a user inactive, and how time and usage can only take activity away.\<close>

lemma active_iff:
  "active now u \<longleftrightarrow> Enabled u \<and> (ExpireAt u > 0 \<longrightarrow> now < ExpireAt u) \<and>
     (DataLimit u > 0 \<longrightarrow> DataUsed u < DataLimit u)"
  by (auto simp: active_def)

lemma active_antimono_time: "t \<le> t' \<Longrightarrow> active t' u \<Longrightarrow> active t u"
  by (auto simp: active_iff)

lemma active_antimono_used:
  "DataUsed u \<le> k \<Longrightarrow> active t (u\<lparr>DataUsed := k\<rparr>) \<Longrightarrow> active t u"
  by (auto simp: active_iff)

lemma active_disabled [simp]: "\<not> active t (u\<lparr>Enabled := False\<rparr>)"
  by (simp add: active_iff)

lemma active_update_nodes [simp]: "active t (u\<lparr>NodeIDs := ids\<rparr>) = active t u"
  by (simp add: active_iff)

end
