(* ===== verification/Base64.thy ===== *)
theory Base64
  imports Prelude
begin

section \<open>Base64 (encoding/base64) as the program uses it\<close>

text \<open>
  \<^verbatim>\<open>RawURLEncoding\<close> carries session tokens and random identifiers, \<^verbatim>\<open>RawStdEncoding\<close> the
  ciphertexts of the database, \<^verbatim>\<open>StdEncoding\<close> the subscription body. A Go string is a byte
  string, so \<open>string\<close> (lists of 8-bit \<open>char\<close>) is the exact type. Decoding is Go's
  non-strict decoder for the unpadded encodings: carriage returns and newlines are skipped, a
  character outside the alphabet or a dangling single character is an error, and unused low
  bits of the last character are ignored.
\<close>

definition alphaStd :: string where
  "alphaStd = ''ABCDEFGHIJKLMNOPQRSTUVWXYZabcdefghijklmnopqrstuvwxyz0123456789+/''"

definition alphaURL :: string where
  "alphaURL = ''ABCDEFGHIJKLMNOPQRSTUVWXYZabcdefghijklmnopqrstuvwxyz0123456789-_''"

abbreviation byte :: "char \<Rightarrow> nat" where
  "byte c \<equiv> of_char c"

lemma byte_less [simp]: "byte c < 256"
  by (metis of_char_mod_256 mod_less_divisor zero_less_numeral)

fun b64enc :: "string \<Rightarrow> bool \<Rightarrow> string \<Rightarrow> string" where
  "b64enc al pad [] = []"
| "b64enc al pad [a] = [al ! (byte a div 4), al ! (byte a mod 4 * 16)] @ (if pad then ''=='' else [])"
| "b64enc al pad [a, b] =
     [al ! (byte a div 4), al ! (byte a mod 4 * 16 + byte b div 16), al ! (byte b mod 16 * 4)] @
     (if pad then ''='' else [])"
| "b64enc al pad (a # b # c # s) =
     al ! (byte a div 4) # al ! (byte a mod 4 * 16 + byte b div 16) #
     al ! (byte b mod 16 * 4 + byte c div 64) # al ! (byte c mod 64) # b64enc al pad s"

fun index_in :: "string \<Rightarrow> char \<Rightarrow> nat option" where
  "index_in [] c = None"
| "index_in (x # xs) c = (if x = c then Some 0 else map_option Suc (index_in xs c))"

fun b64vals :: "string \<Rightarrow> string \<Rightarrow> nat list option" where
  "b64vals al [] = Some []"
| "b64vals al (c # s) =
     (if c = CHR 0x0A \<or> c = CHR 0x0D then b64vals al s
      else case index_in al c of None \<Rightarrow> None | Some v \<Rightarrow> map_option (Cons v) (b64vals al s))"

fun b64quanta :: "nat list \<Rightarrow> string option" where
  "b64quanta [] = Some []"
| "b64quanta [v] = None"
| "b64quanta [v, w] = Some [char_of (v * 4 + w div 16)]"
| "b64quanta [v, w, x] = Some [char_of (v * 4 + w div 16), char_of (w mod 16 * 16 + x div 4)]"
| "b64quanta (v # w # x # y # vs) =
     map_option (\<lambda>s. char_of (v * 4 + w div 16) # char_of (w mod 16 * 16 + x div 4) #
                     char_of (x mod 4 * 64 + y) # s) (b64quanta vs)"

definition b64dec :: "string \<Rightarrow> string \<Rightarrow> string option" where
  "b64dec al s = Option.bind (b64vals al s) b64quanta"

definition RawURLEncode :: "string \<Rightarrow> string" where
  "RawURLEncode s = b64enc alphaURL False s"

definition RawURLDecode :: "string \<Rightarrow> string option" where
  "RawURLDecode s = b64dec alphaURL s"

definition RawStdEncode :: "string \<Rightarrow> string" where
  "RawStdEncode s = b64enc alphaStd False s"

definition RawStdDecode :: "string \<Rightarrow> string option" where
  "RawStdDecode s = b64dec alphaStd s"

definition StdEncode :: "string \<Rightarrow> string" where
  "StdEncode s = b64enc alphaStd True s"

subsection \<open>Round trip\<close>

lemma index_in_nth: "distinct al \<Longrightarrow> i < length al \<Longrightarrow> index_in al (al ! i) = Some i"
proof (induction al arbitrary: i)
  case Nil
  then show ?case by simp
next
  case (Cons x xs)
  then show ?case by (cases i) auto
qed

definition alphabet :: "string \<Rightarrow> bool" where
  "alphabet al \<longleftrightarrow> distinct al \<and> length al = 64 \<and> CHR 0x0A \<notin> set al \<and> CHR 0x0D \<notin> set al"

lemma alphabet_std: "alphabet alphaStd" and alphabet_url: "alphabet alphaURL"
  by (simp_all add: alphabet_def alphaStd_def alphaURL_def)

lemma b64vals_nth:
  assumes "alphabet al" and "i < 64"
  shows "b64vals al (al ! i # s) = map_option (Cons i) (b64vals al s)"
proof -
  from assms have "al ! i \<in> set al" by (simp add: alphabet_def)
  with assms(1) have "al ! i \<noteq> CHR 0x0A" "al ! i \<noteq> CHR 0x0D" by (auto simp: alphabet_def)
  with assms show ?thesis by (simp add: alphabet_def index_in_nth)
qed

text \<open>Splitting three bytes into four sextets and joining them again.\<close>

lemma sextet_bounds:
  fixes x y :: nat
  assumes "x < 256" and "y < 256"
  shows "x div 4 < 64" "x mod 4 * 16 < 64" "x mod 4 * 16 + y div 16 < 64"
    "x mod 16 * 4 < 64" "x mod 16 * 4 + y div 64 < 64" "x mod 64 < 64"
proof -
  have "x mod 4 < 4" "x mod 16 < 16" by simp_all
  moreover have "y div 16 < 16" "y div 64 < 4" "x div 4 < 64" using assms by auto
  ultimately show "x div 4 < 64" "x mod 4 * 16 < 64" "x mod 4 * 16 + y div 16 < 64"
    "x mod 16 * 4 < 64" "x mod 16 * 4 + y div 64 < 64" "x mod 64 < 64" by (linarith | simp)+
qed

lemma div_mod_add:
  fixes x y k :: nat
  assumes "y < k"
  shows "(x * k + y) div k = x" "(x * k + y) mod k = y"
  using assms by simp_all

lemma sextet_join:
  fixes x y z :: nat
  assumes "y < 256" and "z < 256"
  shows "x div 4 * 4 + (x mod 4 * 16 + y div 16) div 16 = x"
    "(x mod 4 * 16 + y div 16) mod 16 * 16 + (y mod 16 * 4 + z div 64) div 4 = y"
    "(y mod 16 * 4 + z div 64) mod 4 * 64 + z mod 64 = z"
proof -
  have "y div 16 < 16" "z div 64 < 4" using assms by auto
  then have eqs: "(x mod 4 * 16 + y div 16) div 16 = x mod 4" "(x mod 4 * 16 + y div 16) mod 16 = y div 16"
    "(y mod 16 * 4 + z div 64) div 4 = y mod 16" "(y mod 16 * 4 + z div 64) mod 4 = z div 64"
    by (simp_all only: div_mod_add)
  show "x div 4 * 4 + (x mod 4 * 16 + y div 16) div 16 = x"
    "(x mod 4 * 16 + y div 16) mod 16 * 16 + (y mod 16 * 4 + z div 64) div 4 = y"
    "(y mod 16 * 4 + z div 64) mod 4 * 64 + z mod 64 = z"
    unfolding eqs by (rule div_mult_mod_eq)+
qed

lemma char_join:
  "char_of (byte a div 4 * 4 + (byte a mod 4 * 16 + byte b div 16) div 16) = a"
  "char_of ((byte a mod 4 * 16 + byte b div 16) mod 16 * 16 + (byte b mod 16 * 4 + byte c div 64) div 4) = b"
  "char_of ((byte b mod 16 * 4 + byte c div 64) mod 4 * 64 + byte c mod 64) = c"
  by (simp_all only: sextet_join [OF byte_less byte_less] char_of_char)

text \<open>The two short tails are the general case with zero bytes after the end.\<close>

lemma char_join_tail:
  "char_of (byte a div 4 * 4 + byte a mod 4 * 16 div 16) = a"
  "char_of ((byte a mod 4 * 16 + byte b div 16) mod 16 * 16 + byte b mod 16 * 4 div 4) = b"
proof -
  have z: "(0::nat) < 256" by simp
  have "byte a div 4 * 4 + byte a mod 4 * 16 div 16 = byte a"
    using sextet_join(1) [OF z z, of "byte a"] by (simp only: div_0 add_0_right)
  then show "char_of (byte a div 4 * 4 + byte a mod 4 * 16 div 16) = a" by (simp only: char_of_char)
  have "(byte a mod 4 * 16 + byte b div 16) mod 16 * 16 + byte b mod 16 * 4 div 4 = byte b"
    using sextet_join(2) [of "byte b" 0 "byte a", OF byte_less z] by (simp only: div_0 add_0_right)
  then show "char_of ((byte a mod 4 * 16 + byte b div 16) mod 16 * 16 + byte b mod 16 * 4 div 4) = b"
    by (simp only: char_of_char)
qed

lemmas b64_steps = b64vals_nth sextet_bounds [OF byte_less byte_less]

lemma b64_roundtrip:
  assumes al: "alphabet al"
  shows "b64dec al (b64enc al False s) = Some s"
proof (induction s rule: b64enc.induct [where ?P = "\<lambda>al' pad s. b64dec al (b64enc al False s) = Some s"])
  case (1 al' pad)
  then show ?case by (simp add: b64dec_def)
next
  case (2 al' pad a)
  have "b64vals al (b64enc al False [a]) = Some [byte a div 4, byte a mod 4 * 16]"
    by (simp add: al b64_steps del: b64vals.simps(2))
  then show ?case by (simp only: b64dec_def bind.simps b64quanta.simps char_join_tail)
next
  case (3 al' pad a b)
  have "b64vals al (b64enc al False [a, b]) =
      Some [byte a div 4, byte a mod 4 * 16 + byte b div 16, byte b mod 16 * 4]"
    by (simp add: al b64_steps del: b64vals.simps(2))
  then show ?case by (simp only: b64dec_def bind.simps b64quanta.simps char_join char_join_tail)
next
  case (4 al' pad a b c s)
  have "b64vals al (b64enc al False (a # b # c # s)) =
      map_option (\<lambda>vs. byte a div 4 # (byte a mod 4 * 16 + byte b div 16) #
        (byte b mod 16 * 4 + byte c div 64) # byte c mod 64 # vs) (b64vals al (b64enc al False s))"
    by (simp add: al b64_steps option.map_comp comp_def del: b64vals.simps(2))
  with 4 show ?case
    by (cases "b64vals al (b64enc al False s)")
      (simp_all only: b64dec_def bind.simps b64quanta.simps char_join option.map option.simps)
qed

lemma RawURL_roundtrip [simp]: "RawURLDecode (RawURLEncode s) = Some s"
  by (simp add: RawURLDecode_def RawURLEncode_def b64_roundtrip alphabet_url)

lemma RawStd_roundtrip [simp]: "RawStdDecode (RawStdEncode s) = Some s"
  by (simp add: RawStdDecode_def RawStdEncode_def b64_roundtrip alphabet_std)

end
