(* ===== verification/Crypt.thy ===== *)
theory Crypt
  imports Base64
begin

section \<open>At-rest encryption of secret columns (internal/panel/crypt.go)\<close>

text \<open>
  AES-256-GCM and the HKDF key derivation are not part of the repository: an \<open>aead\<close> record is a
  parameter (\<open>Seal\<close>, \<open>Open\<close> and the nonce size), and so is the derivation of one from the panel
  secret. What is modelled is everything the code does around them: the marker, the pass-through
  of legacy plaintext and of empty strings, and the failure results. The nonce the code draws
  from the system's randomness is an argument.
\<close>

record aead =
  NonceSize :: nat
  Seal :: "string \<Rightarrow> string \<Rightarrow> string"
  Open :: "string \<Rightarrow> string \<Rightarrow> string option"

type_synonym crypter = "aead option"

definition encPrefix :: string where
  "encPrefix = ''enc:v1:''"

definition newCrypter :: "(string \<Rightarrow> aead) \<Rightarrow> string \<Rightarrow> crypter" where
  "newCrypter derive secret = (if secret = [] then None else Some (derive secret))"

definition isEncrypted :: "string \<Rightarrow> bool" where
  "isEncrypted v \<longleftrightarrow> take (length encPrefix) v = encPrefix"

definition encrypt :: "crypter \<Rightarrow> string \<Rightarrow> string \<Rightarrow> string" where
  "encrypt c nonce s =
     (case c of None \<Rightarrow> s
      | Some a \<Rightarrow> if s = [] \<or> isEncrypted s then s
                  else encPrefix @ RawStdEncode (nonce @ Seal a nonce s))"

definition decrypt :: "crypter \<Rightarrow> string \<Rightarrow> string" where
  "decrypt c s =
     (if \<not> isEncrypted s then s
      else case c of None \<Rightarrow> []
      | Some a \<Rightarrow>
          (case RawStdDecode (drop (length encPrefix) s) of None \<Rightarrow> []
           | Some raw \<Rightarrow>
               if length raw < NonceSize a then []
               else case Open a (take (NonceSize a) raw) (drop (NonceSize a) raw) of
                      None \<Rightarrow> [] | Some pt \<Rightarrow> pt))"

text \<open>The documented behaviour of an AEAD, at the nonce and plaintext at hand.\<close>

definition aead_opens :: "aead \<Rightarrow> string \<Rightarrow> string \<Rightarrow> bool" where
  "aead_opens a nonce s \<longleftrightarrow> length nonce = NonceSize a \<and> Open a nonce (Seal a nonce s) = Some s"

definition crypter_ok :: "crypter \<Rightarrow> string \<Rightarrow> string \<Rightarrow> bool" where
  "crypter_ok c nonce s \<longleftrightarrow> (case c of None \<Rightarrow> True | Some a \<Rightarrow> aead_opens a nonce s)"

lemma encrypt_Nil [simp]: "encrypt c nonce [] = []"
  by (simp add: encrypt_def split: option.splits)

lemma decrypt_Nil [simp]: "decrypt c [] = []"
  by (simp add: decrypt_def isEncrypted_def encPrefix_def)

lemma decrypt_plain: "\<not> isEncrypted s \<Longrightarrow> decrypt c s = s"
  by (simp add: decrypt_def)

lemma isEncrypted_prefix [simp]: "isEncrypted (encPrefix @ s)"
  by (simp add: isEncrypted_def)

lemma encrypt_marked: "c \<noteq> None \<Longrightarrow> s \<noteq> [] \<Longrightarrow> isEncrypted (encrypt c nonce s)"
  by (auto simp: encrypt_def split: option.splits)

lemma encrypt_idem: "encrypt c nonce' (encrypt c nonce s) = encrypt c nonce s"
  by (auto simp: encrypt_def split: option.splits)

lemma decrypt_encrypt:
  "\<not> isEncrypted s \<Longrightarrow> crypter_ok c nonce s \<Longrightarrow> decrypt c (encrypt c nonce s) = s"
  by (auto simp: decrypt_def encrypt_def crypter_ok_def aead_opens_def isEncrypted_def encPrefix_def
      split: option.splits)

text \<open>
  An encrypted value never comes back as ciphertext: without the key, or when authentication
  fails, the result is the empty string.
\<close>

lemma decrypt_no_key: "isEncrypted s \<Longrightarrow> decrypt None s = []"
  by (simp add: decrypt_def)

lemma decrypt_marked_cases:
  "isEncrypted s \<Longrightarrow> decrypt c s = [] \<or>
     (\<exists>a raw. c = Some a \<and> RawStdDecode (drop (length encPrefix) s) = Some raw \<and>
        Open a (take (NonceSize a) raw) (drop (NonceSize a) raw) = Some (decrypt c s))"
  by (auto simp: decrypt_def split: option.splits)

end
