(* ===== verification/GoStr.thy ===== *)
theory GoStr
  imports Prelude
begin

section \<open>Strings as the program uses them (strings, strconv, time formatting)\<close>

text \<open>
  A Go string is a list of bytes. This theory has the operations of \<^verbatim>\<open>strings\<close> and \<^verbatim>\<open>strconv\<close>
  the modelled code calls, decimal numbers with their round trip, and the UTC calendar day of a
  Unix time as \<^verbatim>\<open>time.Format("2006-01-02")\<close> prints it.
\<close>

subsection \<open>Prefixes, suffixes, cutting and splitting\<close>

definition HasPrefix :: "string \<Rightarrow> string \<Rightarrow> bool" where
  "HasPrefix s p \<longleftrightarrow> take (length p) s = p"

definition HasSuffix :: "string \<Rightarrow> string \<Rightarrow> bool" where
  "HasSuffix s p \<longleftrightarrow> HasPrefix (rev s) (rev p)"

fun Contains :: "string \<Rightarrow> string \<Rightarrow> bool" where
  "Contains [] p = (p = [])"
| "Contains (c # s) p = (HasPrefix (c # s) p \<or> Contains s p)"

text \<open>\<open>strings.Split\<close> by a one-byte separator, and \<open>strings.Join\<close>.\<close>

fun splitc :: "char \<Rightarrow> string \<Rightarrow> string list" where
  "splitc c [] = [[]]"
| "splitc c (x # s) =
     (if x = c then [] # splitc c s
      else case splitc c s of [] \<Rightarrow> [[x]] | p # ps \<Rightarrow> (x # p) # ps)"

fun Join :: "string list \<Rightarrow> string \<Rightarrow> string" where
  "Join [] sep = []"
| "Join [s] sep = s"
| "Join (s # t # ss) sep = s @ sep @ Join (t # ss) sep"

text \<open>\<open>strings.Split\<close> by a longer separator: the text up to its first occurrence, then the rest.\<close>

fun cut_at :: "string \<Rightarrow> string \<Rightarrow> (string \<times> string) option" where
  "cut_at sep [] = (if sep = [] then Some ([], []) else None)"
| "cut_at sep (c # s) =
     (if HasPrefix (c # s) sep then Some ([], drop (length sep) (c # s))
      else map_option (\<lambda>(a, b). (c # a, b)) (cut_at sep s))"

lemma HasPrefix_code [code]:
  "HasPrefix s [] = True" "HasPrefix [] (d # p) = False"
  "HasPrefix (c # s) (d # p) = (c = d \<and> HasPrefix s p)"
  by (simp_all add: HasPrefix_def)

lemma HasPrefix_append [simp]: "HasPrefix (p @ s) p"
  by (simp add: HasPrefix_def)

lemma HasPrefix_iff: "HasPrefix s p \<longleftrightarrow> (\<exists>t. s = p @ t)"
  by (metis HasPrefix_append HasPrefix_def append_take_drop_id)

text \<open>A line that does not contain the separator is skipped whole.\<close>

lemma HasPrefix_line: "CHR 0x0A \<notin> set p \<Longrightarrow> HasPrefix (l @ CHR 0x0A # s) p = HasPrefix l p"
proof (induction l arbitrary: p)
  case Nil
  then show ?case by (cases p) (auto simp: HasPrefix_code)
next
  case (Cons c l)
  then show ?case by (cases p) (auto simp: HasPrefix_code)
qed

lemma cut_at_line: "CHR 0x0A \<notin> set sep \<Longrightarrow> sep \<noteq> [] \<Longrightarrow> \<not> Contains l sep \<Longrightarrow>
    cut_at sep (l @ CHR 0x0A # s) = map_option (\<lambda>(a, b). (l @ CHR 0x0A # a, b)) (cut_at sep s)"
proof (induction l)
  case Nil
  then show ?case using HasPrefix_line [of sep "[]" s]
    by (cases sep) (auto simp: HasPrefix_code split: option.splits)
next
  case (Cons c l)
  then have "\<not> HasPrefix (c # l @ CHR 0x0A # s) sep" using HasPrefix_line [of sep "c # l" s] by simp
  with Cons show ?case by (auto simp: option.map_comp comp_def split_def)
qed

lemma cut_at_here: "sep \<noteq> [] \<Longrightarrow> cut_at sep (sep @ s) = Some ([], s)"
  by (cases sep) (auto simp: HasPrefix_iff)

lemma cut_at_length: "cut_at sep s = Some (a, b) \<Longrightarrow> sep \<noteq> [] \<Longrightarrow> length b < length s"
proof (induction s arbitrary: a)
  case Nil
  then show ?case by simp
next
  case (Cons c s)
  then show ?case by (cases sep) (fastforce split: if_splits)+
qed

function Split :: "string \<Rightarrow> string \<Rightarrow> string list" where
  "Split s sep =
     (if sep = [] then map (\<lambda>c. [c]) s
      else case cut_at sep s of None \<Rightarrow> [s] | Some (a, b) \<Rightarrow> a # Split b sep)"
  by pat_completeness auto
termination
  by (relation "measure (\<lambda>(s, sep). length s)") (auto dest: cut_at_length)

declare Split.simps [simp del]

lemma splitc_nonempty [simp]: "splitc c s \<noteq> []"
  by (induction s) (auto split: list.splits)

lemma splitc_none: "c \<notin> set s \<Longrightarrow> splitc c s = [s]"
  by (induction s) auto

lemma splitc_append: "c \<notin> set p \<Longrightarrow> splitc c (p @ c # s) = p # splitc c s"
  by (induction p) auto

lemma splitc_Join: "ss \<noteq> [] \<Longrightarrow> (\<And>s. s \<in> set ss \<Longrightarrow> c \<notin> set s) \<Longrightarrow> splitc c (Join ss [c]) = ss"
proof (induction ss "[c]" rule: Join.induct)
  case 1
  then show ?case by simp
next
  case (2 s)
  then show ?case by (simp add: splitc_none)
next
  case (3 s t ss)
  then show ?case by (simp add: splitc_append)
qed

lemma Join_splitc: "Join (splitc c s) [c] = s"
proof (induction s)
  case Nil
  then show ?case by simp
next
  case (Cons x s)
  obtain p ps where ps: "splitc c s = p # ps" by (cases "splitc c s") auto
  with Cons have "Join (p # ps) [c] = s" by simp
  with ps show ?case by (cases ps) auto
qed

lemma splitc_parts: "p \<in> set (splitc c s) \<Longrightarrow> c \<notin> set p"
proof (induction s arbitrary: p)
  case Nil
  then show ?case by simp
next
  case (Cons x s)
  obtain q qs where "splitc c s = q # qs" by (cases "splitc c s") auto
  with Cons show ?case by (auto split: if_splits)
qed

subsection \<open>Decimal numbers\<close>

definition digit_char :: "nat \<Rightarrow> char" where
  "digit_char d = char_of (48 + d)"

definition is_digit :: "char \<Rightarrow> bool" where
  "is_digit c \<longleftrightarrow> 48 \<le> (of_char c :: nat) \<and> (of_char c :: nat) \<le> 57"

definition digit_val :: "char \<Rightarrow> nat" where
  "digit_val c = of_char c - 48"

fun dec_nat :: "nat \<Rightarrow> string" where
  "dec_nat n = (if n < 10 then [digit_char n] else dec_nat (n div 10) @ [digit_char (n mod 10)])"

declare dec_nat.simps [simp del]

definition FormatInt :: "int \<Rightarrow> string" where
  "FormatInt i = (if i < 0 then CHR ''-'' # dec_nat (nat (- i)) else dec_nat (nat i))"

definition digits_val :: "string \<Rightarrow> nat" where
  "digits_val s = foldl (\<lambda>n c. 10 * n + digit_val c) 0 s"

definition parse_nat :: "string \<Rightarrow> nat option" where
  "parse_nat s = (if s \<noteq> [] \<and> list_all is_digit s then Some (digits_val s) else None)"

text \<open>\<open>strconv.ParseInt(s, 10, 64)\<close>: an optional sign, digits, and the range of an \<open>int64\<close>.\<close>

definition ParseInt64 :: "string \<Rightarrow> int option" where
  "ParseInt64 s =
     (case s of
        [] \<Rightarrow> None
      | c # r \<Rightarrow>
          let neg = (c = CHR ''-''); body = (if c = CHR ''-'' \<or> c = CHR ''+'' then r else s)
          in case parse_nat body of None \<Rightarrow> None
             | Some n \<Rightarrow>
                 if neg then if n \<le> 2 ^ 63 then Some (- int n) else None
                 else if n < 2 ^ 63 then Some (int n) else None)"

lemma digit_char_props:
  "d < 10 \<Longrightarrow> is_digit (digit_char d) \<and> digit_val (digit_char d) = d"
  by (simp add: is_digit_def digit_val_def digit_char_def of_char_of)

lemma dec_nat_digits: "list_all is_digit (dec_nat n)"
proof (induction n rule: dec_nat.induct)
  case (1 n)
  then show ?case
    by (cases "n < 10") (auto simp: dec_nat.simps [of n] digit_char_props)
qed

lemma dec_nat_nonempty [simp]: "dec_nat n \<noteq> []"
  by (simp add: dec_nat.simps [of n])

lemma digits_val_dec_nat [simp]: "digits_val (dec_nat n) = n"
proof (induction n rule: dec_nat.induct)
  case (1 n)
  then show ?case
    by (cases "n < 10") (auto simp: dec_nat.simps [of n] digits_val_def digit_char_props)
qed

lemma parse_nat_dec [simp]: "parse_nat (dec_nat n) = Some n"
  by (simp add: parse_nat_def dec_nat_digits)

lemma not_digit_sign: "\<not> is_digit (CHR ''-'')" "\<not> is_digit (CHR ''+'')"
  by (simp_all add: is_digit_def)

lemma dec_nat_hd: "dec_nat n = c # r \<Longrightarrow> c \<noteq> CHR ''-'' \<and> c \<noteq> CHR ''+''"
  using dec_nat_digits [of n] not_digit_sign by auto

lemma FormatInt_nonempty [simp]: "FormatInt i \<noteq> []"
  by (simp add: FormatInt_def)

theorem ParseInt64_FormatInt:
  "- (2 ^ 63) \<le> i \<Longrightarrow> i < 2 ^ 63 \<Longrightarrow> ParseInt64 (FormatInt i) = Some i"
proof (cases "i < 0")
  case True
  assume "- (2 ^ 63) \<le> i"
  with True have "nat (- i) \<le> 2 ^ 63" by simp
  with True show ?thesis by (simp add: FormatInt_def ParseInt64_def)
next
  case False
  assume "i < 2 ^ 63"
  with False have b: "nat i < 2 ^ 63" by simp
  obtain c r where cr: "dec_nat (nat i) = c # r" by (cases "dec_nat (nat i)") auto
  with dec_nat_hd have "c \<noteq> CHR ''-''" "c \<noteq> CHR ''+''" by blast+
  moreover from cr have "parse_nat (c # r) = Some (nat i)" by (metis parse_nat_dec)
  ultimately show ?thesis using False b cr by (simp add: FormatInt_def ParseInt64_def Let_def)
qed

lemma FormatInt_chars: "c \<in> set (FormatInt i) \<Longrightarrow> is_digit c \<or> c = CHR ''-''"
  using dec_nat_digits [of "nat i"] dec_nat_digits [of "nat (- i)"]
  by (auto simp: FormatInt_def list_all_iff split: if_splits)

subsection \<open>Calendar days\<close>

text \<open>
  The proleptic Gregorian calendar as Go's \<^verbatim>\<open>time\<close> package has it: days since 1970-01-01 to
  (year, month, day), and back. \<open>time.Date\<close> normalises a month out of range, of which the code
  uses month 13.
\<close>

definition civil_of_days :: "int \<Rightarrow> int \<times> int \<times> int" where
  "civil_of_days z =
     (let z' = z + 719468; era = z' div 146097; doe = z' mod 146097;
          yoe = (doe - doe div 1460 + doe div 36524 - doe div 146096) div 365;
          doy = doe - (365 * yoe + yoe div 4 - yoe div 100);
          mp = (5 * doy + 2) div 153;
          d = doy - (153 * mp + 2) div 5 + 1;
          m = (if mp < 10 then mp + 3 else mp - 9)
      in (yoe + era * 400 + (if m \<le> 2 then 1 else 0), m, d))"

definition days_of_civil :: "int \<Rightarrow> int \<Rightarrow> int \<Rightarrow> int" where
  "days_of_civil y0 m0 d =
     (let y1 = y0 + (m0 - 1) div 12; m = (m0 - 1) mod 12 + 1;
          y = (if m \<le> 2 then y1 - 1 else y1); era = y div 400; yoe = y mod 400;
          doy = (153 * (if m > 2 then m - 3 else m + 9) + 2) div 5 + d - 1;
          doe = yoe * 365 + yoe div 4 - yoe div 100 + doy
      in era * 146097 + doe - 719468)"

definition pad_left :: "nat \<Rightarrow> string \<Rightarrow> string" where
  "pad_left w s = replicate (w - length s) (CHR ''0'') @ s"

definition day_string :: "int \<Rightarrow> string" where
  "day_string z =
     (let (y, m, d) = civil_of_days z
      in pad_left 4 (FormatInt y) @ ''-'' @ pad_left 2 (FormatInt m) @ ''-'' @ pad_left 2 (FormatInt d))"

definition utc_day :: "int \<Rightarrow> string" where
  "utc_day now = day_string (now div 86400)"

subsection \<open>Trimming, fields, case\<close>

text \<open>White space and letter case are ASCII here; Go also knows the Unicode ones.\<close>

definition is_space :: "char \<Rightarrow> bool" where
  "is_space c \<longleftrightarrow> (of_char c :: nat) \<in> {9, 10, 11, 12, 13, 32}"

definition trim_by :: "(char \<Rightarrow> bool) \<Rightarrow> string \<Rightarrow> string" where
  "trim_by P s = rev (dropWhile P (rev (dropWhile P s)))"

definition TrimSpace :: "string \<Rightarrow> string" where
  "TrimSpace s = trim_by is_space s"

definition TrimRight :: "string \<Rightarrow> string \<Rightarrow> string" where
  "TrimRight s cutset = rev (dropWhile (\<lambda>c. c \<in> set cutset) (rev s))"

definition Trim :: "string \<Rightarrow> string \<Rightarrow> string" where
  "Trim s cutset = trim_by (\<lambda>c. c \<in> set cutset) s"

fun Fields :: "string \<Rightarrow> string list" where
  "Fields [] = []"
| "Fields (c # s) =
     (if is_space c then Fields s
      else case s of
        [] \<Rightarrow> [[c]]
      | d # _ \<Rightarrow> if is_space d then [c] # Fields s
                 else case Fields s of [] \<Rightarrow> [[c]] | f # fs \<Rightarrow> (c # f) # fs)"

definition lower_char :: "char \<Rightarrow> char" where
  "lower_char c = (if 65 \<le> (of_char c :: nat) \<and> (of_char c :: nat) \<le> 90 then char_of ((of_char c :: nat) + 32) else c)"

definition ToLower :: "string \<Rightarrow> string" where
  "ToLower s = map lower_char s"

definition EqualFold :: "string \<Rightarrow> string \<Rightarrow> bool" where
  "EqualFold a b \<longleftrightarrow> ToLower a = ToLower b"

text \<open>\<^verbatim>\<open>strings.Replace(s, old, new, 1)\<close>.\<close>

definition Replace1 :: "string \<Rightarrow> string \<Rightarrow> string \<Rightarrow> string" where
  "Replace1 s oldp newp = (case cut_at oldp s of None \<Rightarrow> s | Some (a, b) \<Rightarrow> a @ newp @ b)"

lemma trim_by_idem [simp]: "trim_by P (trim_by P s) = trim_by P s"
proof -
  have d: "dropWhile P (dropWhile P xs) = dropWhile P xs" for xs :: string
    by (induction xs) auto
  have "dropWhile P (rev (dropWhile P (rev (dropWhile P s)))) = rev (dropWhile P (rev (dropWhile P s)))"
  proof (cases "rev (dropWhile P (rev (dropWhile P s)))")
    case Nil
    show ?thesis unfolding Nil by simp
  next
    case (Cons c t)
    then have "dropWhile P (rev (dropWhile P s)) \<noteq> []" by auto
    moreover obtain u where "rev (dropWhile P s) = u @ dropWhile P (rev (dropWhile P s))"
      by (metis takeWhile_dropWhile_id)
    then have "dropWhile P s = rev (dropWhile P (rev (dropWhile P s))) @ rev u"
      by (metis rev_append rev_rev_ident)
    with Cons have "dropWhile P s = c # t @ rev u" by simp
    then have "\<not> P c" by (metis dropWhile_eq_Cons_conv)
    with Cons show ?thesis by simp
  qed
  then show ?thesis by (simp add: trim_by_def d)
qed

lemma TrimSpace_idem [simp]: "TrimSpace (TrimSpace s) = TrimSpace s"
  by (simp add: TrimSpace_def)

lemma TrimSpace_set: "c \<in> set (TrimSpace s) \<Longrightarrow> c \<in> set s"
  unfolding TrimSpace_def trim_by_def by (metis set_dropWhileD set_rev)

lemma TrimSpace_id: "list_all (\<lambda>c. \<not> is_space c) s \<Longrightarrow> TrimSpace s = s"
proof -
  assume a: "list_all (\<lambda>c. \<not> is_space c) s"
  have d: "list_all (\<lambda>c. \<not> is_space c) xs \<Longrightarrow> dropWhile is_space xs = xs" for xs
    by (cases xs) auto
  from a d [of s] d [of "rev s"] show ?thesis by (simp add: TrimSpace_def trim_by_def list_all_iff)
qed

lemma TrimSpace_newline [simp]: "TrimSpace (s @ [CHR 0x0A]) = TrimSpace s"
proof -
  have nl: "is_space (CHR 0x0A)" by (simp add: is_space_def)
  have "dropWhile is_space (s @ [CHR 0x0A]) =
      (if list_all is_space s then [] else dropWhile is_space s @ [CHR 0x0A])"
    by (induction s) (auto simp: nl)
  moreover have "dropWhile is_space s = []" if "list_all is_space s"
    using that by (simp add: list_all_iff)
  ultimately show ?thesis by (cases "list_all is_space s") (auto simp: TrimSpace_def trim_by_def nl dest: set_dropWhileD)
qed

end
