(* ===== verification/Tables.thy ===== *)
theory Tables
  imports Models Crypt GoStr "HOL-Library.List_Lexorder"
begin

section \<open>The panel's database (internal/panel/store.go, the schema)\<close>

text \<open>
  The tables of the schema, one record per row and one list per table, in insertion order. The
  AUTOINCREMENT counters are part of the state: SQLite never hands out an id twice, even after
  the row is gone. Integers of the database are unbounded here; byte counters and Unix times
  stay far below the width of an SQLite integer.
\<close>

subsection \<open>Rows and tables\<close>

record admin_row =
  ar_id :: int
  ar_username :: string
  ar_password_hash :: string
  ar_totp_secret :: string
  ar_totp_enabled :: bool
  ar_session_epoch :: int

record node_row =
  nr_id :: int
  nr_name :: string
  nr_token :: string
  nr_address :: string
  nr_remark :: string
  nr_last_seen :: int
  nr_created_at :: int
  nr_reality_dest :: string
  nr_reality_server_name :: string
  nr_reality_private_key :: string
  nr_reality_public_key :: string
  nr_reality_short_id :: string
  nr_tls_domain :: string
  nr_traffic_seq :: int
  nr_agent_version :: string

record user_row =
  ur_id :: int
  ur_username :: string
  ur_uuid :: string
  ur_sub_token :: string
  ur_data_limit :: int
  ur_data_used :: int
  ur_expire_at :: int
  ur_enabled :: bool
  ur_created_at :: int
  ur_portal_password_hash :: string
  ur_reset_day :: int
  ur_last_reset :: int
  ur_session_epoch :: int
  ur_must_change_pw :: bool
  ur_note :: string

record traffic_row =
  tr_user :: int
  tr_node :: int
  tr_up :: int
  tr_down :: int
  tr_updated_at :: int

text \<open>Rows of \<^verbatim>\<open>traffic_daily\<close> (owner: a user) and \<^verbatim>\<open>node_traffic_daily\<close> (owner: a node).\<close>

record daily_row =
  dy_owner :: int
  dy_day :: string
  dy_up :: int
  dy_down :: int

record audit_row =
  au_id :: int
  au_ts :: int
  au_actor :: string
  au_action :: string
  au_detail :: string

record device_row =
  dv_user :: int
  dv_node :: int
  dv_ip :: string
  dv_inbound :: string
  dv_conns :: int
  dv_first_seen :: int
  dv_last_seen :: int

record db =
  admins :: "admin_row list"
  nodes :: "node_row list"
  users :: "user_row list"
  user_nodes :: "(int \<times> int) list"
  node_traffic :: "traffic_row list"
  traffic_daily :: "daily_row list"
  node_traffic_daily :: "daily_row list"
  audit_log :: "audit_row list"
  settings :: "(string \<times> string) list"
  user_devices :: "device_row list"
  seq_admins :: int
  seq_nodes :: int
  seq_users :: int
  seq_audit :: int

text \<open>The database after \<^verbatim>\<open>CREATE TABLE IF NOT EXISTS\<close> on a new file.\<close>

definition empty_db :: db where
  "empty_db = \<lparr>admins = [], nodes = [], users = [], user_nodes = [], node_traffic = [],
     traffic_daily = [], node_traffic_daily = [], audit_log = [], settings = [],
     user_devices = [], seq_admins = 0, seq_nodes = 0, seq_users = 0, seq_audit = 0\<rparr>"

text \<open>Primary keys of the tables without a row id.\<close>

definition traffic_key :: "traffic_row \<Rightarrow> int \<times> int" where
  "traffic_key r = (tr_user r, tr_node r)"

definition daily_key :: "daily_row \<Rightarrow> int \<times> string" where
  "daily_key r = (dy_owner r, dy_day r)"

definition device_key :: "device_row \<Rightarrow> int \<times> int \<times> string" where
  "device_key r = (dv_user r, dv_node r, dv_ip r)"

subsection \<open>Statements and engine failures\<close>

text \<open>
  A statement either succeeds, or fails on its own (no row to scan, a UNIQUE constraint), or the
  engine fails (I/O, a busy database). The last is outside the program's control: \<open>faults\<close> lists,
  for the statements to come, whether the engine will fail; after the list it does not. Every
  error branch of the code is thereby reachable in the model.
\<close>

datatype sql_err = EngineErr | NoRows | ConstraintErr

record store =
  tables :: db
  faults :: "bool list"
  crypt :: crypter

type_synonym 'a sql = "store \<Rightarrow> (sql_err + 'a) \<times> store"

definition next_fault :: "store \<Rightarrow> bool \<times> store" where
  "next_fault s = (case faults s of [] \<Rightarrow> (False, s) | b # bs \<Rightarrow> (b, s\<lparr>faults := bs\<rparr>))"

definition query :: "(db \<Rightarrow> sql_err + 'a) \<Rightarrow> 'a sql" where
  "query q s = (let (bad, s') = next_fault s in (if bad then Inl EngineErr else q (tables s'), s'))"

definition exec_res :: "(db \<Rightarrow> sql_err + 'a \<times> db) \<Rightarrow> 'a sql" where
  "exec_res st s =
     (let (bad, s') = next_fault s
      in if bad then (Inl EngineErr, s')
         else case st (tables s') of
                Inl e \<Rightarrow> (Inl e, s')
              | Inr (a, d) \<Rightarrow> (Inr a, s'\<lparr>tables := d\<rparr>))"

definition exec :: "(db \<Rightarrow> sql_err + db) \<Rightarrow> unit sql" where
  "exec st = exec_res (\<lambda>d. case st d of Inl e \<Rightarrow> Inl e | Inr d' \<Rightarrow> Inr ((), d'))"

text \<open>A transaction: BEGIN, the statements, COMMIT; a failure anywhere rolls back.\<close>

fun run_stmts :: "(db \<Rightarrow> sql_err + db) list \<Rightarrow> unit sql" where
  "run_stmts [] s = (Inr (), s)"
| "run_stmts (st # sts) s =
     (case exec st s of (Inl e, s') \<Rightarrow> (Inl e, s') | (Inr _, s') \<Rightarrow> run_stmts sts s')"

definition tx :: "(db \<Rightarrow> sql_err + db) list \<Rightarrow> unit sql" where
  "tx sts s =
     (case exec Inr s of
        (Inl e, s1) \<Rightarrow> (Inl e, s1)
      | (Inr _, s1) \<Rightarrow>
          (case run_stmts sts s1 of
             (Inl e, s2) \<Rightarrow> (Inl e, s2\<lparr>tables := tables s\<rparr>)
           | (Inr _, s2) \<Rightarrow>
               (case exec Inr s2 of
                  (Inl e, s3) \<Rightarrow> (Inl e, s3\<lparr>tables := tables s\<rparr>)
                | (Inr _, s3) \<Rightarrow> (Inr (), s3))))"

text \<open>Two steps of a Go function: stop at the first error, as its \<^verbatim>\<open>if err != nil\<close> does.\<close>

definition sql_bind :: "'a sql \<Rightarrow> ('a \<Rightarrow> 'b sql) \<Rightarrow> 'b sql" where
  "sql_bind m f s = (case m s of (Inl e, s') \<Rightarrow> (Inl e, s') | (Inr a, s') \<Rightarrow> f a s')"

definition sql_return :: "'a \<Rightarrow> 'a sql" where
  "sql_return a s = (Inr a, s)"

fun sql_mapM :: "('a \<Rightarrow> 'b sql) \<Rightarrow> 'a list \<Rightarrow> 'b list sql" where
  "sql_mapM f [] = sql_return []"
| "sql_mapM f (x # xs) = sql_bind (f x) (\<lambda>y. sql_bind (sql_mapM f xs) (\<lambda>ys. sql_return (y # ys)))"

subsection \<open>Without engine failures\<close>

definition no_faults :: "store \<Rightarrow> bool" where
  "no_faults s \<longleftrightarrow> faults s = []"

lemma query_nofault [nofault]: "no_faults s \<Longrightarrow> query q s = (q (tables s), s)"
  by (simp add: query_def next_fault_def no_faults_def)

lemma exec_res_nofault [nofault]:
  "no_faults s \<Longrightarrow> exec_res st s =
     (case st (tables s) of Inl e \<Rightarrow> (Inl e, s) | Inr (a, d) \<Rightarrow> (Inr a, s\<lparr>tables := d\<rparr>))"
  by (simp add: exec_res_def next_fault_def no_faults_def)

lemma exec_nofault [nofault]:
  "no_faults s \<Longrightarrow> exec st s =
     (case st (tables s) of Inl e \<Rightarrow> (Inl e, s) | Inr d \<Rightarrow> (Inr (), s\<lparr>tables := d\<rparr>))"
  by (simp add: exec_def exec_res_nofault split: sum.splits)

lemma no_faults_tables [simp]: "no_faults (s\<lparr>tables := d\<rparr>) = no_faults s"
  by (simp add: no_faults_def)

lemma tables_update_same [simp]: "s\<lparr>tables := tables s\<rparr> = s"
  by simp

text \<open>A list of statements that all succeed is their composition.\<close>

fun seq_stmts :: "(db \<Rightarrow> sql_err + db) list \<Rightarrow> db \<Rightarrow> sql_err + db" where
  "seq_stmts [] d = Inr d"
| "seq_stmts (st # sts) d = (case st d of Inl e \<Rightarrow> Inl e | Inr d' \<Rightarrow> seq_stmts sts d')"

lemma run_stmts_nofault:
  "no_faults s \<Longrightarrow> (case run_stmts sts s of
     (Inl e, s') \<Rightarrow> seq_stmts sts (tables s) = Inl e \<and> faults s' = faults s \<and> crypt s' = crypt s
   | (Inr _, s') \<Rightarrow> seq_stmts sts (tables s) = Inr (tables s') \<and> s' = s\<lparr>tables := tables s'\<rparr>)"
proof (induction sts arbitrary: s)
  case Nil
  then show ?case by simp
next
  case (Cons st sts)
  show ?case
  proof (cases "st (tables s)")
    case (Inl e)
    with Cons.prems show ?thesis by (simp add: exec_nofault)
  next
    case (Inr d)
    with Cons.prems Cons.IH [of "s\<lparr>tables := d\<rparr>"] show ?thesis
      by (auto simp: exec_nofault split: prod.splits sum.splits)
  qed
qed

lemma tx_nofault [nofault]:
  assumes "no_faults s"
  shows "tx sts s = (case seq_stmts sts (tables s) of
           Inl e \<Rightarrow> (Inl e, s) | Inr d \<Rightarrow> (Inr (), s\<lparr>tables := d\<rparr>))"
proof -
  obtain r s' where r: "run_stmts sts s = (r, s')" by (cases "run_stmts sts s") auto
  from run_stmts_nofault [OF assms, of sts] show ?thesis
  proof (cases r)
    case (Inl e)
    with r run_stmts_nofault [OF assms, of sts] have
      "seq_stmts sts (tables s) = Inl e" "faults s' = faults s" "crypt s' = crypt s" by auto
    with assms r Inl show ?thesis by (simp add: tx_def exec_nofault)
  next
    case (Inr u)
    with r run_stmts_nofault [OF assms, of sts] have
      "seq_stmts sts (tables s) = Inr (tables s')" and s': "s' = s\<lparr>tables := tables s'\<rparr>" by auto
    moreover from s' assms have "no_faults s'" by (metis no_faults_tables)
    ultimately show ?thesis using assms r Inr by (simp add: tx_def exec_nofault)
  qed
qed

text \<open>A failed transaction changes nothing, whatever failed.\<close>

lemma tx_error_unchanged: "tx sts s = (Inl e, s') \<Longrightarrow> tables s' = tables s"
proof -
  assume "tx sts s = (Inl e, s')"
  moreover have "tables s1 = tables s" if "exec Inr s = (r, s1)" for r s1
    using that by (auto simp: exec_def exec_res_def next_fault_def split: list.splits if_splits)
  ultimately show ?thesis
    by (auto simp: tx_def split: prod.splits sum.splits)
qed

lemma sql_bind_nofault [nofault]:
  "m s = (Inr a, s) \<Longrightarrow> sql_bind m f s = f a s"
  by (simp add: sql_bind_def)

end
