(* ===== verification/Store.thy ===== *)
theory Store
  imports Tables
begin

section \<open>The store (internal/panel/store.go)\<close>

text \<open>
  One definition per method of \<open>Store\<close>, in the order of the file, each issuing the statements
  the method issues. \<open>time.Now()\<close> is the argument \<open>now\<close> (Unix seconds), the random nonce of an
  encryption the argument \<open>nonce\<close>. The write mutex makes each method one atomic step, which is
  what a function of the store state is.
\<close>

definition find_row :: "('r \<Rightarrow> bool) \<Rightarrow> 'r list \<Rightarrow> sql_err + 'r" where
  "find_row P rs = (case List.find P rs of None \<Rightarrow> Inl NoRows | Some r \<Rightarrow> Inr r)"

subsection \<open>Traffic sequence numbers and settings\<close>

definition NodeTrafficSeq :: "int \<Rightarrow> int sql" where
  "NodeTrafficSeq nodeID = query (\<lambda>d. map_sum id nr_traffic_seq (find_row (\<lambda>n. nr_id n = nodeID) (nodes d)))"

definition SetNodeTrafficSeq :: "int \<Rightarrow> int \<Rightarrow> unit sql" where
  "SetNodeTrafficSeq nodeID sq =
     exec (\<lambda>d. Inr (d\<lparr>nodes := upd_where (\<lambda>n. nr_id n = nodeID) (\<lambda>n. n\<lparr>nr_traffic_seq := sq\<rparr>) (nodes d)\<rparr>))"

definition GetSetting :: "string \<Rightarrow> (string \<times> bool) sql" where
  "GetSetting key = query (\<lambda>d. Inr (case map_of (settings d) key of None \<Rightarrow> ([], False) | Some v \<Rightarrow> (v, True)))"

definition put_setting :: "string \<Rightarrow> string \<Rightarrow> db \<Rightarrow> sql_err + db" where
  "put_setting key value d = Inr (d\<lparr>settings := AList.update key value (settings d)\<rparr>)"

definition SetSetting :: "string \<Rightarrow> string \<Rightarrow> unit sql" where
  "SetSetting key value = exec (put_setting key value)"

definition GetSecretSetting :: "string \<Rightarrow> (string \<times> bool) sql" where
  "GetSecretSetting key s =
     (case GetSetting key s of
        (Inl e, s') \<Rightarrow> (Inl e, s')
      | (Inr (v, ok), s') \<Rightarrow> (Inr (if \<not> ok then ([], ok) else (decrypt (crypt s') v, True)), s'))"

definition SetSecretSetting :: "string \<Rightarrow> string \<Rightarrow> string \<Rightarrow> unit sql" where
  "SetSecretSetting nonce key value s = SetSetting key (encrypt (crypt s) nonce value) s"

subsection \<open>Re-encryption of legacy plaintext\<close>

text \<open>
  \<open>reencryptColumn\<close> reads the whole column and then updates the rows that need it, one statement
  each; \<open>get\<close>/\<open>put\<close> stand for the column the two SQL texts name. Each update draws a nonce.
\<close>

fun reencrypt_rows :: "(string \<Rightarrow> db \<Rightarrow> sql_err + db) list \<Rightarrow> (nat \<Rightarrow> string) \<Rightarrow> nat \<Rightarrow> string list \<Rightarrow> unit sql" where
  "reencrypt_rows [] nonces i vs s = (Inr (), s)"
| "reencrypt_rows (up # ups) nonces i [] s = (Inr (), s)"
| "reencrypt_rows (up # ups) nonces i (v # vs) s =
     (case exec (up (encrypt (crypt s) (nonces i) v)) s of
        (Inl e, s') \<Rightarrow> (Inl e, s')
      | (Inr _, s') \<Rightarrow> reencrypt_rows ups nonces (Suc i) vs s')"

definition needs_encryption :: "string \<Rightarrow> bool" where
  "needs_encryption v \<longleftrightarrow> v \<noteq> [] \<and> \<not> isEncrypted v"

definition reencryptColumn :: "(db \<Rightarrow> (int \<times> string) list) \<Rightarrow> (int \<Rightarrow> string \<Rightarrow> db \<Rightarrow> sql_err + db)
    \<Rightarrow> (nat \<Rightarrow> string) \<Rightarrow> unit sql" where
  "reencryptColumn sel upd nonces s =
     (case query (\<lambda>d. Inr (filter (\<lambda>(i, v). needs_encryption v) (sel d))) s of
        (Inl e, s') \<Rightarrow> (Inl e, s')
      | (Inr todo, s') \<Rightarrow> reencrypt_rows (map (upd \<circ> fst) todo) nonces 0 (map snd todo) s')"

definition sel_private_keys :: "db \<Rightarrow> (int \<times> string) list" where
  "sel_private_keys d = map (\<lambda>n. (nr_id n, nr_reality_private_key n)) (nodes d)"

definition upd_private_key :: "int \<Rightarrow> string \<Rightarrow> db \<Rightarrow> sql_err + db" where
  "upd_private_key i v d =
     Inr (d\<lparr>nodes := upd_where (\<lambda>n. nr_id n = i) (\<lambda>n. n\<lparr>nr_reality_private_key := v\<rparr>) (nodes d)\<rparr>)"

definition sel_totp_secrets :: "db \<Rightarrow> (int \<times> string) list" where
  "sel_totp_secrets d = map (\<lambda>a. (ar_id a, ar_totp_secret a)) (admins d)"

definition upd_totp_secret :: "int \<Rightarrow> string \<Rightarrow> db \<Rightarrow> sql_err + db" where
  "upd_totp_secret i v d =
     Inr (d\<lparr>admins := upd_where (\<lambda>a. ar_id a = i) (\<lambda>a. a\<lparr>ar_totp_secret := v\<rparr>) (admins d)\<rparr>)"

definition upd_telegram_token :: "string \<Rightarrow> db \<Rightarrow> sql_err + db" where
  "upd_telegram_token v d =
     Inr (d\<lparr>settings := map (\<lambda>(k, w). if k = ''telegram_token'' then (k, v) else (k, w)) (settings d)\<rparr>)"

definition reencrypt_telegram :: "string \<Rightarrow> unit sql" where
  "reencrypt_telegram nonce s =
     (case query (\<lambda>d. case map_of (settings d) ''telegram_token'' of None \<Rightarrow> Inl NoRows | Some v \<Rightarrow> Inr v) s of
        (Inl NoRows, s') \<Rightarrow> (Inr (), s')
      | (Inl e, s') \<Rightarrow> (Inl e, s')
      | (Inr v, s') \<Rightarrow> if needs_encryption v
                       then exec (upd_telegram_token (encrypt (crypt s') nonce v)) s' else (Inr (), s'))"

definition encryptExisting :: "(nat \<Rightarrow> string) \<Rightarrow> (nat \<Rightarrow> string) \<Rightarrow> string \<Rightarrow> unit sql" where
  "encryptExisting nonces1 nonces2 nonce3 s =
     (if crypt s = None then (Inr (), s)
      else sql_bind (reencryptColumn sel_private_keys upd_private_key nonces1) (\<lambda>_.
           sql_bind (reencryptColumn sel_totp_secrets upd_totp_secret nonces2) (\<lambda>_.
           reencrypt_telegram nonce3)) s)"

subsection \<open>Administrators\<close>

definition insert_admin :: "string \<Rightarrow> string \<Rightarrow> db \<Rightarrow> sql_err + db" where
  "insert_admin username hash d =
     (if username \<in> ar_username ` set (admins d) then Inl ConstraintErr
      else Inr (d\<lparr>admins := admins d @
                   [\<lparr>ar_id = seq_admins d + 1, ar_username = username, ar_password_hash = hash,
                     ar_totp_secret = [], ar_totp_enabled = False, ar_session_epoch = 0\<rparr>],
                  seq_admins := seq_admins d + 1\<rparr>))"

definition upd_admin :: "string \<Rightarrow> (admin_row \<Rightarrow> admin_row) \<Rightarrow> db \<Rightarrow> sql_err + db" where
  "upd_admin username f d =
     Inr (d\<lparr>admins := upd_where (\<lambda>a. ar_username a = username) f (admins d)\<rparr>)"

definition EnsureAdmin :: "string \<Rightarrow> string \<Rightarrow> unit sql" where
  "EnsureAdmin username passwordHash s =
     (case query (\<lambda>d. map_sum id ar_id (find_row (\<lambda>a. ar_username a = username) (admins d))) s of
        (Inl NoRows, s') \<Rightarrow> exec (insert_admin username passwordHash) s'
      | (Inl e, s') \<Rightarrow> (Inl e, s')
      | (Inr _, s') \<Rightarrow> (Inr (), s'))"

definition admin_of_row :: "crypter \<Rightarrow> admin_row \<Rightarrow> admin" where
  "admin_of_row c r =
     \<lparr>adm_ID = ar_id r, adm_Username = ar_username r, adm_PasswordHash = ar_password_hash r,
      adm_TOTPSecret = decrypt c (ar_totp_secret r), adm_TOTPEnabled = ar_totp_enabled r,
      adm_SessionEpoch = ar_session_epoch r\<rparr>"

definition GetAdmin :: "string \<Rightarrow> admin sql" where
  "GetAdmin username s =
     query (\<lambda>d. map_sum id (admin_of_row (crypt s)) (find_row (\<lambda>a. ar_username a = username) (admins d))) s"

definition BumpAdminSessionEpoch :: "string \<Rightarrow> unit sql" where
  "BumpAdminSessionEpoch username =
     exec (upd_admin username (\<lambda>a. a\<lparr>ar_session_epoch := ar_session_epoch a + 1\<rparr>))"

definition SetAdminTOTP :: "string \<Rightarrow> string \<Rightarrow> string \<Rightarrow> bool \<Rightarrow> unit sql" where
  "SetAdminTOTP nonce username secret enabled s =
     exec (upd_admin username (\<lambda>a. a\<lparr>ar_totp_secret := encrypt (crypt s) nonce secret,
                                     ar_totp_enabled := enabled\<rparr>)) s"

definition str_leq :: "string \<Rightarrow> string \<Rightarrow> bool" where
  "str_leq a b \<longleftrightarrow> map of_char a \<le> (map of_char b :: nat list) \<comment> \<open>bytewise, as SQLite and Go compare text\<close>"

definition ListAdmins :: "string list sql" where
  "ListAdmins = query (\<lambda>d. Inr (sort_key (map of_char :: string \<Rightarrow> nat list) (map ar_username (admins d))))"

definition CountAdmins :: "nat sql" where
  "CountAdmins = query (\<lambda>d. Inr (length (admins d)))"

definition CreateAdmin :: "string \<Rightarrow> string \<Rightarrow> unit sql" where
  "CreateAdmin username hash = exec (insert_admin username hash)"

definition DeleteAdmin :: "string \<Rightarrow> unit sql" where
  "DeleteAdmin username =
     exec (\<lambda>d. Inr (d\<lparr>admins := del_where (\<lambda>a. ar_username a = username) (admins d)\<rparr>))"

definition SetAdminPassword :: "string \<Rightarrow> string \<Rightarrow> unit sql" where
  "SetAdminPassword username hash =
     exec (upd_admin username (\<lambda>a. a\<lparr>ar_password_hash := hash,
                                     ar_session_epoch := ar_session_epoch a + 1\<rparr>))"

subsection \<open>Devices\<close>

record device =
  d_IP :: string
  d_Inbound :: string
  d_Conns :: int
  d_NodeID :: int
  d_FirstSeen :: int
  d_LastSeen :: int

definition put_device :: "int \<Rightarrow> int \<Rightarrow> string \<Rightarrow> string \<Rightarrow> int \<Rightarrow> int \<Rightarrow> db \<Rightarrow> sql_err + db" where
  "put_device userID nodeID ip inbound conns seen d =
     Inr (d\<lparr>user_devices := upsert device_key
       \<lparr>dv_user = userID, dv_node = nodeID, dv_ip = ip, dv_inbound = inbound, dv_conns = conns,
        dv_first_seen = seen, dv_last_seen = seen\<rparr>
       (\<lambda>r. r\<lparr>dv_conns := dv_conns r + conns, dv_inbound := inbound, dv_last_seen := seen\<rparr>)
       (user_devices d)\<rparr>)"

definition UpsertDevice :: "int \<Rightarrow> int \<Rightarrow> string \<Rightarrow> string \<Rightarrow> int \<Rightarrow> int \<Rightarrow> unit sql" where
  "UpsertDevice userID nodeID ip inbound conns seen =
     exec (put_device userID nodeID ip inbound conns seen)"

definition device_of_row :: "device_row \<Rightarrow> device" where
  "device_of_row r = \<lparr>d_IP = dv_ip r, d_Inbound = dv_inbound r, d_Conns = dv_conns r,
     d_NodeID = dv_node r, d_FirstSeen = dv_first_seen r, d_LastSeen = dv_last_seen r\<rparr>"

definition ListUserDevices :: "int \<Rightarrow> device list sql" where
  "ListUserDevices userID = query (\<lambda>d. Inr (map device_of_row
     (sort_key (\<lambda>r. - dv_last_seen r) (filter (\<lambda>r. dv_user r = userID) (user_devices d)))))"

text \<open>
  GROUP BY: one group per distinct key, in order of first occurrence. COUNT(DISTINCT ip) is the
  length of the list of distinct addresses.
\<close>

definition group_count :: "(device_row \<Rightarrow> int) \<Rightarrow> device_row list \<Rightarrow> (int \<times> nat) list" where
  "group_count g rs =
     map (\<lambda>k. (k, length (remdups (map dv_ip (filter (\<lambda>r. g r = k) rs))))) (remdups (map g rs))"

definition DeviceCounts :: "int \<Rightarrow> (int \<times> nat) list sql" where
  "DeviceCounts since = query (\<lambda>d. Inr (group_count dv_user
     (filter (\<lambda>r. dv_last_seen r \<ge> since) (user_devices d))))"

definition NodeClientCounts :: "int \<Rightarrow> (int \<times> nat) list sql" where
  "NodeClientCounts since = query (\<lambda>d. Inr (group_count dv_node
     (filter (\<lambda>r. dv_last_seen r \<ge> since) (user_devices d))))"

definition PurgeDevices :: "int \<Rightarrow> nat sql" where
  "PurgeDevices cutoff = exec_res (\<lambda>d.
     let keep = del_where (\<lambda>r. dv_last_seen r < cutoff) (user_devices d)
     in Inr (length (user_devices d) - length keep, d\<lparr>user_devices := keep\<rparr>))"

subsection \<open>Audit log\<close>

definition insert_audit :: "int \<Rightarrow> string \<Rightarrow> string \<Rightarrow> string \<Rightarrow> db \<Rightarrow> sql_err + db" where
  "insert_audit now actor action detail d =
     Inr (d\<lparr>audit_log := audit_log d @
              [\<lparr>au_id = seq_audit d + 1, au_ts = now, au_actor = actor, au_action = action,
                au_detail = detail\<rparr>],
            seq_audit := seq_audit d + 1\<rparr>)"

definition AddAudit :: "int \<Rightarrow> string \<Rightarrow> string \<Rightarrow> string \<Rightarrow> unit sql" where
  "AddAudit now actor action detail = exec (insert_audit now actor action detail)"

definition ListAudit :: "int \<Rightarrow> audit_row list sql" where
  "ListAudit limit =
     (let limit' = (if limit \<le> 0 \<or> limit > 500 then 100 else limit)
      in query (\<lambda>d. Inr (take (nat limit') (sort_key (\<lambda>r. - au_id r) (audit_log d)))))"

subsection \<open>Nodes\<close>

definition node_of_row :: "crypter \<Rightarrow> int \<Rightarrow> node_row \<Rightarrow> node" where
  "node_of_row c now r =
     \<lparr>n_ID = nr_id r, n_Name = nr_name r, n_Token = nr_token r, n_Address = nr_address r,
      n_Remark = nr_remark r, n_LastSeen = nr_last_seen r, n_Online = (now - nr_last_seen r < 60),
      n_CreatedAt = nr_created_at r, n_RealityDest = nr_reality_dest r,
      n_RealityServerName = nr_reality_server_name r,
      n_RealityPrivateKey = decrypt c (nr_reality_private_key r),
      n_RealityPublicKey = nr_reality_public_key r, n_RealityShortID = nr_reality_short_id r,
      n_TLSDomain = nr_tls_domain r, n_AgentVersion = nr_agent_version r\<rparr>"

definition ListNodes :: "int \<Rightarrow> node list sql" where
  "ListNodes now s = query (\<lambda>d. Inr (map (node_of_row (crypt s) now) (sort_key nr_id (nodes d)))) s"

definition GetNode :: "int \<Rightarrow> int \<Rightarrow> node sql" where
  "GetNode now i s =
     query (\<lambda>d. map_sum id (node_of_row (crypt s) now) (find_row (\<lambda>n. nr_id n = i) (nodes d))) s"

definition GetNodeByToken :: "int \<Rightarrow> string \<Rightarrow> node sql" where
  "GetNodeByToken now token s =
     query (\<lambda>d. map_sum id (node_of_row (crypt s) now) (find_row (\<lambda>n. nr_token n = token) (nodes d))) s"

definition insert_node :: "crypter \<Rightarrow> string \<Rightarrow> int \<Rightarrow> node \<Rightarrow> db \<Rightarrow> sql_err + int \<times> db" where
  "insert_node c nonce now n d =
     (if n_Token n \<in> nr_token ` set (nodes d) then Inl ConstraintErr
      else Inr (seq_nodes d + 1,
        d\<lparr>nodes := nodes d @
            [\<lparr>nr_id = seq_nodes d + 1, nr_name = n_Name n, nr_token = n_Token n,
              nr_address = n_Address n, nr_remark = n_Remark n, nr_last_seen = 0,
              nr_created_at = now, nr_reality_dest = n_RealityDest n,
              nr_reality_server_name = n_RealityServerName n,
              nr_reality_private_key = encrypt c nonce (n_RealityPrivateKey n),
              nr_reality_public_key = n_RealityPublicKey n,
              nr_reality_short_id = n_RealityShortID n, nr_tls_domain = n_TLSDomain n,
              nr_traffic_seq = 0, nr_agent_version = []\<rparr>],
          seq_nodes := seq_nodes d + 1\<rparr>))"

definition CreateNode :: "string \<Rightarrow> int \<Rightarrow> node \<Rightarrow> int sql" where
  "CreateNode nonce now n s = exec_res (insert_node (crypt s) nonce now n) s"

definition upd_node :: "int \<Rightarrow> (node_row \<Rightarrow> node_row) \<Rightarrow> db \<Rightarrow> sql_err + db" where
  "upd_node i f d = Inr (d\<lparr>nodes := upd_where (\<lambda>n. nr_id n = i) f (nodes d)\<rparr>)"

definition UpdateNode :: "string \<Rightarrow> node \<Rightarrow> unit sql" where
  "UpdateNode nonce n s =
     exec (upd_node (n_ID n) (\<lambda>r. r\<lparr>nr_name := n_Name n, nr_address := n_Address n,
        nr_remark := n_Remark n, nr_reality_dest := n_RealityDest n,
        nr_reality_server_name := n_RealityServerName n,
        nr_reality_private_key := encrypt (crypt s) nonce (n_RealityPrivateKey n),
        nr_reality_public_key := n_RealityPublicKey n,
        nr_reality_short_id := n_RealityShortID n, nr_tls_domain := n_TLSDomain n\<rparr>)) s"

definition DeleteNode :: "int \<Rightarrow> unit sql" where
  "DeleteNode i = tx
     [\<lambda>d. Inr (d\<lparr>user_nodes := del_where (\<lambda>r. snd r = i) (user_nodes d)\<rparr>),
      \<lambda>d. Inr (d\<lparr>node_traffic := del_where (\<lambda>r. tr_node r = i) (node_traffic d)\<rparr>),
      \<lambda>d. Inr (d\<lparr>node_traffic_daily := del_where (\<lambda>r. dy_owner r = i) (node_traffic_daily d)\<rparr>),
      \<lambda>d. Inr (d\<lparr>user_devices := del_where (\<lambda>r. dv_node r = i) (user_devices d)\<rparr>),
      \<lambda>d. Inr (d\<lparr>nodes := del_where (\<lambda>r. nr_id r = i) (nodes d)\<rparr>)]"

definition SetNodeAgentVersion :: "int \<Rightarrow> string \<Rightarrow> unit sql" where
  "SetNodeAgentVersion i v = exec (upd_node i (\<lambda>n. n\<lparr>nr_agent_version := v\<rparr>))"

definition TouchNode :: "int \<Rightarrow> int \<Rightarrow> unit sql" where
  "TouchNode now i = exec (upd_node i (\<lambda>n. n\<lparr>nr_last_seen := now\<rparr>))"

subsection \<open>Users\<close>

definition user_of_row :: "user_row \<Rightarrow> user" where
  "user_of_row r =
     \<lparr>ID = ur_id r, Username = ur_username r, UUID = ur_uuid r, SubToken = ur_sub_token r,
      DataLimit = ur_data_limit r, DataUsed = ur_data_used r, ExpireAt = ur_expire_at r,
      Enabled = ur_enabled r, CreatedAt = ur_created_at r, NodeIDs = [],
      PortalPasswordHash = ur_portal_password_hash r,
      HasPortalPassword = (ur_portal_password_hash r \<noteq> []), ResetDay = ur_reset_day r,
      LastReset = ur_last_reset r, SessionEpoch = ur_session_epoch r,
      MustChangePW = ur_must_change_pw r, DeviceCount = 0, EtaDays = 0, Note = ur_note r\<rparr>"

definition node_ids_of :: "int \<Rightarrow> db \<Rightarrow> int list" where
  "node_ids_of userID d = sort (map snd (filter (\<lambda>r. fst r = userID) (user_nodes d)))"

definition userNodeIDs :: "int \<Rightarrow> int list sql" where
  "userNodeIDs userID = query (\<lambda>d. Inr (node_ids_of userID d))"

definition ListUsers :: "user list sql" where
  "ListUsers =
     sql_bind (query (\<lambda>d. Inr (map user_of_row (sort_key ur_id (users d)))))
       (sql_mapM (\<lambda>u. sql_bind (userNodeIDs (ID u)) (\<lambda>ids. sql_return (u\<lparr>NodeIDs := ids\<rparr>))))"

definition GetUser :: "int \<Rightarrow> user sql" where
  "GetUser i =
     sql_bind (query (\<lambda>d. map_sum id user_of_row (find_row (\<lambda>u. ur_id u = i) (users d))))
       (\<lambda>u. sql_bind (userNodeIDs i) (\<lambda>ids. sql_return (u\<lparr>NodeIDs := ids\<rparr>)))"

definition GetUserBySubToken :: "string \<Rightarrow> user sql" where
  "GetUserBySubToken token =
     sql_bind (query (\<lambda>d. map_sum id user_of_row (find_row (\<lambda>u. ur_sub_token u = token) (users d))))
       (\<lambda>u. sql_bind (userNodeIDs (ID u)) (\<lambda>ids. sql_return (u\<lparr>NodeIDs := ids\<rparr>)))"

definition GetUserByName :: "string \<Rightarrow> user sql" where
  "GetUserByName name = query (\<lambda>d. map_sum id user_of_row (find_row (\<lambda>u. ur_username u = name) (users d)))"

definition insert_user :: "int \<Rightarrow> user \<Rightarrow> db \<Rightarrow> sql_err + int \<times> db" where
  "insert_user now u d =
     (if Username u \<in> ur_username ` set (users d) \<or> SubToken u \<in> ur_sub_token ` set (users d)
      then Inl ConstraintErr
      else Inr (seq_users d + 1,
        d\<lparr>users := users d @
            [\<lparr>ur_id = seq_users d + 1, ur_username = Username u, ur_uuid = UUID u,
              ur_sub_token = SubToken u, ur_data_limit = DataLimit u, ur_data_used = 0,
              ur_expire_at = ExpireAt u, ur_enabled = Enabled u, ur_created_at = now,
              ur_portal_password_hash = [], ur_reset_day = ResetDay u, ur_last_reset = 0,
              ur_session_epoch = 0, ur_must_change_pw = False, ur_note = Note u\<rparr>],
          seq_users := seq_users d + 1\<rparr>))"

definition CreateUser :: "int \<Rightarrow> user \<Rightarrow> int sql" where
  "CreateUser now u = exec_res (insert_user now u)"

definition upd_user :: "int \<Rightarrow> (user_row \<Rightarrow> user_row) \<Rightarrow> db \<Rightarrow> sql_err + db" where
  "upd_user i f d = Inr (d\<lparr>users := upd_where (\<lambda>u. ur_id u = i) f (users d)\<rparr>)"

definition BumpUserSessionEpoch :: "int \<Rightarrow> unit sql" where
  "BumpUserSessionEpoch i = exec (upd_user i (\<lambda>u. u\<lparr>ur_session_epoch := ur_session_epoch u + 1\<rparr>))"

definition UpdateUser :: "user \<Rightarrow> unit sql" where
  "UpdateUser u = exec (upd_user (ID u) (\<lambda>r. r\<lparr>ur_data_limit := DataLimit u,
     ur_expire_at := ExpireAt u, ur_enabled := Enabled u, ur_reset_day := ResetDay u,
     ur_note := Note u\<rparr>))"

text \<open>The UNIQUE constraint of \<^verbatim>\<open>sub_token\<close>: another row may not hold the token already.\<close>

definition upd_sub_token :: "int \<Rightarrow> string \<Rightarrow> db \<Rightarrow> sql_err + db" where
  "upd_sub_token i token d =
     (if (\<exists>u \<in> set (users d). ur_id u = i) \<and> (\<exists>u \<in> set (users d). ur_id u \<noteq> i \<and> ur_sub_token u = token)
      then Inl ConstraintErr else upd_user i (\<lambda>u. u\<lparr>ur_sub_token := token\<rparr>) d)"

definition SetUserSubToken :: "int \<Rightarrow> string \<Rightarrow> unit sql" where
  "SetUserSubToken i token = exec (upd_sub_token i token)"

definition SetUserUUID :: "int \<Rightarrow> string \<Rightarrow> unit sql" where
  "SetUserUUID i uuid = exec (upd_user i (\<lambda>u. u\<lparr>ur_uuid := uuid\<rparr>))"

definition SetUserLastReset :: "int \<Rightarrow> int \<Rightarrow> unit sql" where
  "SetUserLastReset i ts = exec (upd_user i (\<lambda>u. u\<lparr>ur_last_reset := ts\<rparr>))"

definition DeleteUser :: "int \<Rightarrow> unit sql" where
  "DeleteUser i = tx
     [\<lambda>d. Inr (d\<lparr>user_nodes := del_where (\<lambda>r. fst r = i) (user_nodes d)\<rparr>),
      \<lambda>d. Inr (d\<lparr>node_traffic := del_where (\<lambda>r. tr_user r = i) (node_traffic d)\<rparr>),
      \<lambda>d. Inr (d\<lparr>user_devices := del_where (\<lambda>r. dv_user r = i) (user_devices d)\<rparr>),
      \<lambda>d. Inr (d\<lparr>users := del_where (\<lambda>r. ur_id r = i) (users d)\<rparr>)]"

definition insert_or_ignore :: "int \<Rightarrow> int \<Rightarrow> db \<Rightarrow> sql_err + db" where
  "insert_or_ignore userID nid d =
     Inr (if (userID, nid) \<in> set (user_nodes d) then d
          else d\<lparr>user_nodes := user_nodes d @ [(userID, nid)]\<rparr>)"

definition SetUserNodes :: "int \<Rightarrow> int list \<Rightarrow> unit sql" where
  "SetUserNodes userID nodeIDs = tx
     ((\<lambda>d. Inr (d\<lparr>user_nodes := del_where (\<lambda>r. fst r = userID) (user_nodes d)\<rparr>)) #
      map (insert_or_ignore userID) nodeIDs)"

text \<open>The join of \<^verbatim>\<open>users\<close> and \<^verbatim>\<open>user_nodes\<close>, ordered by user id. Node lists are not attached.\<close>

definition users_for_node :: "int \<Rightarrow> db \<Rightarrow> user list" where
  "users_for_node nodeID d =
     map user_of_row (sort_key ur_id (filter (\<lambda>u. (ur_id u, nodeID) \<in> set (user_nodes d)) (users d)))"

definition UsersForNode :: "int \<Rightarrow> user list sql" where
  "UsersForNode nodeID = query (\<lambda>d. Inr (users_for_node nodeID d))"

definition SetUserPortalPassword :: "int \<Rightarrow> string \<Rightarrow> bool \<Rightarrow> unit sql" where
  "SetUserPortalPassword i hash mustChange =
     exec (upd_user i (\<lambda>u. u\<lparr>ur_portal_password_hash := hash, ur_must_change_pw := mustChange\<rparr>))"

definition ChangeUserPortalPassword :: "int \<Rightarrow> string \<Rightarrow> unit sql" where
  "ChangeUserPortalPassword i hash =
     exec (upd_user i (\<lambda>u. u\<lparr>ur_portal_password_hash := hash, ur_must_change_pw := False,
                             ur_session_epoch := ur_session_epoch u + 1\<rparr>))"

subsection \<open>Traffic accounting\<close>

definition add_used :: "int \<Rightarrow> int \<Rightarrow> db \<Rightarrow> sql_err + db" where
  "add_used userID k = upd_user userID (\<lambda>u. u\<lparr>ur_data_used := ur_data_used u + k\<rparr>)"

definition add_node_traffic :: "int \<Rightarrow> int \<Rightarrow> int \<Rightarrow> int \<Rightarrow> int \<Rightarrow> db \<Rightarrow> sql_err + db" where
  "add_node_traffic now userID nodeID up down d =
     Inr (d\<lparr>node_traffic := upsert traffic_key
       \<lparr>tr_user = userID, tr_node = nodeID, tr_up = up, tr_down = down, tr_updated_at = now\<rparr>
       (\<lambda>r. r\<lparr>tr_up := tr_up r + up, tr_down := tr_down r + down, tr_updated_at := now\<rparr>)
       (node_traffic d)\<rparr>)"

definition add_daily :: "int \<Rightarrow> string \<Rightarrow> int \<Rightarrow> int \<Rightarrow> daily_row list \<Rightarrow> daily_row list" where
  "add_daily ownr day up down =
     upsert daily_key \<lparr>dy_owner = ownr, dy_day = day, dy_up = up, dy_down = down\<rparr>
       (\<lambda>r. r\<lparr>dy_up := dy_up r + up, dy_down := dy_down r + down\<rparr>)"

definition AddTraffic :: "int \<Rightarrow> int \<Rightarrow> int \<Rightarrow> int \<Rightarrow> int \<Rightarrow> unit sql" where
  "AddTraffic now userID nodeID up down =
     (let day = utc_day now in tx
       [add_used userID (wrap64 (up + down)),
        add_node_traffic now userID nodeID up down,
        \<lambda>d. Inr (d\<lparr>traffic_daily := add_daily userID day up down (traffic_daily d)\<rparr>),
        \<lambda>d. Inr (d\<lparr>node_traffic_daily := add_daily nodeID day up down (node_traffic_daily d)\<rparr>)])"

definition ResetUserTraffic :: "int \<Rightarrow> unit sql" where
  "ResetUserTraffic userID = tx
     [upd_user userID (\<lambda>u. u\<lparr>ur_data_used := 0\<rparr>),
      \<lambda>d. Inr (d\<lparr>node_traffic := del_where (\<lambda>r. tr_user r = userID) (node_traffic d)\<rparr>)]"

subsection \<open>Traffic reports\<close>

record daily =
  dt_Day :: string
  dt_Up :: int
  dt_Down :: int

text \<open>The day \<open>k\<close> days before today: \<^verbatim>\<open>time.Now().UTC().AddDate(0, 0, -k)\<close>.\<close>

definition day_ago :: "int \<Rightarrow> int \<Rightarrow> string" where
  "day_ago now k = day_string (now div 86400 - k)"

text \<open>\<open>fillDaily\<close>: one entry per day, oldest first, zero where the map has no entry.\<close>

definition fillDaily :: "int \<Rightarrow> (string \<times> daily) list \<Rightarrow> nat \<Rightarrow> daily list" where
  "fillDaily now byDay days =
     map (\<lambda>i. let day = day_ago now (int i) in
        case map_of byDay day of Some d \<Rightarrow> d | None \<Rightarrow> \<lparr>dt_Day = day, dt_Up = 0, dt_Down = 0\<rparr>)
       (rev [0..<days])"

definition by_day :: "daily list \<Rightarrow> (string \<times> daily) list" where
  "by_day ds = fold (\<lambda>d m. AList.update (dt_Day d) d m) ds []"

definition daily_of_row :: "daily_row \<Rightarrow> daily" where
  "daily_of_row r = \<lparr>dt_Day = dy_day r, dt_Up = dy_up r, dt_Down = dy_down r\<rparr>"

definition default_days :: "int \<Rightarrow> int \<Rightarrow> int" where
  "default_days dflt days = (if days < 1 then dflt else days)"

definition TrafficHistory :: "int \<Rightarrow> int \<Rightarrow> int \<Rightarrow> daily list sql" where
  "TrafficHistory now userID days0 =
     (let days = default_days 30 days0; since = day_ago now (days - 1)
      in query (\<lambda>d. Inr (fillDaily now (by_day (map daily_of_row
           (filter (\<lambda>r. dy_owner r = userID \<and> str_leq since (dy_day r)) (traffic_daily d)))) (nat days))))"

text \<open>GROUP BY day with SUM: one row per day, in order of first occurrence.\<close>

definition sum_by_day :: "daily_row list \<Rightarrow> daily list" where
  "sum_by_day rs = map (\<lambda>day. \<lparr>dt_Day = day,
      dt_Up = sum_list (map dy_up (filter (\<lambda>r. dy_day r = day) rs)),
      dt_Down = sum_list (map dy_down (filter (\<lambda>r. dy_day r = day) rs))\<rparr>) (remdups (map dy_day rs))"

definition FleetDaily :: "int \<Rightarrow> int \<Rightarrow> daily list sql" where
  "FleetDaily now days0 =
     (let days = default_days 30 days0; since = day_ago now (days - 1)
      in query (\<lambda>d. Inr (fillDaily now (by_day (sum_by_day
           (filter (\<lambda>r. str_leq since (dy_day r)) (traffic_daily d)))) (nat days))))"

definition NodeDaily :: "int \<Rightarrow> int \<Rightarrow> int \<Rightarrow> daily list sql" where
  "NodeDaily now nodeID days0 =
     (let days = default_days 30 days0; since = day_ago now (days - 1)
      in query (\<lambda>d. Inr (fillDaily now (by_day (map daily_of_row
           (filter (\<lambda>r. dy_owner r = nodeID \<and> str_leq since (dy_day r)) (node_traffic_daily d)))) (nat days))))"

record split_bytes =
  ts_Up :: int
  ts_Down :: int

definition sum_daily :: "(daily_row \<Rightarrow> bool) \<Rightarrow> db \<Rightarrow> split_bytes" where
  "sum_daily P d = \<lparr>ts_Up = sum_list (map dy_up (filter P (traffic_daily d))),
                    ts_Down = sum_list (map dy_down (filter P (traffic_daily d)))\<rparr>"

definition month_start :: "int \<Rightarrow> string" where
  "month_start now = (let (y, m, d) = civil_of_days (now div 86400) in day_string (days_of_civil y m 1))"

definition PeriodTotals :: "int \<Rightarrow> (split_bytes \<times> split_bytes) sql" where
  "PeriodTotals now =
     sql_bind (query (\<lambda>d. Inr (sum_daily (\<lambda>r. dy_day r = utc_day now) d))) (\<lambda>today.
     sql_bind (query (\<lambda>d. Inr (sum_daily (\<lambda>r. str_leq (month_start now) (dy_day r)) d))) (\<lambda>month.
     sql_return (today, month)))"

text \<open>Go's integer division truncates towards zero.\<close>

definition go_div :: "int \<Rightarrow> int \<Rightarrow> int" where
  "go_div a b = sgn a * sgn b * (\<bar>a\<bar> div \<bar>b\<bar>)"

definition RecentDailyAvg :: "int \<Rightarrow> int \<Rightarrow> (int \<times> int) list sql" where
  "RecentDailyAvg now days0 =
     (let days = default_days 7 days0; since = day_ago now (days - 1)
      in query (\<lambda>d. let rs = filter (\<lambda>r. str_leq since (dy_day r)) (traffic_daily d) in
           Inr (map (\<lambda>uid. (uid, go_div (sum_list (map (\<lambda>r. dy_up r + dy_down r)
                        (filter (\<lambda>r. dy_owner r = uid) rs))) days)) (remdups (map dy_owner rs)))))"

record node_usage =
  nu_NodeID :: int
  nu_Up :: int
  nu_Down :: int
  nu_Users :: int

definition NodeTrafficTotals :: "node_usage list sql" where
  "NodeTrafficTotals = query (\<lambda>d. Inr (map (\<lambda>nid.
      let rs = filter (\<lambda>r. tr_node r = nid) (node_traffic d)
      in \<lparr>nu_NodeID = nid, nu_Up = sum_list (map tr_up rs), nu_Down = sum_list (map tr_down rs),
          nu_Users = int (length (remdups (map tr_user rs)))\<rparr>) (remdups (map tr_node (node_traffic d)))))"

definition UserTrafficTotals :: "(int \<times> split_bytes) list sql" where
  "UserTrafficTotals = query (\<lambda>d. Inr (map (\<lambda>uid.
      let rs = filter (\<lambda>r. tr_user r = uid) (node_traffic d)
      in (uid, \<lparr>ts_Up = sum_list (map tr_up rs), ts_Down = sum_list (map tr_down rs)\<rparr>))
      (remdups (map tr_user (node_traffic d)))))"

definition UserTrafficByNode :: "int \<Rightarrow> node_usage list sql" where
  "UserTrafficByNode userID = query (\<lambda>d. Inr (map
      (\<lambda>r. \<lparr>nu_NodeID = tr_node r, nu_Up = tr_up r, nu_Down = tr_down r, nu_Users = 0\<rparr>)
      (sort_key (\<lambda>r. - (tr_up r + tr_down r))
        (filter (\<lambda>r. tr_user r = userID \<and> tr_up r + tr_down r > 0) (node_traffic d)))))"

end
