(* ===== verification/StoreInv.thy ===== *)
theory StoreInv
  imports Store
begin

section \<open>Integrity of the database\<close>

text \<open>
  The invariant the schema promises (unique ids, names, tokens and composite keys, ids bounded by
  the AUTOINCREMENT counters), kept by every statement and so by every method of the store,
  whatever statements the engine fails. \<open>store_op\<close> names the methods that write, so that the
  invariant can be stated once for every sequence of calls.
\<close>

subsection \<open>The invariant\<close>

definition admins_ok :: "db \<Rightarrow> bool" where
  "admins_ok d \<longleftrightarrow> distinct (map ar_id (admins d)) \<and> distinct (map ar_username (admins d)) \<and>
     (\<forall>a \<in> set (admins d). ar_id a \<le> seq_admins d)"

definition nodes_ok :: "db \<Rightarrow> bool" where
  "nodes_ok d \<longleftrightarrow> distinct (map nr_id (nodes d)) \<and> distinct (map nr_token (nodes d)) \<and>
     (\<forall>n \<in> set (nodes d). nr_id n \<le> seq_nodes d)"

definition users_ok :: "db \<Rightarrow> bool" where
  "users_ok d \<longleftrightarrow> distinct (map ur_id (users d)) \<and> distinct (map ur_username (users d)) \<and>
     distinct (map ur_sub_token (users d)) \<and> (\<forall>u \<in> set (users d). ur_id u \<le> seq_users d)"

definition keys_ok :: "db \<Rightarrow> bool" where
  "keys_ok d \<longleftrightarrow> distinct (user_nodes d) \<and> distinct (map traffic_key (node_traffic d)) \<and>
     distinct (map daily_key (traffic_daily d)) \<and> distinct (map daily_key (node_traffic_daily d)) \<and>
     keys_distinct (settings d) \<and> distinct (map device_key (user_devices d)) \<and>
     distinct (map au_id (audit_log d)) \<and> (\<forall>a \<in> set (audit_log d). au_id a \<le> seq_audit d)"

definition db_ok :: "db \<Rightarrow> bool" where
  "db_ok d \<longleftrightarrow> admins_ok d \<and> nodes_ok d \<and> users_ok d \<and> keys_ok d"

lemmas db_ok_defs = db_ok_def admins_ok_def nodes_ok_def users_ok_def keys_ok_def

lemma db_ok_empty: "db_ok empty_db"
  by (simp add: db_ok_defs empty_db_def)

subsection \<open>The key columns survive every update\<close>

interpretation device_upsert: keyed_update device_key
  "\<lambda>r. r\<lparr>dv_conns := dv_conns r + conns, dv_inbound := inbound, dv_last_seen := seen\<rparr>"
  for conns inbound seen
  by unfold_locales (simp add: device_key_def)

interpretation traffic_upsert: keyed_update traffic_key
  "\<lambda>r. r\<lparr>tr_up := tr_up r + up, tr_down := tr_down r + down, tr_updated_at := now\<rparr>"
  for up down now
  by unfold_locales (simp add: traffic_key_def)

interpretation daily_upsert: keyed_update daily_key
  "\<lambda>r. r\<lparr>dy_up := dy_up r + up, dy_down := dy_down r + down\<rparr>"
  for up down
  by unfold_locales (simp add: daily_key_def)

definition keeps_user_keys :: "(user_row \<Rightarrow> user_row) \<Rightarrow> bool" where
  "keeps_user_keys f \<longleftrightarrow> (\<forall>u. ur_id (f u) = ur_id u \<and> ur_username (f u) = ur_username u \<and>
     ur_sub_token (f u) = ur_sub_token u)"

definition keeps_node_keys :: "(node_row \<Rightarrow> node_row) \<Rightarrow> bool" where
  "keeps_node_keys f \<longleftrightarrow> (\<forall>n. nr_id (f n) = nr_id n \<and> nr_token (f n) = nr_token n)"

definition keeps_admin_keys :: "(admin_row \<Rightarrow> admin_row) \<Rightarrow> bool" where
  "keeps_admin_keys f \<longleftrightarrow> (\<forall>a. ar_id (f a) = ar_id a \<and> ar_username (f a) = ar_username a)"

lemma map_upd_where: "(\<And>r. g (f r) = g r) \<Longrightarrow> map g (upd_where P f rs) = map g rs"
  by (induction rs) auto

subsection \<open>Statements that keep the invariant\<close>

definition keeps_stmt :: "(db \<Rightarrow> bool) \<Rightarrow> (db \<Rightarrow> sql_err + db) \<Rightarrow> bool" where
  "keeps_stmt P st \<longleftrightarrow> (\<forall>d d'. P d \<longrightarrow> st d = Inr d' \<longrightarrow> P d')"

abbreviation stmt_ok :: "(db \<Rightarrow> sql_err + db) \<Rightarrow> bool" where
  "stmt_ok \<equiv> keeps_stmt db_ok"

lemma keeps_stmtI: "(\<And>d d'. P d \<Longrightarrow> st d = Inr d' \<Longrightarrow> P d') \<Longrightarrow> keeps_stmt P st"
  by (simp add: keeps_stmt_def)

lemma keeps_stmtD: "keeps_stmt P st \<Longrightarrow> P d \<Longrightarrow> st d = Inr d' \<Longrightarrow> P d'"
  by (simp add: keeps_stmt_def)

lemmas stmt_okI = keeps_stmtI [of db_ok]

named_theorems stmts_ok \<open>statements that keep db_ok\<close>

lemma stmt_ok_Inr [stmts_ok]: "stmt_ok Inr"
  by (simp add: keeps_stmt_def)

lemma upd_user_ok [stmts_ok]: "keeps_user_keys f \<Longrightarrow> stmt_ok (upd_user i f)"
  by (rule stmt_okI)
    (auto simp: upd_user_def db_ok_defs keeps_user_keys_def map_upd_where set_upd_where)

lemma upd_node_ok [stmts_ok]: "keeps_node_keys f \<Longrightarrow> stmt_ok (upd_node i f)"
  by (rule stmt_okI)
    (auto simp: upd_node_def db_ok_defs keeps_node_keys_def map_upd_where set_upd_where)

lemma upd_admin_ok [stmts_ok]: "keeps_admin_keys f \<Longrightarrow> stmt_ok (upd_admin name f)"
  by (rule stmt_okI)
    (auto simp: upd_admin_def db_ok_defs keeps_admin_keys_def map_upd_where set_upd_where)

lemma set_seq_ok [stmts_ok]:
  "stmt_ok (\<lambda>d. Inr (d\<lparr>nodes := upd_where (\<lambda>n. nr_id n = i) (\<lambda>n. n\<lparr>nr_traffic_seq := sq\<rparr>) (nodes d)\<rparr>))"
  using upd_node_ok [of "\<lambda>n. n\<lparr>nr_traffic_seq := sq\<rparr>" i]
  by (simp add: keeps_node_keys_def upd_node_def [abs_def])

lemma upd_private_key_ok [stmts_ok]: "stmt_ok (upd_private_key i v)"
  using upd_node_ok [of "\<lambda>n. n\<lparr>nr_reality_private_key := v\<rparr>" i]
  by (simp add: keeps_node_keys_def upd_node_def [abs_def] upd_private_key_def [abs_def])

lemma upd_totp_secret_ok [stmts_ok]: "stmt_ok (upd_totp_secret i v)"
  by (rule stmt_okI)
    (auto simp: upd_totp_secret_def db_ok_defs map_upd_where set_upd_where)

lemma put_setting_ok [stmts_ok]: "stmt_ok (put_setting k v)"
  by (rule stmt_okI) (auto simp: put_setting_def db_ok_defs distinct_update)

lemma upd_telegram_ok [stmts_ok]: "stmt_ok (upd_telegram_token v)"
proof -
  have "fst \<circ> (\<lambda>(k, w). if k = ''telegram_token'' then (k, v) else (k, w)) = fst"
    by auto
  then show ?thesis by (intro stmt_okI) (auto simp: upd_telegram_token_def db_ok_defs)
qed

lemma insert_admin_ok [stmts_ok]: "stmt_ok (insert_admin u h)"
  by (rule stmt_okI)
    (fastforce simp: insert_admin_def db_ok_defs split: if_splits)

lemma insert_audit_ok [stmts_ok]: "stmt_ok (insert_audit now actor act det)"
  by (rule stmt_okI) (fastforce simp: insert_audit_def db_ok_defs)

lemma put_device_ok [stmts_ok]: "stmt_ok (put_device u n ip inb c seen)"
  by (rule stmt_okI) (auto simp: put_device_def db_ok_defs device_upsert.distinct_upsert)

lemma add_node_traffic_ok [stmts_ok]: "stmt_ok (add_node_traffic now u n up dn)"
  by (rule stmt_okI) (auto simp: add_node_traffic_def db_ok_defs traffic_upsert.distinct_upsert)

lemma add_daily_ok [stmts_ok]:
  "stmt_ok (\<lambda>d. Inr (d\<lparr>traffic_daily := add_daily i day up dn (traffic_daily d)\<rparr>))"
  "stmt_ok (\<lambda>d. Inr (d\<lparr>node_traffic_daily := add_daily i day up dn (node_traffic_daily d)\<rparr>))"
  by (rule stmt_okI; auto simp: add_daily_def db_ok_defs daily_upsert.distinct_upsert)+

lemma upd_sub_token_ok [stmts_ok]: "stmt_ok (upd_sub_token i t)"
proof (rule stmt_okI)
  fix d d' assume ok: "db_ok d" and st: "upd_sub_token i t d = Inr d'"
  have tok: "distinct (map ur_sub_token (upd_where (\<lambda>u. ur_id u = i) (\<lambda>u. u\<lparr>ur_sub_token := t\<rparr>) us))"
    if "distinct (map ur_sub_token us)" "distinct (map ur_id us)"
      "(\<forall>u \<in> set us. ur_id u \<noteq> i) \<or> (\<forall>u \<in> set us. ur_id u = i \<or> ur_sub_token u \<noteq> t)" for us
    using that
  proof (induction us)
    case Nil
    then show ?case by simp
  next
    case (Cons u us)
    then have IH: "distinct (map ur_sub_token (upd_where (\<lambda>u. ur_id u = i) (\<lambda>u. u\<lparr>ur_sub_token := t\<rparr>) us))" by auto
    show ?case
    proof (cases "ur_id u = i")
      case True
      with Cons.prems have none: "\<forall>v \<in> set us. ur_id v \<noteq> i" by (auto simp: image_iff)
      then have "upd_where (\<lambda>u. ur_id u = i) (\<lambda>u. u\<lparr>ur_sub_token := t\<rparr>) us = us"
        by (intro upd_where_none) auto
      with True none Cons.prems show ?thesis by (auto simp: image_iff)
    next
      case False
      with Cons.prems IH show ?thesis by (fastforce simp: set_upd_where image_iff)
    qed
  qed
  from ok st tok [of "users d"] show "db_ok d'"
    by (auto simp: upd_sub_token_def upd_user_def db_ok_defs map_upd_where set_upd_where split: if_splits)
qed

lemma insert_or_ignore_ok [stmts_ok]: "stmt_ok (insert_or_ignore u n)"
  by (rule stmt_okI) (auto simp: insert_or_ignore_def db_ok_defs split: if_splits)

lemma delete_ok [stmts_ok]:
  "stmt_ok (\<lambda>d. Inr (d\<lparr>user_nodes := del_where P1 (user_nodes d)\<rparr>))"
  "stmt_ok (\<lambda>d. Inr (d\<lparr>node_traffic := del_where P2 (node_traffic d)\<rparr>))"
  "stmt_ok (\<lambda>d. Inr (d\<lparr>node_traffic_daily := del_where P3 (node_traffic_daily d)\<rparr>))"
  "stmt_ok (\<lambda>d. Inr (d\<lparr>user_devices := del_where P4 (user_devices d)\<rparr>))"
  "stmt_ok (\<lambda>d. Inr (d\<lparr>nodes := del_where P5 (nodes d)\<rparr>))"
  "stmt_ok (\<lambda>d. Inr (d\<lparr>users := del_where P6 (users d)\<rparr>))"
  "stmt_ok (\<lambda>d. Inr (d\<lparr>admins := del_where P7 (admins d)\<rparr>))"
  by (rule stmt_okI; auto simp: db_ok_defs distinct_del_where; simp add: del_where_def)+

subsection \<open>Methods that keep an invariant\<close>

text \<open>
  For any predicate of the tables: a method keeps it when its statements do; a transaction keeps
  it when its statements do together, since a failure rolls all of them back.
\<close>

definition keeps :: "(db \<Rightarrow> bool) \<Rightarrow> 'a sql \<Rightarrow> bool" where
  "keeps P m \<longleftrightarrow> (\<forall>s. P (tables s) \<longrightarrow> P (tables (snd (m s))))"

named_theorems methods_ok \<open>store methods that keep an invariant\<close>

lemma keepsD: "keeps P m \<Longrightarrow> P (tables s) \<Longrightarrow> m s = (r, s') \<Longrightarrow> P (tables s')"
  by (metis keeps_def snd_conv)

lemma next_fault_tables: "next_fault s = (b, s') \<Longrightarrow> tables s' = tables s \<and> crypt s' = crypt s"
  by (auto simp: next_fault_def split: list.splits)

lemma query_tables: "query q s = (r, s') \<Longrightarrow> tables s' = tables s \<and> crypt s' = crypt s"
  by (auto simp: query_def next_fault_tables split: prod.splits)

lemma query_keeps [methods_ok]: "keeps P (query q)"
  by (auto simp: keeps_def query_def next_fault_tables split: prod.splits)

lemma exec_keeps [methods_ok]: "keeps_stmt P st \<Longrightarrow> keeps P (exec st)"
  by (auto simp: keeps_def exec_def exec_res_def next_fault_tables dest: keeps_stmtD
      split: prod.splits sum.splits)

lemma exec_res_keeps:
  "(\<And>d a d'. P d \<Longrightarrow> st d = Inr (a, d') \<Longrightarrow> P d') \<Longrightarrow> keeps P (exec_res st)"
  by (fastforce simp: keeps_def exec_res_def next_fault_tables split: prod.splits sum.splits)

lemma exec_tables: "exec st s = (r, s') \<Longrightarrow>
    (case r of Inl e \<Rightarrow> tables s' = tables s | Inr _ \<Rightarrow> st (tables s) = Inr (tables s')) \<and> crypt s' = crypt s"
  by (auto simp: exec_def exec_res_def next_fault_tables split: prod.splits sum.splits if_splits)

lemma run_stmts_tables: "run_stmts sts s = (Inr u, s') \<Longrightarrow> seq_stmts sts (tables s) = Inr (tables s')"
proof (induction sts arbitrary: s)
  case Nil
  then show ?case by simp
next
  case (Cons st sts)
  then show ?case by (auto split: prod.splits sum.splits dest!: exec_tables)
qed

lemma tx_tables: "tx sts s = (r, s') \<Longrightarrow>
    (case r of Inl e \<Rightarrow> tables s' = tables s | Inr _ \<Rightarrow> seq_stmts sts (tables s) = Inr (tables s'))"
proof (cases r)
  case (Inl e)
  assume "tx sts s = (r, s')"
  with Inl show ?thesis using tx_error_unchanged by auto
next
  case (Inr u)
  assume "tx sts s = (r, s')"
  with Inr show ?thesis
    by (auto simp: tx_def split: prod.splits sum.splits dest!: exec_tables run_stmts_tables)
qed

lemma tx_keeps_seq: "keeps_stmt P (seq_stmts sts) \<Longrightarrow> keeps P (tx sts)"
  unfolding keeps_def
proof (intro allI impI)
  fix s :: store assume "keeps_stmt P (seq_stmts sts)" and "P (tables s)"
  then show "P (tables (snd (tx sts s)))"
    using tx_tables [of sts s "fst (tx sts s)" "snd (tx sts s)"]
    by (auto split: sum.splits dest: keeps_stmtD)
qed

lemma seq_stmts_keeps: "list_all (keeps_stmt P) sts \<Longrightarrow> keeps_stmt P (seq_stmts sts)"
proof (induction sts)
  case Nil
  then show ?case by (simp add: keeps_stmt_def)
next
  case (Cons st sts)
  then have st: "keeps_stmt P st" and sts: "keeps_stmt P (seq_stmts sts)" by simp_all
  show ?case
  proof (rule keeps_stmtI)
    fix d d' assume P: "P d" and run: "seq_stmts (st # sts) d = Inr d'"
    then obtain d1 where "st d = Inr d1" "seq_stmts sts d1 = Inr d'" by (auto split: sum.splits)
    with P st sts show "P d'" by (blast dest: keeps_stmtD)
  qed
qed

lemma tx_keeps [methods_ok]: "list_all (keeps_stmt P) sts \<Longrightarrow> keeps P (tx sts)"
  by (simp add: tx_keeps_seq seq_stmts_keeps)

lemma bind_keeps [methods_ok]: "keeps P m \<Longrightarrow> (\<And>a. keeps P (f a)) \<Longrightarrow> keeps P (sql_bind m f)"
  by (force simp: keeps_def sql_bind_def split: prod.splits sum.splits)

lemma return_keeps [methods_ok]: "keeps P (sql_return a)"
  by (simp add: keeps_def sql_return_def)

lemma mapM_keeps [methods_ok]: "(\<And>x. keeps P (f x)) \<Longrightarrow> keeps P (sql_mapM f xs)"
  by (induction xs) (auto intro: methods_ok)

lemma reencrypt_rows_ok:
  "list_all (\<lambda>up. \<forall>v. keeps_stmt P (up v)) ups \<Longrightarrow> P (tables s) \<Longrightarrow>
   P (tables (snd (reencrypt_rows ups nonces i vs s)))"
proof (induction ups nonces i vs s rule: reencrypt_rows.induct)
  case (3 up ups nonces i v vs s)
  obtain r s' where e: "exec (up (encrypt (crypt s) (nonces i) v)) s = (r, s')" by fastforce
  from "3.prems" have "keeps_stmt P (up (encrypt (crypt s) (nonces i) v))" by simp
  then have "P (tables s')" using "3.prems"(2) e by (rule exec_keeps [THEN keepsD])
  with "3.IH" "3.prems" e show ?case by (cases r) auto
qed auto

lemma reencryptColumn_keeps [methods_ok]:
  assumes "\<And>i v. keeps_stmt P (upd i v)"
  shows "keeps P (reencryptColumn sel upd nonces)"
  unfolding keeps_def
proof (intro allI impI)
  fix s :: store assume P: "P (tables s)"
  obtain r s' where q: "query (\<lambda>d. Inr (filter (\<lambda>(i, v). needs_encryption v) (sel d))) s = (r, s')"
    by fastforce
  from assms have "list_all (\<lambda>up. \<forall>v. keeps_stmt P (up v)) (map (upd \<circ> fst) todo)" for todo :: "(int \<times> string) list"
    by (simp add: list_all_iff)
  from reencrypt_rows_ok [OF this] P q show "P (tables (snd (reencryptColumn sel upd nonces s)))"
    by (cases r) (auto simp: reencryptColumn_def query_tables)
qed

lemma reencrypt_telegram_keeps [methods_ok]:
  assumes st: "\<And>v. keeps_stmt P (upd_telegram_token v)"
  shows "keeps P (reencrypt_telegram nonce)"
  unfolding keeps_def
proof (intro allI impI)
  fix s :: store assume P: "P (tables s)"
  obtain r s' where q: "query (\<lambda>d. case map_of (settings d) ''telegram_token'' of None \<Rightarrow> Inl NoRows | Some v \<Rightarrow> Inr v) s = (r, s')"
    by fastforce
  with P have "P (tables s')" by (simp add: query_tables)
  with exec_keeps [OF st] q show "P (tables (snd (reencrypt_telegram nonce s)))"
    by (auto simp: reencrypt_telegram_def keeps_def split: sum.splits sql_err.splits)
qed

lemma encryptExisting_keeps [methods_ok]:
  assumes "\<And>i v. keeps_stmt P (upd_private_key i v)" and "\<And>i v. keeps_stmt P (upd_totp_secret i v)"
    and "\<And>v. keeps_stmt P (upd_telegram_token v)"
  shows "keeps P (encryptExisting n1 n2 n3)"
proof -
  from assms have "keeps P (sql_bind (reencryptColumn sel_private_keys upd_private_key n1) (\<lambda>_.
      sql_bind (reencryptColumn sel_totp_secrets upd_totp_secret n2) (\<lambda>_. reencrypt_telegram n3)))"
    by (intro methods_ok)
  then show ?thesis by (simp add: keeps_def encryptExisting_def)
qed

end
