(* ===== verification/Ledger.thy ===== *)
theory Ledger
  imports StoreOps
begin

section \<open>Usage accounting in the database\<close>

text \<open>
  A user's \<^verbatim>\<open>data_used\<close> against the sum of the user's rows in \<^verbatim>\<open>node_traffic\<close>. The two are equal as
  long as no node is deleted; deleting a node drops rows but no usage, so in general the
  breakdown never exceeds the aggregate. Both are one argument, made in the locale
  \<open>ledger_rel\<close> for a relation that holds of zero and survives adding the same amount.
\<close>

definition traffic_of :: "int \<Rightarrow> db \<Rightarrow> int" where
  "traffic_of i d = sum_list (map (\<lambda>r. tr_up r + tr_down r) (filter (\<lambda>r. tr_user r = i) (node_traffic d)))"

definition ledger :: "(int \<Rightarrow> int \<Rightarrow> bool) \<Rightarrow> db \<Rightarrow> bool" where
  "ledger R d \<longleftrightarrow> distinct (map traffic_key (node_traffic d)) \<and>
     (\<forall>r \<in> set (node_traffic d). 0 \<le> tr_up r \<and> 0 \<le> tr_down r \<and> tr_user r \<le> seq_users d) \<and>
     (\<forall>u \<in> set (users d). R (traffic_of (ur_id u) d) (ur_data_used u))"

text \<open>Calls whose charge is a report of non-negative byte counts for an existing (or former) user.\<close>

fun charge_ok :: "store_op \<Rightarrow> store \<Rightarrow> bool" where
  "charge_ok (OAddTraffic now u n up dn) s =
     (0 \<le> up \<and> 0 \<le> dn \<and> up + dn < 2 ^ 63 \<and> u \<le> seq_users (tables s))"
| "charge_ok _ s = True"

fun charges_ok :: "store_op list \<Rightarrow> store \<Rightarrow> bool" where
  "charges_ok [] s = True"
| "charges_ok (x # ops) s = (charge_ok x s \<and> charges_ok ops (store_step x s))"

subsection \<open>What most statements leave alone\<close>

definition usage_view :: "db \<Rightarrow> (int \<times> int) list \<times> traffic_row list \<times> int" where
  "usage_view d = (map (\<lambda>u. (ur_id u, ur_data_used u)) (users d), node_traffic d, seq_users d)"

lemma ledger_view: "usage_view d = usage_view d' \<Longrightarrow> ledger R d \<Longrightarrow> ledger R d'"
proof -
  assume v: "usage_view d = usage_view d'" and l: "ledger R d"
  then have t: "traffic_of i d' = traffic_of i d" for i by (simp add: usage_view_def traffic_of_def)
  have "set (map (\<lambda>u. (ur_id u, ur_data_used u)) (users d')) = set (map (\<lambda>u. (ur_id u, ur_data_used u)) (users d))"
    using v by (simp add: usage_view_def)
  then have "\<exists>u' \<in> set (users d). ur_id u' = ur_id u \<and> ur_data_used u' = ur_data_used u"
    if "u \<in> set (users d')" for u
    using that by (auto simp: image_iff set_eq_iff) metis
  with l v show ?thesis by (force simp: ledger_def t usage_view_def)
qed

definition views_same :: "(db \<Rightarrow> sql_err + db) \<Rightarrow> bool" where
  "views_same st \<longleftrightarrow> (\<forall>d d'. st d = Inr d' \<longrightarrow> usage_view d' = usage_view d)"

named_theorems views \<open>statements that touch no usage\<close>

lemma views_sameI: "(\<And>d d'. st d = Inr d' \<Longrightarrow> usage_view d' = usage_view d) \<Longrightarrow> views_same st"
  by (simp add: views_same_def)

lemma view_keeps: "views_same st \<Longrightarrow> keeps_stmt (ledger R) st"
  by (auto simp: views_same_def keeps_stmt_def intro: ledger_view)

definition keeps_usage :: "(user_row \<Rightarrow> user_row) \<Rightarrow> bool" where
  "keeps_usage f \<longleftrightarrow> (\<forall>u. ur_id (f u) = ur_id u \<and> ur_data_used (f u) = ur_data_used u)"

lemma upd_user_view [views]: "keeps_usage f \<Longrightarrow> views_same (upd_user i f)"
  by (auto simp: views_same_def upd_user_def usage_view_def keeps_usage_def map_upd_where)

lemma other_views [views]:
  "views_same Inr" "views_same (upd_node i nf)" "views_same (upd_admin name af)"
  "views_same (\<lambda>d. Inr (d\<lparr>nodes := g1 d\<rparr>))" "views_same (\<lambda>d. Inr (d\<lparr>admins := g2 d\<rparr>))"
  "views_same (\<lambda>d. Inr (d\<lparr>user_nodes := g3 d\<rparr>))" "views_same (\<lambda>d. Inr (d\<lparr>user_devices := g4 d\<rparr>))"
  "views_same (\<lambda>d. Inr (d\<lparr>traffic_daily := g5 d\<rparr>))" "views_same (\<lambda>d. Inr (d\<lparr>node_traffic_daily := g6 d\<rparr>))"
  "views_same (put_setting k v)" "views_same (upd_telegram_token v)" "views_same (upd_private_key i v)"
  "views_same (upd_totp_secret i v)" "views_same (insert_admin k v)" "views_same (insert_audit now k v w)"
  "views_same (put_device i n k v c seen)" "views_same (insert_or_ignore i n)"
  by (auto intro!: views_sameI simp: usage_view_def upd_node_def upd_admin_def put_setting_def
      upd_telegram_token_def upd_private_key_def upd_totp_secret_def insert_admin_def insert_audit_def
      put_device_def insert_or_ignore_def split: if_splits)

lemma upd_sub_token_view [views]: "views_same (upd_sub_token i t)"
  using upd_user_view [of "\<lambda>u. u\<lparr>ur_sub_token := t\<rparr>" i]
  by (auto simp: views_same_def upd_sub_token_def keeps_usage_def split: if_splits)

subsection \<open>Charging, resetting, deleting\<close>

definition charge_row :: "int \<Rightarrow> int \<Rightarrow> int \<Rightarrow> int \<Rightarrow> int \<Rightarrow> traffic_row list \<Rightarrow> traffic_row list" where
  "charge_row now i n up dn =
     upsert traffic_key \<lparr>tr_user = i, tr_node = n, tr_up = up, tr_down = dn, tr_updated_at = now\<rparr>
       (\<lambda>r. r\<lparr>tr_up := tr_up r + up, tr_down := tr_down r + dn, tr_updated_at := now\<rparr>)"

lemma charge_row_sum:
  assumes "distinct (map traffic_key rs)"
  shows "sum_list (map (\<lambda>r. tr_up r + tr_down r) (filter (\<lambda>r. tr_user r = j) (charge_row now i n up dn rs))) =
    sum_list (map (\<lambda>r. tr_up r + tr_down r) (filter (\<lambda>r. tr_user r = j) rs)) + (if j = i then up + dn else 0)"
  using assms
proof (induction rs)
  case Nil
  then show ?case by (simp add: charge_row_def upsert_def)
next
  case (Cons r rs)
  show ?case
  proof (cases "traffic_key r = (i, n)")
    case True
    with Cons.prems have "(i, n) \<notin> traffic_key ` set rs" by auto
    then have "upd_where (\<lambda>r. traffic_key r = (i, n)) f rs = rs" for f
      by (intro upd_where_none) (metis image_eqI)
    with True show ?thesis
      by (auto simp: charge_row_def upsert_def traffic_key_def)
  next
    case False
    with Cons show ?thesis
      by (auto simp: charge_row_def upsert_def traffic_key_def split: if_splits)
  qed
qed

lemma charge_row_members:
  "r \<in> set (charge_row now i n up dn rs) \<Longrightarrow> 0 \<le> up \<Longrightarrow> 0 \<le> dn \<Longrightarrow> i \<le> k \<Longrightarrow>
   (\<forall>r \<in> set rs. 0 \<le> tr_up r \<and> 0 \<le> tr_down r \<and> tr_user r \<le> k) \<Longrightarrow>
   0 \<le> tr_up r \<and> 0 \<le> tr_down r \<and> tr_user r \<le> k"
  by (auto simp: charge_row_def upsert_def set_upd_where split: if_splits)

lemma AddTraffic_effect:
  assumes "AddTraffic now i n up dn s = (r, s')" and "r = Inr u"
  shows "users (tables s') = upd_where (\<lambda>u. ur_id u = i)
      (\<lambda>u. u\<lparr>ur_data_used := ur_data_used u + wrap64 (up + dn)\<rparr>) (users (tables s))"
    and "node_traffic (tables s') = charge_row now i n up dn (node_traffic (tables s))"
    and "seq_users (tables s') = seq_users (tables s)"
proof -
  have "Inr (tables s') = seq_stmts [add_used i (wrap64 (up + dn)), add_node_traffic now i n up dn,
      \<lambda>d. Inr (d\<lparr>traffic_daily := add_daily i (utc_day now) up dn (traffic_daily d)\<rparr>),
      \<lambda>d. Inr (d\<lparr>node_traffic_daily := add_daily n (utc_day now) up dn (node_traffic_daily d)\<rparr>)] (tables s)"
    using tx_tables [OF assms(1)[unfolded AddTraffic_def Let_def]] assms(2) by simp
  then show "users (tables s') = upd_where (\<lambda>u. ur_id u = i)
      (\<lambda>u. u\<lparr>ur_data_used := ur_data_used u + wrap64 (up + dn)\<rparr>) (users (tables s))"
    and "node_traffic (tables s') = charge_row now i n up dn (node_traffic (tables s))"
    and "seq_users (tables s') = seq_users (tables s)"
    by (simp_all add: add_used_def upd_user_def add_node_traffic_def charge_row_def)
qed

lemma filter_other:
  "j \<noteq> i \<Longrightarrow> filter (\<lambda>r. tr_user r \<noteq> i \<and> tr_user r = j) rs = filter (\<lambda>r. tr_user r = j) rs"
  by (rule filter_cong) auto

locale ledger_rel =
  fixes R :: "int \<Rightarrow> int \<Rightarrow> bool"
  assumes R_zero: "R 0 0" and R_add: "R a b \<Longrightarrow> R (a + k) (b + k)"
begin

lemma charge_keeps:
  assumes l: "ledger R (tables s)" and ok: "charge_ok (OAddTraffic now i n up dn) s"
  shows "ledger R (tables (snd (AddTraffic now i n up dn s)))"
proof (cases "AddTraffic now i n up dn s")
  case (Pair r s')
  show ?thesis
  proof (cases r)
    case (Inl e)
    with Pair l show ?thesis
      using tx_tables [OF Pair[unfolded AddTraffic_def Let_def]] by simp
  next
    case (Inr u)
    note eff = AddTraffic_effect [OF Pair Inr]
    from ok have w: "wrap64 (up + dn) = up + dn" by (simp add: wrap64_nonneg)
    from l have dist: "distinct (map traffic_key (node_traffic (tables s)))" by (simp add: ledger_def)
    have t: "traffic_of j (tables s') = traffic_of j (tables s) + (if j = i then up + dn else 0)" for j
      by (simp add: traffic_of_def eff charge_row_sum [OF dist])
    have "R (traffic_of (ur_id v) (tables s')) (ur_data_used v)" if "v \<in> set (users (tables s'))" for v
      using that l R_add by (auto simp: eff set_upd_where t w ledger_def)
    moreover have "distinct (map traffic_key (node_traffic (tables s')))"
      by (simp add: eff charge_row_def traffic_upsert.distinct_upsert dist)
    ultimately show ?thesis
      using l ok charge_row_members [of _ now i n up dn "node_traffic (tables s)" "seq_users (tables s)"]
      by (simp add: ledger_def eff Pair)
  qed
qed

lemma reset_keeps: "keeps (ledger R) (ResetUserTraffic i)"
  unfolding ResetUserTraffic_def
  by (intro tx_keeps_seq keeps_stmtI)
    (auto simp: upd_user_def ledger_def traffic_of_def set_upd_where R_zero filter_other
      del_where_def filter_False intro: distinct_map_filter)

lemma delete_user_keeps: "keeps (ledger R) (DeleteUser i)"
  unfolding DeleteUser_def
  by (intro tx_keeps_seq keeps_stmtI)
    (auto simp: ledger_def traffic_of_def filter_other del_where_def intro: distinct_map_filter)

lemma create_user_keeps: "keeps (ledger R) (CreateUser now u)"
  unfolding CreateUser_def
proof (rule exec_res_keeps)
  fix d a d' assume l: "ledger R d" and st: "insert_user now u d = Inr (a, d')"
  then have "\<forall>r \<in> set (node_traffic d). tr_user r \<noteq> seq_users d + 1" by (fastforce simp: ledger_def)
  then have "traffic_of (seq_users d + 1) d = 0"
    by (simp add: traffic_of_def filter_False)
  moreover have "traffic_of i d' = traffic_of i d" for i
    using st by (auto simp: insert_user_def traffic_of_def split: if_splits)
  ultimately show "ledger R d'"
    using l st R_zero by (force simp: insert_user_def ledger_def split: if_splits)
qed

end

interpretation ledger_eq: ledger_rel "(=)"
  by unfold_locales simp_all

interpretation ledger_le: ledger_rel "(\<le>)"
  by unfold_locales simp_all

subsection \<open>All the other calls\<close>

lemmas usage_frames = keeps_usage_def

lemma ledger_exec_ops:
  "keeps (ledger R) (SetNodeTrafficSeq i q)" "keeps (ledger R) (SetSetting k v)"
  "keeps (ledger R) (BumpAdminSessionEpoch u)" "keeps (ledger R) (BumpUserSessionEpoch i)"
  "keeps (ledger R) (CreateAdmin u h)" "keeps (ledger R) (DeleteAdmin u)"
  "keeps (ledger R) (SetAdminPassword u h)" "keeps (ledger R) (UpsertDevice i n ip inb c seen)"
  "keeps (ledger R) (AddAudit now a b e)" "keeps (ledger R) (SetNodeAgentVersion i v)"
  "keeps (ledger R) (TouchNode now i)" "keeps (ledger R) (UpdateUser usr)"
  "keeps (ledger R) (SetUserSubToken i v)" "keeps (ledger R) (SetUserUUID i v)"
  "keeps (ledger R) (SetUserLastReset i ts)" "keeps (ledger R) (SetUserPortalPassword i h m)"
  "keeps (ledger R) (ChangeUserPortalPassword i h)"
  unfolding SetNodeTrafficSeq_def SetSetting_def BumpAdminSessionEpoch_def BumpUserSessionEpoch_def
    CreateAdmin_def DeleteAdmin_def SetAdminPassword_def UpsertDevice_def AddAudit_def
    SetNodeAgentVersion_def TouchNode_def UpdateUser_def SetUserSubToken_def SetUserUUID_def
    SetUserLastReset_def SetUserPortalPassword_def ChangeUserPortalPassword_def
  by (rule exec_keeps, rule view_keeps, rule views; simp add: usage_frames)+

lemma ledger_crypt_ops:
  "ledger R (tables s) \<Longrightarrow> ledger R (tables (snd (SetSecretSetting nc k v s)))"
  "ledger R (tables s) \<Longrightarrow> ledger R (tables (snd (SetAdminTOTP nc u t e s)))"
  "ledger R (tables s) \<Longrightarrow> ledger R (tables (snd (UpdateNode nc n s)))"
  unfolding SetSecretSetting_def SetSetting_def SetAdminTOTP_def UpdateNode_def
  by (rule keeps_at, rule exec_keeps, rule view_keeps, rule views, assumption)+

lemma insert_node_keeps: "keeps (ledger R) (exec_res (insert_node c nc now n))"
proof (rule exec_res_keeps)
  fix d a d' assume l: "ledger R d" and st: "insert_node c nc now n d = Inr (a, d')"
  from st have "usage_view d = usage_view d'"
    by (auto simp: insert_node_def usage_view_def split: if_splits)
  from ledger_view [OF this l] show "ledger R d'" .
qed

lemma ledger_create_node: "ledger R (tables s) \<Longrightarrow> ledger R (tables (snd (CreateNode nc now n s)))"
  unfolding CreateNode_def by (rule keeps_at [OF insert_node_keeps])

lemma ledger_SetUserNodes: "keeps (ledger R) (SetUserNodes i ns)"
  unfolding SetUserNodes_def
  by (rule tx_keeps) (simp add: list_all_iff view_keeps views)

lemma ledger_PurgeDevices: "keeps (ledger R) (PurgeDevices c)"
  unfolding PurgeDevices_def
  by (rule exec_res_keeps, rule ledger_view) (auto simp: Let_def usage_view_def)

lemma ledger_EnsureAdmin: "ledger R (tables s) \<Longrightarrow> ledger R (tables (snd (EnsureAdmin u h s)))"
proof -
  assume P: "ledger R (tables s)"
  obtain r s' where q: "query (\<lambda>d. map_sum id ar_id (find_row (\<lambda>a. ar_username a = u) (admins d))) s = (r, s')"
    by fastforce
  with P have P': "ledger R (tables s')" by (simp add: query_tables)
  have "keeps (ledger R) (exec (insert_admin u h))" by (intro exec_keeps view_keeps views)
  from keeps_at [OF this P'] P' q show ?thesis
    by (auto simp: EnsureAdmin_def split: sum.splits sql_err.splits)
qed

lemma ledger_encryptExisting: "keeps (ledger R) (encryptExisting n1 n2 n3)"
  by (intro encryptExisting_keeps view_keeps views)

lemmas ledger_others = ledger_exec_ops ledger_SetUserNodes ledger_PurgeDevices ledger_encryptExisting

lemma ledger_delete_node: "keeps (ledger (\<le>)) (DeleteNode i)"
  unfolding DeleteNode_def
proof (intro tx_keeps_seq keeps_stmtI)
  fix d d'
  assume l: "ledger (\<le>) d" and st: "seq_stmts
     [\<lambda>d. Inr (d\<lparr>user_nodes := del_where (\<lambda>r. snd r = i) (user_nodes d)\<rparr>),
      \<lambda>d. Inr (d\<lparr>node_traffic := del_where (\<lambda>r. tr_node r = i) (node_traffic d)\<rparr>),
      \<lambda>d. Inr (d\<lparr>node_traffic_daily := del_where (\<lambda>r. dy_owner r = i) (node_traffic_daily d)\<rparr>),
      \<lambda>d. Inr (d\<lparr>user_devices := del_where (\<lambda>r. dv_node r = i) (user_devices d)\<rparr>),
      \<lambda>d. Inr (d\<lparr>nodes := del_where (\<lambda>r. nr_id r = i) (nodes d)\<rparr>)] d = Inr d'"
  have "traffic_of j d' \<le> traffic_of j d" for j
  proof -
    let ?f = "\<lambda>r. tr_up r + tr_down r" and ?rs = "filter (\<lambda>r. tr_user r = j) (node_traffic d)"
    have "node_traffic d' = filter (\<lambda>r. tr_node r \<noteq> i) (node_traffic d)"
      using st by (auto simp: del_where_def)
    then have "traffic_of j d' = sum_list (map ?f (filter (\<lambda>r. tr_node r \<noteq> i) ?rs))"
      by (simp add: traffic_of_def conj_commute)
    also have "\<dots> \<le> sum_list (map ?f ?rs)"
      using l by (intro sum_list_filter_le) (auto simp: ledger_def)
    finally show ?thesis by (simp add: traffic_of_def)
  qed
  with l st show "ledger (\<le>) d'"
    by (fastforce simp: ledger_def distinct_del_where intro: order_trans)
qed

lemma ledger_step:
  assumes R: "ledger_rel R" and l: "ledger R (tables s)" and ok: "charge_ok x s"
    and del: "(\<forall>i. x \<noteq> ODeleteNode i) \<or> R = (\<le>)"
  shows "ledger R (tables (store_step x s))"
proof (cases x)
  case (OAddTraffic now u n up dn)
  with R l ok show ?thesis using ledger_rel.charge_keeps by auto
next
  case (OResetUserTraffic i)
  with R l show ?thesis using ledger_rel.reset_keeps keeps_at by fastforce
next
  case (ODeleteUser i)
  with R l show ?thesis using ledger_rel.delete_user_keeps keeps_at by fastforce
next
  case (OCreateUser now u)
  with R l show ?thesis using ledger_rel.create_user_keeps keeps_at by fastforce
next
  case (ODeleteNode i)
  with l del show ?thesis using ledger_delete_node keeps_at by fastforce
qed (use l in \<open>simp_all add: ledger_others [THEN keeps_at] ledger_crypt_ops ledger_create_node ledger_EnsureAdmin\<close>)

lemma ledger_run:
  assumes "ledger_rel R" and "ledger R (tables s)" and "charges_ok ops s"
    and "(\<forall>i. ODeleteNode i \<notin> set ops) \<or> R = (\<le>)"
  shows "ledger R (tables (store_run ops s))"
  using assms
proof (induction ops arbitrary: s)
  case Nil
  then show ?case by simp
next
  case (Cons x ops)
  then have "ledger R (tables (store_step x s))" by (intro ledger_step) auto
  with Cons show ?case by auto
qed

subsection \<open>The two accounting properties\<close>

text \<open>
  Whatever calls the panel makes in whatever order, with engine failures anywhere, the per-node
  traffic breakdown of a user never adds up to more than the usage the quota is checked against,
  and breakdown rows stay non-negative, as long as every charge is a non-negative report.
\<close>
theorem breakdown_bounded:
  assumes "ledger (\<le>) (tables s)" and "charges_ok ops s"
  shows "ledger (\<le>) (tables (store_run ops s))"
  using assms by (intro ledger_run ledger_le.ledger_rel_axioms) auto

text \<open>
  C6. As long as no node is deleted the breakdown is exact: for every user, the bytes recorded
  against the nodes add up to the usage the quota is checked against, also across monthly resets
  and user deletions.
\<close>
theorem breakdown_exact:
  assumes "ledger (=) (tables s)" and "charges_ok ops s" and "\<And>i. ODeleteNode i \<notin> set ops"
  shows "ledger (=) (tables (store_run ops s))"
  using assms by (intro ledger_run ledger_eq.ledger_rel_axioms) auto

definition sample_user :: user where
  "sample_user = \<lparr>ID = 0, Username = ''alice'', UUID = ''u-1'', SubToken = ''tok'', DataLimit = 100,
     DataUsed = 0, ExpireAt = 0, Enabled = True, CreatedAt = 0, NodeIDs = [], PortalPasswordHash = [],
     HasPortalPassword = False, ResetDay = 0, LastReset = 0, SessionEpoch = 0, MustChangePW = False,
     DeviceCount = 0, EtaDays = 0, Note = []\<rparr>"

definition new_store :: "crypter \<Rightarrow> store" where
  "new_store c = \<lparr>tables = empty_db, faults = [], crypt = c\<rparr>"

definition sample_charges :: "store_op list" where
  "sample_charges = [OCreateUser 0 sample_user, OAddTraffic 60 1 7 10 20, OAddTraffic 120 1 8 1 2]"

lemma sample_charges_ok: "charges_ok sample_charges (new_store None)"
  by code_simp

lemma empty_ledger: "R 0 0 \<Longrightarrow> ledger R (tables (new_store c))"
  by (simp add: ledger_def new_store_def empty_db_def)

theorem breakdown_bounded_witness: "ledger (\<le>) (tables (store_run sample_charges (new_store None)))"
  using breakdown_bounded [OF empty_ledger sample_charges_ok] by simp

theorem breakdown_exact_witness:
  "ledger (=) (tables (store_run sample_charges (new_store None))) \<and>
   traffic_of 1 (tables (store_run sample_charges (new_store None))) = 33"
proof
  show "ledger (=) (tables (store_run sample_charges (new_store None)))"
    using breakdown_exact [OF empty_ledger sample_charges_ok] by (simp add: sample_charges_def)
  show "traffic_of 1 (tables (store_run sample_charges (new_store None))) = 33" by code_simp
qed

end
