(* ===== verification/Json.thy ===== *)
theory Json
  imports Prelude "HOL-Library.Finite_Map"
begin

section \<open>Decoded JSON values\<close>

text \<open>
  What Go's \<^verbatim>\<open>any\<close> holds after \<^verbatim>\<open>json.Unmarshal\<close>, and what \<^verbatim>\<open>json.Marshal\<close> is given. An object
  is a finite map: marshalling sorts the keys, so two values have the same text exactly when they
  are equal, and a message that carries JSON text carries the value. Numbers are integers; no
  configuration of the program has another kind. \<open>JFloat\<close> is only written, by the API responses that
  report a rate.
\<close>

datatype json =
    JNull
  | JBool bool
  | JNum int
  | JFloat rat
  | JStr string
  | JArr "json list"
  | JObj "(string, json) fmap"

declare fmap_of_list_simps [simp del]

abbreviation jobj :: "(string \<times> json) list \<Rightarrow> json" where
  "jobj kvs \<equiv> JObj (fmap_of_list kvs)"

definition jstrs :: "string list \<Rightarrow> json" where
  "jstrs xs = JArr (map JStr xs)"

text \<open>The type assertions \<^verbatim>\<open>v.(map[string]any)\<close>, \<^verbatim>\<open>v.([]any)\<close> and \<^verbatim>\<open>v.(string)\<close>.\<close>

fun as_obj :: "json \<Rightarrow> (string, json) fmap option" where
  "as_obj (JObj m) = Some m"
| "as_obj _ = None"

fun as_arr :: "json \<Rightarrow> json list option" where
  "as_arr (JArr xs) = Some xs"
| "as_arr _ = None"

fun as_str :: "json \<Rightarrow> string option" where
  "as_str (JStr s) = Some s"
| "as_str _ = None"

text \<open>\<^verbatim>\<open>m[k]\<close> on a Go map: nil where the key is absent.\<close>

definition jget :: "string \<Rightarrow> (string, json) fmap \<Rightarrow> json" where
  "jget k m = (case fmlookup m k of None \<Rightarrow> JNull | Some v \<Rightarrow> v)"

text \<open>\<^verbatim>\<open>s, _ := m[k].(string)\<close>.\<close>

definition jstr :: "string \<Rightarrow> (string, json) fmap \<Rightarrow> string" where
  "jstr k m = (case as_str (jget k m) of None \<Rightarrow> [] | Some s \<Rightarrow> s)"

lemma as_obj_Some [simp]: "as_obj j = Some m \<longleftrightarrow> j = JObj m"
  by (cases j) auto

lemma as_arr_Some [simp]: "as_arr j = Some xs \<longleftrightarrow> j = JArr xs"
  by (cases j) auto

lemma as_str_Some [simp]: "as_str j = Some s \<longleftrightarrow> j = JStr s"
  by (cases j) auto

lemma jget_of_list [simp]: "jget k (fmap_of_list kvs) = (case map_of kvs k of None \<Rightarrow> JNull | Some v \<Rightarrow> v)"
  by (simp add: jget_def fmlookup_of_list)

lemma jstr_of_list [simp]: "jstr k (fmap_of_list kvs) =
    (case map_of kvs k of None \<Rightarrow> [] | Some v \<Rightarrow> (case as_str v of None \<Rightarrow> [] | Some s \<Rightarrow> s))"
  by (simp add: jstr_def split: option.splits)

lemma jget_upd_same [simp]: "jget k (fmupd k v m) = v"
  by (simp add: jget_def)

lemma jget_upd_other [simp]: "k \<noteq> l \<Longrightarrow> jget k (fmupd l v m) = jget k m"
  by (simp add: jget_def)

lemma jstr_upd_other [simp]: "k \<noteq> l \<Longrightarrow> jstr k (fmupd l v m) = jstr k m"
  by (simp add: jstr_def)

lemma fmupd_of_list: "fmupd k v (fmap_of_list kvs) = fmap_of_list (AList.update k v kvs)"
  by (rule fmap_ext) (simp add: fmlookup_of_list update_conv')

lemma fmupd_fmupd [simp]: "fmupd k v (fmupd k w m) = fmupd k v m"
  by (rule fmap_ext) simp

end
