(* ===== verification/Nodeconf.thy ===== *)
theory Nodeconf
  imports Json
begin

section \<open>The engine configuration (internal/nodeconf)\<close>

text \<open>
  \<open>Build\<close> renders the Xray configuration of a node, for the panel (which pushes it) and for an
  agent without a panel. Field by field as the Go literal has it.
\<close>

record client =
  cl_UUID :: string
  cl_Email :: string

record node_params =
  np_RealityDest :: string
  np_RealityServerName :: string
  np_RealityPrivateKey :: string
  np_RealityShortID :: string
  np_TLSDomain :: string

definition client_json :: "client \<Rightarrow> json" where
  "client_json c = jobj [(''id'', JStr (cl_UUID c)), (''email'', JStr (cl_Email c)),
     (''flow'', JStr ''xtls-rprx-vision''), (''level'', JNum 0)]"

definition sniffing :: json where
  "sniffing = jobj [(''enabled'', JBool True), (''destOverride'', jstrs [''http'', ''tls'', ''quic'']),
     (''routeOnly'', JBool True)]"

definition api_inbound :: json where
  "api_inbound = jobj
     [(''tag'', JStr ''api''), (''listen'', JStr ''0.0.0.0''), (''port'', JNum 10085),
      (''protocol'', JStr ''dokodemo-door''),
      (''settings'', jobj [(''address'', JStr ''127.0.0.1'')])]"

definition tls_inbound :: "json list \<Rightarrow> json" where
  "tls_inbound clist = jobj
     [(''tag'', JStr ''vless-xtls-vision''), (''listen'', JStr ''0.0.0.0''), (''port'', JNum 10444),
      (''protocol'', JStr ''vless''),
      (''settings'', jobj [(''clients'', JArr clist), (''decryption'', JStr ''none''),
         (''fallbacks'', JArr [jobj [(''dest'', JStr ''nginx:8080''), (''xver'', JNum 0)]])]),
      (''streamSettings'', jobj [(''network'', JStr ''tcp''), (''security'', JStr ''tls''),
         (''sockopt'', jobj [(''acceptProxyProtocol'', JBool True)]),
         (''tlsSettings'', jobj [(''rejectUnknownSni'', JBool True), (''minVersion'', JStr ''1.3''),
            (''alpn'', jstrs [''http/1.1'']),
            (''certificates'', JArr [jobj [(''ocspStapling'', JNum 3600),
               (''certificateFile'', JStr ''/etc/xray/certs/fullchain.pem''),
               (''keyFile'', JStr ''/etc/xray/certs/privkey.pem'')]])])]),
      (''sniffing'', sniffing)]"

definition reality_inbound :: "node_params \<Rightarrow> json list \<Rightarrow> json" where
  "reality_inbound p clist = jobj
     [(''tag'', JStr ''vless-reality-vision''), (''listen'', JStr ''0.0.0.0''), (''port'', JNum 10443),
      (''protocol'', JStr ''vless''),
      (''settings'', jobj [(''clients'', JArr clist), (''decryption'', JStr ''none'')]),
      (''streamSettings'', jobj [(''network'', JStr ''tcp''), (''security'', JStr ''reality''),
         (''sockopt'', jobj [(''acceptProxyProtocol'', JBool True)]),
         (''realitySettings'', jobj [(''show'', JBool False), (''dest'', JStr (np_RealityDest p)),
            (''xver'', JNum 0), (''serverNames'', jstrs [np_RealityServerName p]),
            (''privateKey'', JStr (np_RealityPrivateKey p)), (''shortIds'', jstrs [np_RealityShortID p])])]),
      (''sniffing'', sniffing)]"

definition inbounds_of :: "node_params \<Rightarrow> json list \<Rightarrow> json list" where
  "inbounds_of p clist =
     [api_inbound] @ (if np_TLSDomain p \<noteq> [] then [tls_inbound clist] else []) @ [reality_inbound p clist]"

definition config_frame :: "json list \<Rightarrow> json" where
  "config_frame ibs = jobj
     [(''log'', jobj [(''loglevel'', JStr ''warning''), (''access'', JStr ''/var/log/xray/access.log''),
         (''error'', JStr [])]),
      (''stats'', jobj []),
      (''api'', jobj [(''tag'', JStr ''api''), (''services'', jstrs [''StatsService'', ''HandlerService''])]),
      (''policy'', jobj [(''levels'', jobj [(''0'', jobj [(''statsUserUplink'', JBool True),
            (''statsUserDownlink'', JBool True)])]),
         (''system'', jobj [(''statsInboundUplink'', JBool True), (''statsInboundDownlink'', JBool True)])]),
      (''inbounds'', JArr ibs),
      (''outbounds'', JArr
        [jobj [(''tag'', JStr ''direct''), (''protocol'', JStr ''freedom''),
           (''settings'', jobj [(''domainStrategy'', JStr ''UseIPv4'')])],
         jobj [(''tag'', JStr ''block''), (''protocol'', JStr ''blackhole'')]]),
      (''routing'', jobj [(''domainStrategy'', JStr ''AsIs''), (''rules'', JArr
        [jobj [(''type'', JStr ''field''), (''inboundTag'', jstrs [''api'']), (''outboundTag'', JStr ''api'')],
         jobj [(''type'', JStr ''field''), (''ip'', jstrs [''geoip:private'']), (''outboundTag'', JStr ''block'')],
         jobj [(''type'', JStr ''field''), (''domain'', jstrs [''geosite:category-ads-all'']),
           (''outboundTag'', JStr ''block'')]])])]"

definition Build :: "node_params \<Rightarrow> client list \<Rightarrow> json" where
  "Build p clients = config_frame (inbounds_of p (map client_json clients))"

lemma config_frame_obj: "\<exists>m. config_frame ibs = JObj m \<and> jget ''inbounds'' m = JArr ibs \<and>
    (\<forall>ibs'. JObj (fmupd ''inbounds'' (JArr ibs') m) = config_frame ibs')"
  by (simp add: config_frame_def fmupd_of_list)

end
