(* ===== verification/Wire.thy ===== *)
theory Wire
  imports Prelude
begin

section \<open>The panel-agent protocol messages (internal/wire)\<close>

text \<open>
  The JSON frames of \<^verbatim>\<open>internal/wire/wire.go\<close>. An absent \<open>omitempty\<close> field is the zero
  value of its type, as Go decodes it. The configuration payload is a decoded JSON value and so
  a type parameter here; the health metrics are opaque to the panel and likewise a parameter.
\<close>

record traffic_item =
  ti_email :: string
  ti_up :: int
  ti_down :: int

record device_item =
  di_email :: string
  di_ip :: string
  di_inbound :: string
  di_conns :: int
  di_last_seen :: int

datatype msg_type = TypeRegister | TypeHeartbeat | TypeTraffic | TypeConfig | TypeAck | TypeDevices

record ('cfg, 'met) msg =
  m_type :: msg_type
  m_token :: string
  m_version :: string
  m_config :: "'cfg option"
  m_tls_domain :: string
  m_items :: "traffic_item list"
  m_seq :: int
  m_metrics :: "'met option"
  m_devices :: "device_item list"

definition zero_msg :: "msg_type \<Rightarrow> ('cfg, 'met) msg" where
  "zero_msg t = \<lparr>m_type = t, m_token = [], m_version = [], m_config = None, m_tls_domain = [],
     m_items = [], m_seq = 0, m_metrics = None, m_devices = []\<rparr>"

lemma zero_msg_simps [simp]:
  "m_type (zero_msg t) = t" "m_items (zero_msg t) = []" "m_seq (zero_msg t) = 0"
  "m_config (zero_msg t) = None" "m_devices (zero_msg t) = []" "m_metrics (zero_msg t) = None"
  by (simp_all add: zero_msg_def)

text \<open>The bytes one report attributes to an account.\<close>

definition item_bytes :: "traffic_item \<Rightarrow> int" where
  "item_bytes it = ti_up it + ti_down it"

definition items_bytes :: "string \<Rightarrow> traffic_item list \<Rightarrow> int" where
  "items_bytes e its = sum_list (map item_bytes (filter (\<lambda>it. ti_email it = e) its))"

definition items_nonneg :: "traffic_item list \<Rightarrow> bool" where
  "items_nonneg its \<longleftrightarrow> list_all (\<lambda>it. 0 \<le> ti_up it \<and> 0 \<le> ti_down it) its"

lemma items_bytes_Nil [simp]: "items_bytes e [] = 0"
  by (simp add: items_bytes_def)

lemma items_bytes_Cons [simp]:
  "items_bytes e (it # its) = (if ti_email it = e then item_bytes it else 0) + items_bytes e its"
  by (simp add: items_bytes_def)

lemma items_bytes_nonneg: "items_nonneg its \<Longrightarrow> 0 \<le> items_bytes e its"
  by (induction its) (auto simp: items_nonneg_def item_bytes_def)

lemma items_nonneg_Cons [simp]:
  "items_nonneg (it # its) \<longleftrightarrow> 0 \<le> ti_up it \<and> 0 \<le> ti_down it \<and> items_nonneg its"
  by (simp add: items_nonneg_def)

lemma items_nonneg_Nil [simp]: "items_nonneg []"
  by (simp add: items_nonneg_def)

lemma items_bytes_perm: "mset its = mset its' \<Longrightarrow> items_bytes e its = items_bytes e its'"
  unfolding items_bytes_def by (rule sum_list_mset_cong) (metis mset_filter)

lemma items_nonneg_perm: "mset its = mset its' \<Longrightarrow> items_nonneg its \<Longrightarrow> items_nonneg its'"
  unfolding items_nonneg_def list_all_iff by (metis set_mset_mset)

end
