(* ===== verification/Hub.thy ===== *)
theory Hub
  imports Store Nodeconf Wire
begin

section \<open>The panel's run-time state and the hub (internal/panel: app, hub, config, notify)\<close>

text \<open>
  \<open>app\<close> is the panel process: the store, the live node connections, and the caches beside them.
  Connections are Go pointers, compared by identity, so they live in a heap and the hub's map
  holds references. A connection's write queue is the buffered channel \<^verbatim>\<open>send\<close> of capacity 8; what
  the write loop has taken out is gone from it. Messages sent to Telegram are recorded in order.
  \<open>time.Now()\<close> is an argument, one instant per handler.
\<close>

subsection \<open>State\<close>

type_synonym wmsg = "(json, json) msg"

record conn =
  cn_node :: int
  cn_send :: "wmsg list"
  cn_closed :: bool

record throughput =
  th_Up :: rat
  th_Down :: rat

record app =
  a_store :: store
  a_heap :: "(nat \<times> conn) list"
  a_next :: nat
  a_conns :: "(int \<times> nat) list"
  a_activeCache :: "(int \<times> string) list"
  a_nodeMetrics :: "(int \<times> json) list"
  a_rateLast :: "(int \<times> int) list"
  a_nodeRate :: "(int \<times> throughput) list"
  a_userActive :: "(int \<times> bool) list"
  a_offlineNotified :: "(int \<times> bool) list"
  a_tgToken :: string
  a_tgAdmins :: "int list"
  a_offlineTimers :: "int list"
  a_sent :: "(int \<times> string) list"

text \<open>The process after it has started: no connection, empty caches.\<close>

definition boot_app :: "store \<Rightarrow> string \<Rightarrow> int list \<Rightarrow> app" where
  "boot_app s tok adms = \<lparr>a_store = s, a_heap = [], a_next = 0, a_conns = [], a_activeCache = [],
     a_nodeMetrics = [], a_rateLast = [], a_nodeRate = [], a_userActive = [], a_offlineNotified = [],
     a_tgToken = tok, a_tgAdmins = adms, a_offlineTimers = [], a_sent = []\<rparr>"

definition queue_cap :: nat where "queue_cap = 8"

text \<open>Running a store method inside the process.\<close>

definition on_store :: "'a sql \<Rightarrow> app \<Rightarrow> (sql_err + 'a) \<times> app" where
  "on_store m a = (let (r, s) = m (a_store a) in (r, a\<lparr>a_store := s\<rparr>))"

definition do_store :: "'a sql \<Rightarrow> app \<Rightarrow> app" where
  "do_store m a = snd (on_store m a)"

subsection \<open>Connections\<close>

definition trySend :: "nat \<Rightarrow> wmsg \<Rightarrow> app \<Rightarrow> bool \<times> app" where
  "trySend c m a =
     (case map_of (a_heap a) c of
        None \<Rightarrow> (False, a)
      | Some cn \<Rightarrow>
          if cn_closed cn \<or> queue_cap \<le> length (cn_send cn) then (False, a)
          else (True, a\<lparr>a_heap := AList.update c (cn\<lparr>cn_send := cn_send cn @ [m]\<rparr>) (a_heap a)\<rparr>))"

definition conn_close :: "nat \<Rightarrow> app \<Rightarrow> app" where
  "conn_close c a =
     (case map_of (a_heap a) c of
        None \<Rightarrow> a
      | Some cn \<Rightarrow> a\<lparr>a_heap := AList.update c (cn\<lparr>cn_closed := True\<rparr>) (a_heap a)\<rparr>)"

text \<open>One receive of the write loop: the oldest queued message, if any.\<close>

definition writeNext :: "nat \<Rightarrow> app \<Rightarrow> wmsg option \<times> app" where
  "writeNext c a =
     (case map_of (a_heap a) c of
        None \<Rightarrow> (None, a)
      | Some cn \<Rightarrow> (case cn_send cn of
            [] \<Rightarrow> (None, a)
          | m # ms \<Rightarrow> (Some m, a\<lparr>a_heap := AList.update c (cn\<lparr>cn_send := ms\<rparr>) (a_heap a)\<rparr>)))"

text \<open>\<open>&nodeConn{...}\<close>: a new reference.\<close>

definition new_conn :: "int \<Rightarrow> app \<Rightarrow> nat \<times> app" where
  "new_conn nodeID a =
     (a_next a, a\<lparr>a_heap := AList.update (a_next a) \<lparr>cn_node = nodeID, cn_send = [], cn_closed = False\<rparr> (a_heap a),
                  a_next := a_next a + 1\<rparr>)"

definition register :: "int \<Rightarrow> nat \<Rightarrow> app \<Rightarrow> app" where
  "register nodeID c a =
     (let a = (case map_of (a_conns a) nodeID of None \<Rightarrow> a | Some old \<Rightarrow> conn_close old a)
      in a\<lparr>a_conns := AList.update nodeID c (a_conns a)\<rparr>)"

definition scheduleOfflineNotice :: "int \<Rightarrow> app \<Rightarrow> app" where
  "scheduleOfflineNotice nodeID a = a\<lparr>a_offlineTimers := a_offlineTimers a @ [nodeID]\<rparr>"

definition unregister :: "int \<Rightarrow> nat \<Rightarrow> app \<Rightarrow> app" where
  "unregister nodeID c a =
     (let removed = (map_of (a_conns a) nodeID = Some c);
          a = (if removed then a\<lparr>a_conns := AList.delete nodeID (a_conns a)\<rparr> else a);
          a = conn_close c a
      in if removed then scheduleOfflineNotice nodeID a else a)"

definition OnlineNodeIDs :: "app \<Rightarrow> int list" where
  "OnlineNodeIDs a = map fst (a_conns a)"

subsection \<open>Notifications\<close>

definition notifyAdmins :: "string \<Rightarrow> app \<Rightarrow> app" where
  "notifyAdmins txt a =
     (if a_tgToken a = [] \<or> a_tgAdmins a = [] then a
      else a\<lparr>a_sent := a_sent a @ map (\<lambda>i. (i, txt)) (a_tgAdmins a)\<rparr>)"

definition notifyEnabled :: "app \<Rightarrow> bool" where
  "notifyEnabled a \<longleftrightarrow> a_tgToken a \<noteq> [] \<and> a_tgAdmins a \<noteq> []"

definition onlineText :: "string \<Rightarrow> string" where
  "onlineText name = [CHR 0xE2, CHR 0x9C, CHR 0x85] @ '' Node back online: '' @ name"

definition offlineText :: "node \<Rightarrow> string" where
  "offlineText n = [CHR 0xE2, CHR 0x9A, CHR 0xA0, CHR 0xEF, CHR 0xB8, CHR 0x8F] @ '' Node offline: '' @
     n_Name n @ '' ('' @ n_Address n @ '')''"

definition inactiveText :: "string \<Rightarrow> string \<Rightarrow> string" where
  "inactiveText name reason = [CHR 0xF0, CHR 0x9F, CHR 0x94, CHR 0x95] @ '' User inactive: '' @ name @ '' ('' @ reason @ '')''"

definition noticeOnline :: "int \<Rightarrow> string \<Rightarrow> app \<Rightarrow> app" where
  "noticeOnline nodeID name a =
     (let was = (map_of (a_offlineNotified a) nodeID = Some True);
          a = a\<lparr>a_offlineNotified := AList.delete nodeID (a_offlineNotified a)\<rparr>
      in if was then notifyAdmins (onlineText name) a else a)"

text \<open>The timer of \<open>scheduleOfflineNotice\<close> firing, 90 seconds later.\<close>

definition offlineTimerFires :: "int \<Rightarrow> int \<Rightarrow> app \<Rightarrow> app" where
  "offlineTimerFires now nodeID a =
     (if map_of (a_conns a) nodeID \<noteq> None then a
      else case on_store (GetNode now nodeID) a of
             (Inl e, a) \<Rightarrow> a
           | (Inr n, a) \<Rightarrow>
               notifyAdmins (offlineText n) (a\<lparr>a_offlineNotified := AList.update nodeID True (a_offlineNotified a)\<rparr>))"

definition inactive_reason :: "int \<Rightarrow> user \<Rightarrow> string" where
  "inactive_reason now u =
     (if \<not> Enabled u then ''disabled by admin''
      else if ExpireAt u > 0 \<and> now \<ge> ExpireAt u then ''expired''
      else if DataLimit u > 0 \<and> DataUsed u \<ge> DataLimit u then ''over quota''
      else ''disabled'')"

definition check_user :: "int \<Rightarrow> user \<Rightarrow> app \<Rightarrow> app" where
  "check_user now u a =
     (let act = active now u; prev = map_of (a_userActive a) (ID u);
          a = a\<lparr>a_userActive := AList.update (ID u) act (a_userActive a)\<rparr>
      in if prev = Some True \<and> \<not> act then notifyAdmins (inactiveText (Username u) (inactive_reason now u)) a else a)"

definition checkUserTransitions :: "int \<Rightarrow> app \<Rightarrow> app" where
  "checkUserTransitions now a =
     (case on_store ListUsers a of
        (Inl e, a) \<Rightarrow> a
      | (Inr us, a) \<Rightarrow> fold (check_user now) us a)"

subsection \<open>Health metrics and throughput\<close>

definition setNodeMetrics :: "int \<Rightarrow> json \<Rightarrow> app \<Rightarrow> app" where
  "setNodeMetrics nodeID m a = a\<lparr>a_nodeMetrics := AList.update nodeID m (a_nodeMetrics a)\<rparr>"

definition getNodeMetrics :: "int \<Rightarrow> app \<Rightarrow> json option" where
  "getNodeMetrics nodeID a = map_of (a_nodeMetrics a) nodeID"

text \<open>The smoothed rate, in exact arithmetic where the code has \<^verbatim>\<open>float64\<close>.\<close>

definition zero_or :: "int option \<Rightarrow> int" where
  "zero_or x = (case x of None \<Rightarrow> 0 | Some i \<Rightarrow> i)"

definition recordRate :: "int \<Rightarrow> int \<Rightarrow> int \<Rightarrow> int \<Rightarrow> app \<Rightarrow> app" where
  "recordRate now nodeID up down a =
     (let lst = zero_or (map_of (a_rateLast a) nodeID);
          a = a\<lparr>a_rateLast := AList.update nodeID now (a_rateLast a)\<rparr>
      in if lst = 0 \<or> now \<le> lst then a
         else let secs = of_int (now - lst);
                  inst = \<lparr>th_Up = of_int up / secs, th_Down = of_int down / secs\<rparr>;
                  inst = (case map_of (a_nodeRate a) nodeID of
                            None \<Rightarrow> inst
                          | Some prev \<Rightarrow> \<lparr>th_Up = th_Up prev / 2 + th_Up inst / 2,
                                          th_Down = th_Down prev / 2 + th_Down inst / 2\<rparr>)
              in a\<lparr>a_nodeRate := AList.update nodeID inst (a_nodeRate a)\<rparr>)"

definition rateStaleAfter :: int where "rateStaleAfter = 180"

definition getNodeRate :: "int \<Rightarrow> int \<Rightarrow> app \<Rightarrow> throughput" where
  "getNodeRate now nodeID a =
     (if now - zero_or (map_of (a_rateLast a) nodeID) > rateStaleAfter then \<lparr>th_Up = 0, th_Down = 0\<rparr>
      else case map_of (a_nodeRate a) nodeID of None \<Rightarrow> \<lparr>th_Up = 0, th_Down = 0\<rparr> | Some t \<Rightarrow> t)"

subsection \<open>Pushing configurations\<close>

definition node_params_of :: "node \<Rightarrow> node_params" where
  "node_params_of n = \<lparr>np_RealityDest = n_RealityDest n, np_RealityServerName = n_RealityServerName n,
     np_RealityPrivateKey = n_RealityPrivateKey n, np_RealityShortID = n_RealityShortID n,
     np_TLSDomain = n_TLSDomain n\<rparr>"

definition buildXrayConfig :: "int \<Rightarrow> node \<Rightarrow> user list \<Rightarrow> json" where
  "buildXrayConfig now n us =
     Build (node_params_of n)
       (map (\<lambda>u. \<lparr>cl_UUID = UUID u, cl_Email = Username u\<rparr>) (filter (active now) us))"

definition config_msg :: "json \<Rightarrow> string \<Rightarrow> wmsg" where
  "config_msg raw domain = (zero_msg TypeConfig)\<lparr>m_config := Some raw, m_tls_domain := domain\<rparr>"

definition PushConfig :: "int \<Rightarrow> int \<Rightarrow> app \<Rightarrow> bool \<times> app" where
  "PushConfig now nodeID a =
     (case map_of (a_conns a) nodeID of
        None \<Rightarrow> (False, a)
      | Some c \<Rightarrow>
          (case on_store (GetNode now nodeID) a of
             (Inl e, a) \<Rightarrow> (False, a)
           | (Inr n, a) \<Rightarrow>
               (case on_store (UsersForNode nodeID) a of
                  (Inl e, a) \<Rightarrow> (False, a)
                | (Inr us, a) \<Rightarrow> trySend c (config_msg (buildXrayConfig now n us) (n_TLSDomain n)) a)))"

definition PushAll :: "int \<Rightarrow> app \<Rightarrow> app" where
  "PushAll now a = fold (\<lambda>i a. snd (PushConfig now i a)) (OnlineNodeIDs a) a"

text \<open>
  \<open>checkWSOrigin\<close>: \<open>origin\<close> is the header (empty when absent), \<open>host_of\<close> is \<^verbatim>\<open>url.Parse\<close> followed by
  \<^verbatim>\<open>.Host\<close>, \<open>None\<close> on a parse error.
\<close>

definition checkWSOrigin :: "(string \<Rightarrow> string option) \<Rightarrow> string \<Rightarrow> string \<Rightarrow> bool" where
  "checkWSOrigin host_of origin rhost =
     (if origin = [] then True
      else case host_of origin of None \<Rightarrow> False | Some h \<Rightarrow> EqualFold h rhost)"

end
