(* ===== verification/Traffic.thy ===== *)
theory Traffic
  imports Hub
begin

section \<open>Reports, provisioning and resets (internal/panel/traffic.go, hub.go)\<close>

text \<open>
  The node sessions of the hub and what their messages do: traffic and device reports enter the
  store, and the node's effective user set is kept in step with what was last pushed to it.
  \<open>H\<close> is SHA-256 in hexadecimal.
\<close>

subsection \<open>The signature of a user set\<close>

definition user_line :: "user \<Rightarrow> string" where
  "user_line u = Username u @ '':'' @ UUID u"

text \<open>\<^verbatim>\<open>sort.Strings\<close> (bytewise) and \<^verbatim>\<open>fmt.Sprint\<close> of a string slice.\<close>

definition sort_strings :: "string list \<Rightarrow> string list" where
  "sort_strings = sort_key (map of_char :: string \<Rightarrow> nat list)"

definition sprint_strings :: "string list \<Rightarrow> string" where
  "sprint_strings ls = ''['' @ Join ls '' '' @ '']''"

definition activeSignature :: "(string \<Rightarrow> string) \<Rightarrow> int \<Rightarrow> user list \<Rightarrow> string" where
  "activeSignature H now us =
     H (sprint_strings (sort_strings (map user_line (filter (active now) us))))"

subsection \<open>Keeping a node in step\<close>

definition syncNode :: "(string \<Rightarrow> string) \<Rightarrow> int \<Rightarrow> int \<Rightarrow> app \<Rightarrow> app" where
  "syncNode H now nodeID a =
     (case on_store (UsersForNode nodeID) a of
        (Inl e, a) \<Rightarrow> a
      | (Inr us, a) \<Rightarrow>
          let sig = activeSignature H now us
          in if map_of (a_activeCache a) nodeID = Some sig then a
             else let (sent, a) = PushConfig now nodeID a
                  in if \<not> sent then a
                     else a\<lparr>a_activeCache := AList.update nodeID sig (a_activeCache a)\<rparr>)"

definition forceSyncNode :: "(string \<Rightarrow> string) \<Rightarrow> int \<Rightarrow> int \<Rightarrow> app \<Rightarrow> app" where
  "forceSyncNode H now nodeID a =
     (case on_store (UsersForNode nodeID) a of
        (Inl e, a) \<Rightarrow> a
      | (Inr us, a) \<Rightarrow>
          let sig = activeSignature H now us; (sent, a) = PushConfig now nodeID a
          in if \<not> sent then a\<lparr>a_activeCache := AList.delete nodeID (a_activeCache a)\<rparr>
             else a\<lparr>a_activeCache := AList.update nodeID sig (a_activeCache a)\<rparr>)"

text \<open>One tick of the enforcement loop. Go ranges over the map in any order: \<open>ids\<close> is one.\<close>

definition enforcementTick :: "(string \<Rightarrow> string) \<Rightarrow> int \<Rightarrow> int list \<Rightarrow> app \<Rightarrow> app" where
  "enforcementTick H now ids a = checkUserTransitions now (fold (syncNode H now) ids a)"

subsection \<open>Reports\<close>

definition allowed_users :: "user list \<Rightarrow> (string \<times> int) list" where
  "allowed_users us = fold (\<lambda>u. AList.update (Username u) (ID u)) us []"

text \<open>
  One turn of the loop over the items, with the running sums; a failed \<open>AddTraffic\<close> is logged and
  the loop goes on.
\<close>

definition ingest_item :: "int \<Rightarrow> int \<Rightarrow> (string \<times> int) list \<Rightarrow> traffic_item
    \<Rightarrow> int \<times> int \<times> app \<Rightarrow> int \<times> int \<times> app" where
  "ingest_item now nodeID allowed it st =
     (let (bup, bdown, a) = st
      in if ti_up it = 0 \<and> ti_down it = 0 then st
         else case map_of allowed (ti_email it) of
                None \<Rightarrow> st
              | Some uid \<Rightarrow>
                  (wrap64 (bup + ti_up it), wrap64 (bdown + ti_down it),
                   do_store (AddTraffic now uid nodeID (ti_up it) (ti_down it)) a))"

definition ingestTraffic :: "(string \<Rightarrow> string) \<Rightarrow> int \<Rightarrow> int \<Rightarrow> int \<Rightarrow> traffic_item list \<Rightarrow> app \<Rightarrow> app" where
  "ingestTraffic H now nodeID seqno items a =
     (case on_store (NodeTrafficSeq nodeID) a of
        (Inl e, a) \<Rightarrow> a
      | (Inr lst, a) \<Rightarrow>
          if seqno \<noteq> 0 \<and> seqno = lst then a
          else case on_store (UsersForNode nodeID) a of
                 (Inl e, a) \<Rightarrow> a
               | (Inr us, a) \<Rightarrow>
                   let (bup, bdown, a) = fold (ingest_item now nodeID (allowed_users us)) items (0, 0, a);
                       a = recordRate now nodeID bup bdown a;
                       a = (if seqno \<noteq> 0 then do_store (SetNodeTrafficSeq nodeID seqno) a else a)
                   in syncNode H now nodeID a)"

definition ingest_device :: "int \<Rightarrow> int \<Rightarrow> (string \<times> int) list \<Rightarrow> device_item \<Rightarrow> app \<Rightarrow> app" where
  "ingest_device now nodeID allowed it a =
     (case map_of allowed (di_email it) of
        None \<Rightarrow> a
      | Some uid \<Rightarrow>
          if di_ip it = [] then a
          else let seen = (if di_last_seen it = 0 then now else di_last_seen it)
               in do_store (UpsertDevice uid nodeID (di_ip it) (di_inbound it) (di_conns it) seen) a)"

definition ingestDevices :: "int \<Rightarrow> int \<Rightarrow> device_item list \<Rightarrow> app \<Rightarrow> app" where
  "ingestDevices now nodeID items a =
     (case on_store (UsersForNode nodeID) a of
        (Inl e, a) \<Rightarrow> a
      | (Inr us, a) \<Rightarrow> fold (ingest_device now nodeID (allowed_users us)) items a)"

definition deviceRetention :: int where "deviceRetention = 30 * 24 * 3600"

definition purgeDevicesNow :: "int \<Rightarrow> app \<Rightarrow> app" where
  "purgeDevicesNow now = do_store (PurgeDevices (now - deviceRetention))"

subsection \<open>Monthly resets\<close>

definition days_in_month :: "int \<Rightarrow> int \<Rightarrow> int" where
  "days_in_month y m = (let (_, _, d) = civil_of_days (days_of_civil y (m + 1) 1 - 1) in d)"

definition monthlyResetDue :: "int \<Rightarrow> int \<Rightarrow> int \<Rightarrow> int option" where
  "monthlyResetDue now resetDay lastReset =
     (if resetDay < 1 then None
      else let (y, m, _) = civil_of_days (now div 86400);
               day = (if resetDay > days_in_month y m then days_in_month y m else resetDay);
               resetInstant = days_of_civil y m day * 86400
           in if now < resetInstant \<or> lastReset \<ge> resetInstant then None else Some resetInstant)"

definition reset_user :: "(string \<Rightarrow> string) \<Rightarrow> int \<Rightarrow> user \<Rightarrow> app \<Rightarrow> app" where
  "reset_user H now u a =
     (if monthlyResetDue now (ResetDay u) (LastReset u) = None then a
      else case on_store (ResetUserTraffic (ID u)) a of
             (Inl e, a) \<Rightarrow> a
           | (Inr _, a) \<Rightarrow>
               fold (syncNode H now) (NodeIDs u) (do_store (SetUserLastReset (ID u) now) a))"

definition autoResetCheck :: "(string \<Rightarrow> string) \<Rightarrow> int \<Rightarrow> app \<Rightarrow> app" where
  "autoResetCheck H now a =
     (case on_store ListUsers a of
        (Inl e, a) \<Rightarrow> a
      | (Inr us, a) \<Rightarrow> fold (reset_user H now) us a)"

subsection \<open>Node sessions\<close>

text \<open>
  \<open>handleWS\<close> up to its read loop: the registration message opens a connection or is refused. The
  result is the connection and its node.
\<close>

definition handleWS :: "(string \<Rightarrow> string) \<Rightarrow> int \<Rightarrow> wmsg \<Rightarrow> app \<Rightarrow> (int \<times> nat) option \<times> app" where
  "handleWS H now reg a =
     (if m_type reg \<noteq> TypeRegister then (None, a)
      else case on_store (GetNodeByToken now (m_token reg)) a of
             (Inl e, a) \<Rightarrow> (None, a)
           | (Inr n, a) \<Rightarrow>
               let (c, a) = new_conn (n_ID n) a;
                   a = register (n_ID n) c a;
                   a = do_store (TouchNode now (n_ID n)) a;
                   a = do_store (SetNodeAgentVersion (n_ID n) (m_version reg)) a;
                   a = noticeOnline (n_ID n) (n_Name n) a;
                   a = forceSyncNode H now (n_ID n) a
               in (Some (n_ID n, c), a))"

text \<open>One message of the read loop.\<close>

definition readMsg :: "(string \<Rightarrow> string) \<Rightarrow> int \<Rightarrow> int \<Rightarrow> nat \<Rightarrow> wmsg \<Rightarrow> app \<Rightarrow> app" where
  "readMsg H now nodeID c m a =
     (case m_type m of
        TypeHeartbeat \<Rightarrow>
          let a = do_store (TouchNode now nodeID) a
          in (case m_metrics m of None \<Rightarrow> a | Some x \<Rightarrow> setNodeMetrics nodeID x a)
      | TypeTraffic \<Rightarrow>
          let a = ingestTraffic H now nodeID (m_seq m) (m_items m) a
          in snd (trySend c ((zero_msg TypeAck)\<lparr>m_seq := m_seq m\<rparr>) a)
      | TypeDevices \<Rightarrow> ingestDevices now nodeID (m_devices m) a
      | _ \<Rightarrow> a)"

end
