(* ===== verification/Quiet.thy ===== *)
theory Quiet
  imports Traffic StoreInv
begin

section \<open>Which handlers leave the database and the acknowledgements alone\<close>

text \<open>
  A store method that only reads returns the store it was given when the engine does not fail; the
  handlers that only read and push configurations are then \<open>quiet\<close>: same store, same
  acknowledgements waiting in every write queue.
\<close>

definition reads :: "'a sql \<Rightarrow> bool" where
  "reads m \<longleftrightarrow> (\<forall>s. no_faults s \<longrightarrow> snd (m s) = s)"

named_theorems reading \<open>store methods that only read\<close>

lemma readsI: "(\<And>s. no_faults s \<Longrightarrow> snd (m s) = s) \<Longrightarrow> reads m"
  by (simp add: reads_def)

lemma query_reads [reading]: "reads (query q)"
  by (rule readsI) (simp add: query_nofault)

lemma return_reads [reading]: "reads (sql_return x)"
  by (rule readsI) (simp add: sql_return_def)

lemma bind_reads [reading]: "reads m \<Longrightarrow> (\<And>x. reads (f x)) \<Longrightarrow> reads (sql_bind m f)"
  by (rule readsI) (auto simp: sql_bind_def reads_def split: prod.splits sum.splits)

lemma mapM_reads [reading]: "(\<And>x. reads (f x)) \<Longrightarrow> reads (sql_mapM f xs)"
  by (induction xs) (simp_all add: return_reads bind_reads)

lemma method_reads [reading]:
  "reads (GetNode now i)" "reads (GetNodeByToken now t)" "reads (UsersForNode i)" "reads ListUsers"
  "reads (NodeTrafficSeq i)"
proof -
  show "reads (GetNode now i)" "reads (GetNodeByToken now t)"
    by (rule readsI; simp add: GetNode_def GetNodeByToken_def query_nofault)+
  show "reads (UsersForNode i)" "reads (NodeTrafficSeq i)"
    by (simp_all add: UsersForNode_def NodeTrafficSeq_def query_reads)
  show "reads ListUsers"
    unfolding ListUsers_def userNodeIDs_def by (intro reading)
qed

lemma on_store_reads: "reads m \<Longrightarrow> no_faults (a_store a) \<Longrightarrow> on_store m a = (r, a') \<Longrightarrow> a' = a"
  by (auto simp: on_store_def reads_def split: prod.splits)

subsection \<open>Quiet handlers\<close>

definition acks_of :: "nat \<Rightarrow> app \<Rightarrow> int list" where
  "acks_of c a = (case map_of (a_heap a) c of None \<Rightarrow> []
     | Some cn \<Rightarrow> map m_seq (filter (\<lambda>m. m_type m = TypeAck) (cn_send cn)))"

definition quiet :: "(app \<Rightarrow> app) \<Rightarrow> bool" where
  "quiet f \<longleftrightarrow> (\<forall>a. no_faults (a_store a) \<longrightarrow> a_store (f a) = a_store a \<and> (\<forall>c. acks_of c (f a) = acks_of c a))"

named_theorems quiets \<open>handlers that change neither the store nor the queued acknowledgements\<close>

lemma quietI: "(\<And>a. no_faults (a_store a) \<Longrightarrow> a_store (f a) = a_store a \<and> (\<forall>c. acks_of c (f a) = acks_of c a)) \<Longrightarrow> quiet f"
  by (simp add: quiet_def)

lemma quietD: "quiet f \<Longrightarrow> no_faults (a_store a) \<Longrightarrow> a_store (f a) = a_store a"
  "quiet f \<Longrightarrow> no_faults (a_store a) \<Longrightarrow> acks_of c (f a) = acks_of c a"
  by (simp_all add: quiet_def)

lemma quiet_fold [quiets]: "(\<And>x. quiet (f x)) \<Longrightarrow> quiet (fold f xs)"
  by (induction xs) (auto simp: quiet_def)

lemma trySend_quiet: "m_type m \<noteq> TypeAck \<Longrightarrow>
    a_store (snd (trySend c m a)) = a_store a \<and> acks_of d (snd (trySend c m a)) = acks_of d a"
  by (auto simp: trySend_def acks_of_def update_conv' split: option.splits)

lemma trySend_ack: "a_store (snd (trySend c ((zero_msg TypeAck)\<lparr>m_seq := s\<rparr>) a)) = a_store a"
  "acks_of d (snd (trySend c ((zero_msg TypeAck)\<lparr>m_seq := s\<rparr>) a)) \<in> {acks_of d a, acks_of d a @ [s]}"
  by (auto simp: trySend_def acks_of_def update_conv' zero_msg_def split: option.splits)

lemma conn_close_quiet [quiets]: "quiet (conn_close c)"
  by (rule quietI) (auto simp: conn_close_def acks_of_def update_conv' split: option.splits)

lemma PushConfig_quiet [quiets]: "quiet (\<lambda>a. snd (PushConfig now i a))"
proof (rule quietI)
  fix a :: app assume nf: "no_faults (a_store a)"
  have t: "m_type (config_msg j d) \<noteq> TypeAck" for j d by (simp add: config_msg_def)
  show "a_store (snd (PushConfig now i a)) = a_store a \<and> (\<forall>c. acks_of c (snd (PushConfig now i a)) = acks_of c a)"
    using on_store_reads [OF method_reads(1) nf] on_store_reads [OF method_reads(3) nf] trySend_quiet [OF t]
    by (auto simp: PushConfig_def split: option.splits prod.splits sum.splits) metis+
qed

lemma notifyAdmins_quiet [quiets]: "quiet (notifyAdmins txt)"
  by (rule quietI) (simp add: notifyAdmins_def acks_of_def)

lemma check_user_quiet [quiets]: "quiet (check_user now u)"
  by (rule quietI) (simp add: check_user_def notifyAdmins_def acks_of_def Let_def)

lemma checkUserTransitions_quiet [quiets]: "quiet (checkUserTransitions now)"
proof (rule quietI)
  fix a :: app assume nf: "no_faults (a_store a)"
  show "a_store (checkUserTransitions now a) = a_store a \<and> (\<forall>c. acks_of c (checkUserTransitions now a) = acks_of c a)"
    using on_store_reads [OF method_reads(4) nf] quietD [OF quiet_fold [of "check_user now", OF check_user_quiet] nf]
    by (auto simp: checkUserTransitions_def split: prod.splits sum.splits)
qed

lemma cache_view [simp]: "acks_of c (a\<lparr>a_activeCache := x\<rparr>) = acks_of c a"
  by (simp add: acks_of_def)

lemma syncNode_quiet [quiets]: "quiet (syncNode H now i)"
proof (rule quietI)
  fix a :: app assume nf: "no_faults (a_store a)"
  show "a_store (syncNode H now i a) = a_store a \<and> (\<forall>c. acks_of c (syncNode H now i a) = acks_of c a)"
    using on_store_reads [OF method_reads(3) nf] quietD [OF PushConfig_quiet nf]
    by (auto simp: syncNode_def Let_def split: prod.splits sum.splits) (metis snd_conv)+
qed

lemma forceSyncNode_quiet [quiets]: "quiet (forceSyncNode H now i)"
proof (rule quietI)
  fix a :: app assume nf: "no_faults (a_store a)"
  show "a_store (forceSyncNode H now i a) = a_store a \<and> (\<forall>c. acks_of c (forceSyncNode H now i a) = acks_of c a)"
    using on_store_reads [OF method_reads(3) nf] quietD [OF PushConfig_quiet nf]
    by (auto simp: forceSyncNode_def Let_def split: prod.splits sum.splits) (metis snd_conv)+
qed

lemma enforcementTick_quiet [quiets]: "quiet (enforcementTick H now ids)"
proof (rule quietI)
  fix a :: app assume nf: "no_faults (a_store a)"
  note f = quietD [OF quiet_fold [of "syncNode H now", OF syncNode_quiet] nf]
  have "no_faults (a_store (fold (syncNode H now) ids a))" using nf by (simp add: f)
  from quietD [OF checkUserTransitions_quiet this] show
    "a_store (enforcementTick H now ids a) = a_store a \<and> (\<forall>c. acks_of c (enforcementTick H now ids a) = acks_of c a)"
    by (simp add: enforcementTick_def f)
qed

lemma noticeOnline_quiet [quiets]: "quiet (noticeOnline i name)"
  by (rule quietI) (simp add: noticeOnline_def notifyAdmins_def acks_of_def Let_def)

lemma recordRate_quiet [quiets]: "quiet (recordRate now i u d)"
  by (rule quietI) (simp add: recordRate_def acks_of_def Let_def)

lemma do_store_acks [simp]: "acks_of c (do_store m a) = acks_of c a"
  by (simp add: do_store_def on_store_def acks_of_def split_def Let_def)

lemma do_store_store: "a_store (do_store m a) = snd (m (a_store a))"
  by (simp add: do_store_def on_store_def split_def Let_def)

end
