(* ===== verification/Ingest.thy ===== *)
theory Ingest
  imports Quiet Ledger
begin

section \<open>What a traffic report does to the accounts\<close>

text \<open>
  The account of a node's user is its row in \<^verbatim>\<open>node_traffic\<close>. The lemmas follow a report through
  \<open>ingestTraffic\<close> when the engine does not fail: each assigned user's account grows by exactly the
  bytes reported for the name, a report with the last applied number changes nothing, and the
  assignment of users to nodes stays as it is.
\<close>

definition row_bytes :: "int \<Rightarrow> int \<Rightarrow> db \<Rightarrow> int" where
  "row_bytes u n d = sum_list (map (\<lambda>r. tr_up r + tr_down r) (filter (\<lambda>r. traffic_key r = (u, n)) (node_traffic d)))"

definition uid_of :: "int \<Rightarrow> db \<Rightarrow> string \<Rightarrow> int option" where
  "uid_of n d e = map_of (allowed_users (users_for_node n d)) e"

definition acct :: "int \<Rightarrow> string \<Rightarrow> db \<Rightarrow> int" where
  "acct n e d = (case uid_of n d e of None \<Rightarrow> 0 | Some u \<Rightarrow> row_bytes u n d)"

definition assign_view :: "db \<Rightarrow> (int \<times> string) list \<times> (int \<times> int) list" where
  "assign_view d = (map (\<lambda>u. (ur_id u, ur_username u)) (users d), user_nodes d)"

subsection \<open>Assignments\<close>

lemma insort_key_map: "insort_key k (f x) (map f xs) = map f (insort_key (\<lambda>x. k (f x)) x xs)"
  by (induction xs) simp_all

lemma sort_key_map: "sort_key k (map f xs) = map f (sort_key (\<lambda>x. k (f x)) xs)"
  by (induction xs) (simp_all add: insort_key_map)

definition assigned :: "int \<Rightarrow> db \<Rightarrow> (int \<times> string) list" where
  "assigned n d = map (\<lambda>u. (ur_id u, ur_username u))
     (sort_key ur_id (filter (\<lambda>u. (ur_id u, n) \<in> set (user_nodes d)) (users d)))"

lemma assigned_view: "assigned n d = sort_key fst (filter (\<lambda>p. (fst p, n) \<in> set (snd (assign_view d))) (fst (assign_view d)))"
  by (simp add: assigned_def assign_view_def filter_map comp_def sort_key_map)

lemma allowed_assigned: "allowed_users (users_for_node n d) = fold (\<lambda>(i, name). AList.update name i) (assigned n d) []"
  by (simp add: allowed_users_def users_for_node_def assigned_def fold_map comp_def user_of_row_def split_def)

lemma uid_of_view: "assign_view d = assign_view d' \<Longrightarrow> uid_of n d = uid_of n d'"
  by (simp add: uid_of_def [abs_def] allowed_assigned assigned_view)

lemma fold_update_in: "map_of (fold (\<lambda>(i, name). AList.update name i) ps acc) e = Some u \<Longrightarrow>
    (u, e) \<in> set ps \<or> map_of acc e = Some u"
  by (induction ps arbitrary: acc) (fastforce simp: update_conv' split: if_splits)+

lemma uid_of_row: "uid_of n d e = Some u \<Longrightarrow> \<exists>r \<in> set (users d). ur_id r = u \<and> ur_username r = e"
  using fold_update_in [of "assigned n d" "[]" e u]
  by (auto simp: uid_of_def allowed_assigned assigned_def)

text \<open>Two names are never the same account, since ids are unique.\<close>

lemma uid_of_inj: "users_ok d \<Longrightarrow> uid_of n d e = Some u \<Longrightarrow> uid_of n d e' = Some u \<Longrightarrow> e = e'"
  using uid_of_row [of n d e u] uid_of_row [of n d e' u]
  by (auto simp: users_ok_def distinct_map dest: inj_onD)

subsection \<open>One charge\<close>

definition charged :: "int \<Rightarrow> int \<Rightarrow> int \<Rightarrow> int \<Rightarrow> int \<Rightarrow> db \<Rightarrow> db" where
  "charged now u n up dn d = d\<lparr>
     users := upd_where (\<lambda>r. ur_id r = u) (\<lambda>r. r\<lparr>ur_data_used := ur_data_used r + wrap64 (up + dn)\<rparr>) (users d),
     node_traffic := charge_row now u n up dn (node_traffic d),
     traffic_daily := add_daily u (utc_day now) up dn (traffic_daily d),
     node_traffic_daily := add_daily n (utc_day now) up dn (node_traffic_daily d)\<rparr>"

lemma AddTraffic_charged:
  "no_faults s \<Longrightarrow> AddTraffic now u n up dn s = (Inr (), s\<lparr>tables := charged now u n up dn (tables s)\<rparr>)"
  by (simp add: AddTraffic_def Let_def tx_nofault add_used_def upd_user_def add_node_traffic_def charged_def charge_row_def)

lemma charge_row_bytes:
  assumes "distinct (map traffic_key (node_traffic d))"
  shows "row_bytes v m (charged now u n up dn d) = row_bytes v m d + (if (v, m) = (u, n) then up + dn else 0)"
proof (cases "(v, m) = (u, n)")
  case True
  let ?new = "\<lparr>tr_user = u, tr_node = n, tr_up = up, tr_down = dn, tr_updated_at = now\<rparr>"
  have key: "traffic_key ?new = (u, n)" by (simp add: traffic_key_def)
  have row: "filter (\<lambda>r. traffic_key r = (u, n)) (charge_row now u n up dn (node_traffic d)) =
      (case filter (\<lambda>r. traffic_key r = (u, n)) (node_traffic d) of [] \<Rightarrow> [?new]
       | r # _ \<Rightarrow> [r\<lparr>tr_up := tr_up r + up, tr_down := tr_down r + dn, tr_updated_at := now\<rparr>])"
    using traffic_upsert.upsert_row [OF assms, where new = ?new and up = up and down = dn and now = now] by (simp add: charge_row_def key)
  have dist: "distinct (map traffic_key (filter (\<lambda>r. traffic_key r = (u, n)) (node_traffic d)))"
    using assms by (rule distinct_map_filter)
  have one: "rs = []" if "filter (\<lambda>r. traffic_key r = (u, n)) (node_traffic d) = r # rs" for r rs
  proof -
    have "traffic_key x = (u, n)" if "x \<in> set (filter (\<lambda>r. traffic_key r = (u, n)) (node_traffic d))" for x
      using that by simp
    with that have "\<forall>x \<in> set (r # rs). traffic_key x = (u, n)" by (simp only:) blast
    moreover from that dist have "distinct (map traffic_key (r # rs))" by simp
    ultimately show ?thesis by (cases rs) auto
  qed
  have "sum_list (map (\<lambda>r. tr_up r + tr_down r) (filter (\<lambda>r. traffic_key r = (u, n)) (charge_row now u n up dn (node_traffic d)))) =
      sum_list (map (\<lambda>r. tr_up r + tr_down r) (filter (\<lambda>r. traffic_key r = (u, n)) (node_traffic d))) + (up + dn)"
    using one by (auto simp: row split: list.splits)
  with True show ?thesis by (simp add: row_bytes_def charged_def)
next
  case False
  have "filter (\<lambda>r. traffic_key r = (v, m)) (charge_row now u n up dn (node_traffic d)) =
      filter (\<lambda>r. traffic_key r = (v, m)) (node_traffic d)"
    using traffic_upsert.upsert_other [of "(v, m)" "\<lparr>tr_user = u, tr_node = n, tr_up = up, tr_down = dn, tr_updated_at = now\<rparr>"] False
    by (simp add: charge_row_def traffic_key_def)
  with False show ?thesis by (auto simp: row_bytes_def charged_def)
qed

lemma charged_views:
  "assign_view (charged now u n up dn d) = assign_view d" "nodes (charged now u n up dn d) = nodes d"
  "user_nodes (charged now u n up dn d) = user_nodes d"
  by (simp_all add: charged_def assign_view_def upd_where_def comp_def if_distrib cong: if_cong)

lemma charged_ok: "db_ok d \<Longrightarrow> db_ok (charged now u n up dn d)"
proof -
  assume "db_ok d"
  with store_step_ok [of "\<lparr>tables = d, faults = [], crypt = None\<rparr>" "OAddTraffic now u n up dn"]
  show ?thesis by (simp add: AddTraffic_charged no_faults_def)
qed

subsection \<open>A whole report\<close>

definition charge_item :: "int \<Rightarrow> int \<Rightarrow> (string \<times> int) list \<Rightarrow> traffic_item \<Rightarrow> db \<Rightarrow> db" where
  "charge_item now n allowed it d =
     (if ti_up it = 0 \<and> ti_down it = 0 then d
      else case map_of allowed (ti_email it) of None \<Rightarrow> d | Some u \<Rightarrow> charged now u n (ti_up it) (ti_down it) d)"

definition charge_items :: "int \<Rightarrow> int \<Rightarrow> (string \<times> int) list \<Rightarrow> traffic_item list \<Rightarrow> db \<Rightarrow> db" where
  "charge_items now n allowed its d = fold (charge_item now n allowed) its d"

lemma charge_items_simps [simp]:
  "charge_items now n al [] d = d"
  "charge_items now n al (it # its) d = charge_items now n al its (charge_item now n al it d)"
  by (simp_all add: charge_items_def)

lemma ingest_items_charge:
  "no_faults (a_store a) \<Longrightarrow> \<exists>bu bd. fold (ingest_item now n al) its (u0, d0, a) =
     (bu, bd, a\<lparr>a_store := (a_store a)\<lparr>tables := charge_items now n al its (tables (a_store a))\<rparr>\<rparr>)"
proof (induction its arbitrary: a u0 d0)
  case Nil
  then show ?case by simp
next
  case (Cons it its)
  have "\<exists>u1 d1. ingest_item now n al it (u0, d0, a) =
      (u1, d1, a\<lparr>a_store := (a_store a)\<lparr>tables := charge_item now n al it (tables (a_store a))\<rparr>\<rparr>)"
    using Cons.prems
    by (auto simp: ingest_item_def charge_item_def do_store_def on_store_def AddTraffic_charged split: option.splits)
  then obtain u1 d1 where one: "ingest_item now n al it (u0, d0, a) =
      (u1, d1, a\<lparr>a_store := (a_store a)\<lparr>tables := charge_item now n al it (tables (a_store a))\<rparr>\<rparr>)" by blast
  let ?a = "a\<lparr>a_store := (a_store a)\<lparr>tables := charge_item now n al it (tables (a_store a))\<rparr>\<rparr>"
  have "no_faults (a_store ?a)" using Cons.prems by (simp add: no_faults_def)
  from Cons.IH [OF this, of u1 d1] one show ?case by simp
qed

lemma charge_item_frame:
  "assign_view (charge_item now n al it d) = assign_view d" "nodes (charge_item now n al it d) = nodes d"
  "db_ok d \<Longrightarrow> db_ok (charge_item now n al it d)"
  by (simp_all add: charge_item_def charged_views charged_ok split: option.splits)

lemma charge_items_frame:
  "assign_view (charge_items now n al its d) = assign_view d" "nodes (charge_items now n al its d) = nodes d"
  "db_ok d \<Longrightarrow> db_ok (charge_items now n al its d)"
  by (induction its arbitrary: d) (simp_all add: charge_item_frame)

lemma db_ok_traffic: "db_ok d \<Longrightarrow> distinct (map traffic_key (node_traffic d))"
  by (simp add: db_ok_def keys_ok_def)

lemma charge_items_bytes:
  "db_ok d \<Longrightarrow> row_bytes v n (charge_items now n al its d) = row_bytes v n d +
     sum_list (map item_bytes (filter (\<lambda>it. map_of al (ti_email it) = Some v) its))"
proof (induction its arbitrary: d)
  case Nil
  then show ?case by simp
next
  case (Cons it its)
  have "row_bytes v n (charge_item now n al it d) =
      row_bytes v n d + (if map_of al (ti_email it) = Some v then item_bytes it else 0)"
    using charge_row_bytes [OF db_ok_traffic [OF Cons.prems], of v n]
    by (auto simp: charge_item_def item_bytes_def split: option.splits)
  with Cons show ?case by (simp add: charge_item_frame)
qed

text \<open>Per name: the account grows by the bytes reported for the name.\<close>

lemma charge_items_acct:
  assumes ok: "db_ok d" and e: "uid_of n d e \<noteq> None"
  shows "acct n e (charge_items now n (allowed_users (users_for_node n d)) its d) = acct n e d + items_bytes e its"
proof -
  let ?d' = "charge_items now n (allowed_users (users_for_node n d)) its d"
  obtain u where u: "uid_of n d e = Some u" using e by blast
  have "uid_of n ?d' = uid_of n d" by (rule uid_of_view) (rule charge_items_frame)
  moreover have "(uid_of n d x = Some u) = (x = e)" for x
    using uid_of_inj [of d n x u e] u ok by (auto simp: db_ok_def)
  then have "filter (\<lambda>it. map_of (allowed_users (users_for_node n d)) (ti_email it) = Some u) its =
      filter (\<lambda>it. ti_email it = e) its"
    by (simp add: uid_of_def)
  ultimately show ?thesis
    using charge_items_bytes [OF ok, of u n now "allowed_users (users_for_node n d)" its] u
    by (simp add: acct_def items_bytes_def)
qed

subsection \<open>The handler\<close>

definition node_seq :: "int \<Rightarrow> db \<Rightarrow> int option" where
  "node_seq n d = map_option nr_traffic_seq (List.find (\<lambda>r. nr_id r = n) (nodes d))"

definition set_seq :: "int \<Rightarrow> int \<Rightarrow> db \<Rightarrow> db" where
  "set_seq n q d = d\<lparr>nodes := upd_where (\<lambda>r. nr_id r = n) (\<lambda>r. r\<lparr>nr_traffic_seq := q\<rparr>) (nodes d)\<rparr>"

lemma set_seq_frame [simp]:
  "assign_view (set_seq n q d) = assign_view d" "row_bytes v m (set_seq n q d) = row_bytes v m d"
  by (simp_all add: set_seq_def assign_view_def row_bytes_def)

lemma set_seq_acct [simp]: "acct m e (set_seq n q d) = acct m e d"
  using uid_of_view [OF set_seq_frame(1), of m n q d] by (simp add: acct_def split: option.splits)

lemma set_seq_db_ok: "db_ok d \<Longrightarrow> db_ok (set_seq n q d)"
proof -
  assume "db_ok d"
  with store_step_ok [of "\<lparr>tables = d, faults = [], crypt = None\<rparr>" "OSetNodeTrafficSeq n q"]
  show ?thesis by (simp add: SetNodeTrafficSeq_def exec_nofault no_faults_def set_seq_def)
qed

lemma node_seq_set: "node_seq n d \<noteq> None \<Longrightarrow> node_seq n (set_seq n q d) = Some q"
proof -
  have "List.find (\<lambda>r. nr_id r = n) rs \<noteq> None \<Longrightarrow>
      \<exists>r. List.find (\<lambda>r. nr_id r = n) (upd_where (\<lambda>r. nr_id r = n) (\<lambda>r. r\<lparr>nr_traffic_seq := q\<rparr>) rs) = Some r \<and> nr_traffic_seq r = q" for rs
    by (induction rs) auto
  then show "node_seq n d \<noteq> None \<Longrightarrow> ?thesis" by (fastforce simp: node_seq_def set_seq_def)
qed

lemma NodeTrafficSeq_nofault: "no_faults s \<Longrightarrow> node_seq n (tables s) = Some q \<Longrightarrow> NodeTrafficSeq n s = (Inr q, s)"
  by (auto simp: NodeTrafficSeq_def query_nofault find_row_def node_seq_def)

lemma UsersForNode_nofault: "no_faults s \<Longrightarrow> UsersForNode n s = (Inr (users_for_node n (tables s)), s)"
  by (simp add: UsersForNode_def query_nofault)

lemma SetNodeTrafficSeq_nofault: "no_faults s \<Longrightarrow> SetNodeTrafficSeq n q s = (Inr (), s\<lparr>tables := set_seq n q (tables s)\<rparr>)"
  by (simp add: SetNodeTrafficSeq_def exec_nofault set_seq_def)

lemma ingest_duplicate:
  "no_faults (a_store a) \<Longrightarrow> node_seq n (tables (a_store a)) = Some q \<Longrightarrow> q \<noteq> 0 \<Longrightarrow> ingestTraffic H now n q its a = a"
  by (simp add: ingestTraffic_def on_store_def NodeTrafficSeq_nofault)

lemma ingest_new:
  assumes nf: "no_faults (a_store a)" and q: "node_seq n (tables (a_store a)) = Some q" and s: "s \<noteq> 0" "s \<noteq> q"
  shows "a_store (ingestTraffic H now n s its a) = (a_store a)\<lparr>tables := set_seq n s
      (charge_items now n (allowed_users (users_for_node n (tables (a_store a)))) its (tables (a_store a)))\<rparr> \<and>
    acks_of c (ingestTraffic H now n s its a) = acks_of c a"
proof -
  let ?al = "allowed_users (users_for_node n (tables (a_store a)))"
  let ?d = "charge_items now n ?al its (tables (a_store a))"
  let ?a1 = "a\<lparr>a_store := (a_store a)\<lparr>tables := ?d\<rparr>\<rparr>"
  obtain bu bd where f: "fold (ingest_item now n ?al) its (0, 0, a) = (bu, bd, ?a1)"
    using ingest_items_charge [OF nf] by blast
  define a2 where "a2 = recordRate now n bu bd ?a1"
  have nf1: "no_faults (a_store ?a1)" using nf by (simp add: no_faults_def)
  have s2: "a_store a2 = a_store ?a1" "acks_of c a2 = acks_of c a"
    using quietD [OF recordRate_quiet nf1] by (simp_all add: a2_def acks_of_def)
  define a3 where "a3 = do_store (SetNodeTrafficSeq n s) a2"
  have s3: "a_store a3 = (a_store a)\<lparr>tables := set_seq n s ?d\<rparr>" "acks_of c a3 = acks_of c a"
    using nf1 s2 by (simp_all add: a3_def do_store_store SetNodeTrafficSeq_nofault)
  then have nf3: "no_faults (a_store a3)" using nf by (simp add: no_faults_def)
  have "ingestTraffic H now n s its a = syncNode H now n a3"
    using s nf q f by (simp add: ingestTraffic_def on_store_def NodeTrafficSeq_nofault UsersForNode_nofault a2_def a3_def)
  with quietD [OF syncNode_quiet nf3] s3 show ?thesis by simp
qed

end
