(* ===== verification/Confine.thy ===== *)
theory Confine
  imports Ingest
begin

section \<open>What a node can change\<close>

text \<open>
  A node is a remote machine that may be lost to an attacker. \<open>others n\<close> is everything in the
  database except what node \<open>n\<close> is trusted to report on: the usage of the users assigned to it, its
  own two status columns, and the traffic, daily and device rows between the two. The lemmas follow
  every message of a session through its handler, engine failures included.
\<close>

definition others :: "int \<Rightarrow> db \<Rightarrow> db" where
  "others n d = d\<lparr>
     users := upd_where (\<lambda>u. (ur_id u, n) \<in> set (user_nodes d)) (\<lambda>u. u\<lparr>ur_data_used := 0\<rparr>) (users d),
     nodes := upd_where (\<lambda>r. nr_id r = n) (\<lambda>r. r\<lparr>nr_last_seen := 0, nr_traffic_seq := 0\<rparr>) (nodes d),
     node_traffic := filter (\<lambda>r. tr_node r \<noteq> n \<or> (tr_user r, n) \<notin> set (user_nodes d)) (node_traffic d),
     traffic_daily := filter (\<lambda>r. (dy_owner r, n) \<notin> set (user_nodes d)) (traffic_daily d),
     node_traffic_daily := filter (\<lambda>r. dy_owner r \<noteq> n) (node_traffic_daily d),
     user_devices := filter (\<lambda>r. dv_node r \<noteq> n \<or> (dv_user r, n) \<notin> set (user_nodes d)) (user_devices d)\<rparr>"

text \<open>\<open>within n as\<close> are the changes node \<open>n\<close> may make to the database \<open>d0\<close>.\<close>

definition within :: "int \<Rightarrow> db \<Rightarrow> db \<Rightarrow> bool" where
  "within n d0 d \<longleftrightarrow> others n d = others n d0 \<and> user_nodes d = user_nodes d0"

lemma withinI: "within n d0 d \<Longrightarrow> others n d' = others n d \<Longrightarrow> user_nodes d' = user_nodes d \<Longrightarrow> within n d0 d'"
  by (simp add: within_def)

lemma within_refl: "within n d d"
  by (simp add: within_def)

subsection \<open>Statements\<close>

lemma upd_where_map_same: "(\<And>r. P r \<Longrightarrow> Q r) \<Longrightarrow> (\<And>r. P r \<Longrightarrow> Q (f r)) \<Longrightarrow> (\<And>r. P r \<Longrightarrow> g (f r) = g r) \<Longrightarrow>
    upd_where Q g (upd_where P f rs) = upd_where Q g rs"
  by (induction rs) auto

lemma filter_upsert_dropped:
  assumes "\<not> P new" "\<And>r. key r = key new \<Longrightarrow> \<not> P r \<and> \<not> P (f r)"
  shows "filter P (upsert key new f rs) = filter P rs"
proof -
  have "filter P (upd_where (\<lambda>r. key r = key new) f rs) = filter P rs"
    by (induction rs) (use assms(2) in auto)
  with assms(1) show ?thesis by (simp add: upsert_def)
qed

lemma drop_reported:
  "(u, n) \<in> un \<Longrightarrow> filter (\<lambda>r. tr_node r = n \<longrightarrow> (tr_user r, n) \<notin> un) (upsert traffic_key
     \<lparr>tr_user = u, tr_node = n, tr_up = up, tr_down = dn, tr_updated_at = now\<rparr>
     (\<lambda>r. r\<lparr>tr_up := tr_up r + up, tr_down := tr_down r + dn, tr_updated_at := now\<rparr>) rs) =
   filter (\<lambda>r. tr_node r = n \<longrightarrow> (tr_user r, n) \<notin> un) rs"
  "(u, n) \<in> un \<Longrightarrow> filter (\<lambda>r. (dy_owner r, n) \<notin> un) (add_daily u day up dn ds) = filter (\<lambda>r. (dy_owner r, n) \<notin> un) ds"
  "filter (\<lambda>r. dy_owner r \<noteq> n) (add_daily n day up dn ds) = filter (\<lambda>r. dy_owner r \<noteq> n) ds"
  "(u, n) \<in> un \<Longrightarrow> filter (\<lambda>r. dv_node r = n \<longrightarrow> (dv_user r, n) \<notin> un) (upsert device_key
     \<lparr>dv_user = u, dv_node = n, dv_ip = ip, dv_inbound = inb, dv_conns = c, dv_first_seen = seen, dv_last_seen = seen\<rparr>
     (\<lambda>r. r\<lparr>dv_conns := dv_conns r + c, dv_inbound := inb, dv_last_seen := seen\<rparr>) vs) =
   filter (\<lambda>r. dv_node r = n \<longrightarrow> (dv_user r, n) \<notin> un) vs"
  unfolding add_daily_def
  by (rule filter_upsert_dropped; auto simp: traffic_key_def daily_key_def device_key_def)+

lemma within_upd_node:
  "(\<And>r. f r = r\<lparr>nr_last_seen := nr_last_seen (f r), nr_traffic_seq := nr_traffic_seq (f r)\<rparr>) \<Longrightarrow>
   keeps_stmt (within n d0) (\<lambda>d. Inr (d\<lparr>nodes := upd_where (\<lambda>r. nr_id r = n) f (nodes d)\<rparr>))"
proof (rule keeps_stmtI)
  fix d d' assume f: "\<And>r. f r = r\<lparr>nr_last_seen := nr_last_seen (f r), nr_traffic_seq := nr_traffic_seq (f r)\<rparr>"
    and w: "within n d0 d" and d': "Inr (d\<lparr>nodes := upd_where (\<lambda>r. nr_id r = n) f (nodes d)\<rparr>) = Inr d'"
  have g: "(f r)\<lparr>nr_last_seen := 0, nr_traffic_seq := 0\<rparr> = r\<lparr>nr_last_seen := 0, nr_traffic_seq := 0\<rparr>" for r
    by (subst f) simp
  have i: "nr_id (f r) = nr_id r" for r by (subst f) simp
  have "upd_where (\<lambda>r. nr_id r = n) (\<lambda>r. r\<lparr>nr_last_seen := 0, nr_traffic_seq := 0\<rparr>) (upd_where (\<lambda>r. nr_id r = n) f (nodes d)) =
      upd_where (\<lambda>r. nr_id r = n) (\<lambda>r. r\<lparr>nr_last_seen := 0, nr_traffic_seq := 0\<rparr>) (nodes d)"
    by (rule upd_where_map_same) (simp_all add: g i)
  with w d' show "within n d0 d'" by (auto simp: within_def others_def)
qed

lemma within_statements:
  assumes "(u, n) \<in> set (user_nodes d0)"
  shows "keeps_stmt (within n d0) (add_used u k)"
    "keeps_stmt (within n d0) (add_node_traffic now u n up dn)"
    "keeps_stmt (within n d0) (\<lambda>d. Inr (d\<lparr>traffic_daily := add_daily u day up dn (traffic_daily d)\<rparr>))"
    "keeps_stmt (within n d0) (\<lambda>d. Inr (d\<lparr>node_traffic_daily := add_daily n day up dn (node_traffic_daily d)\<rparr>))"
    "keeps_stmt (within n d0) (put_device u n ip inb c seen)"
proof -
  have mine: "(u, n) \<in> set (user_nodes d)" if "within n d0 d" for d
    using that assms by (simp add: within_def)
  show "keeps_stmt (within n d0) (add_used u k)"
  proof (rule keeps_stmtI)
    fix d d' assume w: "within n d0 d" and "add_used u k d = Inr d'"
    then have d': "d' = d\<lparr>users := upd_where (\<lambda>r. ur_id r = u) (\<lambda>r. r\<lparr>ur_data_used := ur_data_used r + k\<rparr>) (users d)\<rparr>"
      by (simp add: add_used_def upd_user_def)
    have "upd_where (\<lambda>r. (ur_id r, n) \<in> set (user_nodes d)) (\<lambda>r. r\<lparr>ur_data_used := 0\<rparr>) (users d') =
        upd_where (\<lambda>r. (ur_id r, n) \<in> set (user_nodes d)) (\<lambda>r. r\<lparr>ur_data_used := 0\<rparr>) (users d)"
      by (simp add: d') (rule upd_where_map_same; simp add: mine [OF w])
    with w show "within n d0 d'" by (auto simp: within_def others_def d')
  qed
  have easy: "keeps_stmt (within n d0) st"
    if "\<And>d d'. (u, n) \<in> set (user_nodes d) \<Longrightarrow> st d = Inr d' \<Longrightarrow> others n d' = others n d \<and> user_nodes d' = user_nodes d"
    for st
    using that mine by (intro keeps_stmtI) (blast intro: withinI)
  show "keeps_stmt (within n d0) (add_node_traffic now u n up dn)"
    by (rule easy) (auto simp: others_def add_node_traffic_def drop_reported)
  show "keeps_stmt (within n d0) (\<lambda>d. Inr (d\<lparr>traffic_daily := add_daily u day up dn (traffic_daily d)\<rparr>))"
    by (rule easy) (auto simp: others_def drop_reported)
  show "keeps_stmt (within n d0) (\<lambda>d. Inr (d\<lparr>node_traffic_daily := add_daily n day up dn (node_traffic_daily d)\<rparr>))"
    by (rule easy) (auto simp: others_def drop_reported)
  show "keeps_stmt (within n d0) (put_device u n ip inb c seen)"
    by (rule easy) (auto simp: others_def put_device_def drop_reported)
qed

subsection \<open>Store methods\<close>

named_theorems confined \<open>what stays within a node's reach\<close>

lemma methods_within [confined]:
  "keeps (within n d0) (TouchNode now n)" "keeps (within n d0) (SetNodeTrafficSeq n q)"
  "keeps (within n d0) (NodeTrafficSeq i)" "keeps (within n d0) (UsersForNode i)"
  by (auto simp: TouchNode_def SetNodeTrafficSeq_def NodeTrafficSeq_def UsersForNode_def upd_node_def [abs_def]
      intro!: methods_ok within_upd_node)

lemma GetNode_within [confined]: "keeps (within n d0) (GetNode now i)"
  by (auto simp: keeps_def GetNode_def query_def next_fault_tables split: prod.splits)

lemma charges_within [confined]:
  assumes "(u, n) \<in> set (user_nodes d0)"
  shows "keeps (within n d0) (AddTraffic now u n up dn)" "keeps (within n d0) (UpsertDevice u n ip inb c seen)"
  by (auto simp: AddTraffic_def UpsertDevice_def Let_def intro!: methods_ok within_statements [OF assms])

subsection \<open>Handlers\<close>

abbreviation app_within :: "int \<Rightarrow> db \<Rightarrow> app \<Rightarrow> bool" where
  "app_within n d0 a \<equiv> within n d0 (tables (a_store a))"

lemma on_store_within: "keeps (within n d0) m \<Longrightarrow> app_within n d0 a \<Longrightarrow> on_store m a = (r, a') \<Longrightarrow> app_within n d0 a'"
  by (auto simp: on_store_def keeps_def split: prod.splits)

lemma do_store_within: "keeps (within n d0) m \<Longrightarrow> app_within n d0 a \<Longrightarrow> app_within n d0 (do_store m a)"
  by (auto simp: do_store_def on_store_def keeps_def split: prod.splits)

lemma same_store [simp]:
  "a_store (recordRate now n u d a) = a_store a" "a_store (setNodeMetrics n x a) = a_store a"
  "a_store (snd (trySend c m a)) = a_store a"
  by (auto simp: recordRate_def setNodeMetrics_def trySend_def Let_def split: option.splits)

lemma PushConfig_within: "app_within n d0 a \<Longrightarrow> app_within n d0 (snd (PushConfig now i a))"
proof -
  assume w: "app_within n d0 a"
  obtain r a1 where s1: "on_store (GetNode now i) a = (r, a1)" by fastforce
  have w1: "app_within n d0 a1" by (rule on_store_within [OF GetNode_within w s1])
  obtain r2 a2 where s2: "on_store (UsersForNode i) a1 = (r2, a2)" by fastforce
  have "app_within n d0 a2" by (rule on_store_within [OF methods_within(4) w1 s2])
  with w w1 s1 s2 show ?thesis by (simp add: PushConfig_def split: option.split sum.split)
qed

lemma syncNode_within: "app_within n d0 a \<Longrightarrow> app_within n d0 (syncNode H now i a)"
proof -
  assume w: "app_within n d0 a"
  obtain r a1 where s1: "on_store (UsersForNode i) a = (r, a1)" by fastforce
  have w1: "app_within n d0 a1" by (rule on_store_within [OF methods_within(4) w s1])
  from PushConfig_within [OF w1, of now i] w1 s1 show ?thesis
    by (simp add: syncNode_def Let_def split_def split: sum.split)
qed

lemma UsersForNode_allowed:
  assumes "on_store (UsersForNode n) a = (Inr us, a')" "app_within n d0 a" "map_of (allowed_users us) e = Some u"
  shows "(u, n) \<in> set (user_nodes d0)"
proof -
  have "us = users_for_node n (tables (a_store a))"
    using assms(1) by (auto simp: on_store_def UsersForNode_def query_def next_fault_def split: list.splits if_splits)
  with assms(3) have "uid_of n (tables (a_store a)) e = Some u" by (simp add: uid_of_def)
  then have "(u, n) \<in> set (user_nodes (tables (a_store a)))"
    using fold_update_in [of "assigned n (tables (a_store a))" "[]" e u]
    by (auto simp: uid_of_def allowed_assigned assigned_def)
  with assms(2) show ?thesis by (simp add: within_def)
qed

lemma ingest_items_within:
  assumes "\<And>e u. map_of al e = Some u \<Longrightarrow> (u, n) \<in> set (user_nodes d0)"
  shows "app_within n d0 a \<Longrightarrow> app_within n d0 (snd (snd (fold (ingest_item now n al) its (u0, e0, a))))"
proof (induction its arbitrary: u0 e0 a)
  case (Cons it its)
  obtain u1 e1 a1 where one: "ingest_item now n al it (u0, e0, a) = (u1, e1, a1)" by (rule prod_cases3)
  have "app_within n d0 a1"
    using one Cons.prems
    by (auto simp: ingest_item_def split: if_splits option.splits
        intro!: do_store_within charges_within dest: assms)
  from Cons.IH [OF this] one show ?case by simp
qed simp

lemma ingestTraffic_within: "app_within n d0 a \<Longrightarrow> app_within n d0 (ingestTraffic H now n q its a)"
proof -
  assume w: "app_within n d0 a"
  obtain r a1 where s1: "on_store (NodeTrafficSeq n) a = (r, a1)" by fastforce
  have w1: "app_within n d0 a1" by (rule on_store_within [OF methods_within(3) w s1])
  obtain r2 a2 where s2: "on_store (UsersForNode n) a1 = (r2, a2)" by fastforce
  have w2: "app_within n d0 a2" by (rule on_store_within [OF methods_within(4) w1 s2])
  have items: "app_within n d0 (snd (snd (fold (ingest_item now n (allowed_users us)) its (0, 0, a2))))"
    if "r2 = Inr us" for us
    using UsersForNode_allowed [OF s2 [unfolded that] w1] w2 by (intro ingest_items_within)
  show ?thesis
    using s1 s2 w1 w2 items
    by (auto simp: ingestTraffic_def Let_def split_def split: sum.splits
        intro!: syncNode_within do_store_within methods_within)
qed

lemma ingestDevices_within: "app_within n d0 a \<Longrightarrow> app_within n d0 (ingestDevices now n its a)"
proof -
  assume w: "app_within n d0 a"
  obtain r a1 where s1: "on_store (UsersForNode n) a = (r, a1)" by fastforce
  have w1: "app_within n d0 a1" by (rule on_store_within [OF methods_within(4) w s1])
  have "app_within n d0 (fold (ingest_device now n (allowed_users us)) its a1)" if "r = Inr us" for us
    using w1
  proof (induction its arbitrary: a1)
    case (Cons it its)
    have "app_within n d0 (ingest_device now n (allowed_users us) it a1)"
      using Cons.prems UsersForNode_allowed [OF s1 [unfolded that] w]
      by (auto simp: ingest_device_def Let_def split: option.splits intro!: do_store_within charges_within)
    from Cons.IH [OF this] show ?case by simp
  qed simp
  with s1 w1 show ?thesis by (auto simp: ingestDevices_def split: sum.splits)
qed

text \<open>C9. A node can only report on what is its own. Whatever message arrives on a node's session,
  with any content, any sequence number and whatever statements the engine fails, the handler leaves
  everything else in the database as it was: the assignment of users, the usage of every user not
  assigned to the node and every other column of all users, the other nodes, the administrators,
  the settings and the audit log.\<close>

theorem node_is_confined:
  "others n (tables (a_store (readMsg H now n c m a))) = others n (tables (a_store a))"
proof -
  have start: "app_within n (tables (a_store a)) a" by (rule within_refl)
  have "app_within n (tables (a_store a)) (readMsg H now n c m a)"
    by (auto simp: readMsg_def Let_def split: msg_type.split option.split
        intro!: ingestTraffic_within ingestDevices_within do_store_within methods_within start)
  then show ?thesis by (simp add: within_def)
qed

end
