(* ===== verification/Samples.thy ===== *)
theory Samples
  imports Hub
begin

section \<open>A small panel\<close>

text \<open>
  The concrete panel the witnesses run: one node, one user assigned to it, nothing connected.
\<close>

definition sample_db :: db where
  "sample_db = empty_db\<lparr>
     nodes := [\<lparr>nr_id = 1, nr_name = ''n'', nr_token = ''t'', nr_address = ''a'', nr_remark = [], nr_last_seen = 0,
       nr_created_at = 0, nr_reality_dest = ''d'', nr_reality_server_name = ''s'', nr_reality_private_key = ''k'',
       nr_reality_public_key = ''p'', nr_reality_short_id = ''i'', nr_tls_domain = [], nr_traffic_seq = 0,
       nr_agent_version = []\<rparr>],
     users := [\<lparr>ur_id = 1, ur_username = ''alice'', ur_uuid = ''u'', ur_sub_token = ''s'', ur_data_limit = 0,
       ur_data_used = 0, ur_expire_at = 0, ur_enabled = True, ur_created_at = 0, ur_portal_password_hash = [],
       ur_reset_day = 0, ur_last_reset = 0, ur_session_epoch = 0, ur_must_change_pw = False, ur_note = []\<rparr>],
     user_nodes := [(1, 1)], seq_nodes := 1, seq_users := 1\<rparr>"

definition sample_panel :: "bool list \<Rightarrow> app" where
  "sample_panel fs = boot_app \<lparr>tables = sample_db, faults = fs, crypt = None\<rparr> [] []"

end
