(* ===== verification/Conns.thy ===== *)
theory Conns
  imports Quiet Samples
begin

section \<open>The connections of the hub\<close>

text \<open>
  A node that reconnects replaces its old connection, whose handler may notice only later; the hub's
  map and the open connections then have to agree at all times. The steps are the handlers of the
  panel that touch the hub, in any order and with any engine failure.
\<close>

definition conn_view :: "app \<Rightarrow> nat \<Rightarrow> (int \<times> bool) option" where
  "conn_view a c = map_option (\<lambda>cn. (cn_node cn, cn_closed cn)) (map_of (a_heap a) c)"

text \<open>The registry and who is open: what most handlers keep.\<close>

definition reg :: "app \<Rightarrow> (int \<times> nat) list \<times> nat \<times> (nat \<Rightarrow> (int \<times> bool) option)" where
  "reg a = (a_conns a, a_next a, conn_view a)"

named_theorems regs \<open>handlers that keep the registry of connections\<close>

lemma on_store_reg: "on_store m a = (r, a') \<Longrightarrow> reg a' = reg a"
  by (auto simp: on_store_def reg_def conn_view_def fun_eq_iff split: prod.splits)

lemma update_reg [regs]:
  "reg (a\<lparr>a_store := s\<rparr>) = reg a" "reg (a\<lparr>a_activeCache := ac\<rparr>) = reg a" "reg (a\<lparr>a_nodeMetrics := nm\<rparr>) = reg a"
  "reg (a\<lparr>a_rateLast := rl\<rparr>) = reg a" "reg (a\<lparr>a_nodeRate := nr\<rparr>) = reg a" "reg (a\<lparr>a_userActive := ua\<rparr>) = reg a"
  "reg (a\<lparr>a_offlineNotified := ofn\<rparr>) = reg a" "reg (a\<lparr>a_offlineTimers := ot\<rparr>) = reg a" "reg (a\<lparr>a_sent := sn\<rparr>) = reg a"
  by (simp_all add: reg_def conn_view_def fun_eq_iff)

lemma do_store_reg [regs]: "reg (do_store m a) = reg a"
  by (simp add: do_store_def on_store_def split_def Let_def regs)

lemma trySend_reg [regs]: "reg (snd (trySend c m a)) = reg a"
  by (auto simp: trySend_def reg_def conn_view_def fun_eq_iff update_conv' split: option.split)

lemma writeNext_reg [regs]: "reg (snd (writeNext c a)) = reg a"
  by (auto simp: writeNext_def reg_def conn_view_def fun_eq_iff update_conv' split: option.split list.split)

lemma small_reg [regs]:
  "reg (recordRate now i u d a) = reg a" "reg (setNodeMetrics i x a) = reg a" "reg (notifyAdmins t a) = reg a"
  "reg (noticeOnline i nm a) = reg a" "reg (check_user now usr a) = reg a" "reg (scheduleOfflineNotice i a) = reg a"
  by (simp_all add: recordRate_def setNodeMetrics_def notifyAdmins_def noticeOnline_def check_user_def
      scheduleOfflineNotice_def Let_def regs)

lemma fold_reg [regs]: "(\<And>x a. reg (f x a) = reg a) \<Longrightarrow> reg (fold f xs a) = reg a"
  by (induction xs arbitrary: a) simp_all

lemma PushConfig_reg [regs]: "reg (snd (PushConfig now i a)) = reg a"
proof -
  obtain r1 a1 where s1: "on_store (GetNode now i) a = (r1, a1)" by fastforce
  obtain r2 a2 where s2: "on_store (UsersForNode i) a1 = (r2, a2)" by fastforce
  from on_store_reg [OF s1] on_store_reg [OF s2] show ?thesis
    by (simp add: PushConfig_def s1 s2 regs split: option.split sum.split)
qed

lemma sync_reg [regs]: "reg (syncNode H now i a) = reg a" "reg (forceSyncNode H now i a) = reg a"
proof -
  obtain r a1 where s1: "on_store (UsersForNode i) a = (r, a1)" by fastforce
  from on_store_reg [OF s1] show "reg (syncNode H now i a) = reg a" "reg (forceSyncNode H now i a) = reg a"
    by (simp_all add: syncNode_def forceSyncNode_def s1 Let_def split_def regs split: sum.split)
qed

lemma ingest_items_reg: "reg (snd (snd (fold (ingest_item now n al) its (u, d, a)))) = reg a"
proof (induction its arbitrary: u d a)
  case (Cons it its)
  obtain u1 d1 a1 where one: "ingest_item now n al it (u, d, a) = (u1, d1, a1)" by (rule prod_cases3)
  then have "reg a1 = reg a" by (auto simp: ingest_item_def regs split: if_splits option.splits)
  with Cons.IH [of u1 d1 a1] one show ?case by simp
qed simp

lemma ingestTraffic_reg [regs]: "reg (ingestTraffic H now n q its a) = reg a"
proof -
  obtain r1 a1 where s1: "on_store (NodeTrafficSeq n) a = (r1, a1)" by fastforce
  obtain r2 a2 where s2: "on_store (UsersForNode n) a1 = (r2, a2)" by fastforce
  from on_store_reg [OF s1] on_store_reg [OF s2] show ?thesis
    by (simp add: ingestTraffic_def s1 s2 Let_def split_def regs ingest_items_reg split: sum.split)
qed

lemma ingestDevices_reg [regs]: "reg (ingestDevices now n its a) = reg a"
proof -
  obtain r a1 where s1: "on_store (UsersForNode n) a = (r, a1)" by fastforce
  have "reg (ingest_device now n al it a) = reg a" for al it a
    by (simp add: ingest_device_def Let_def regs split: option.split)
  with on_store_reg [OF s1] show ?thesis
    by (simp add: ingestDevices_def s1 regs split: sum.split)
qed

lemma readMsg_reg [regs]: "reg (readMsg H now n c m a) = reg a"
  by (simp add: readMsg_def Let_def regs split: msg_type.split option.split)

lemma enforcementTick_reg [regs]: "reg (enforcementTick H now ids a) = reg a"
proof -
  obtain r a1 where s1: "on_store ListUsers (fold (syncNode H now) ids a) = (r, a1)" by fastforce
  from on_store_reg [OF s1] show ?thesis
    by (simp add: enforcementTick_def checkUserTransitions_def s1 regs split: sum.split)
qed

lemma reset_user_reg: "reg (reset_user H now usr a) = reg a"
proof -
  obtain r a1 where s1: "on_store (ResetUserTraffic (ID usr)) a = (r, a1)" by fastforce
  from on_store_reg [OF s1] show ?thesis by (simp add: reset_user_def s1 regs split: sum.split)
qed

lemma autoResetCheck_reg [regs]: "reg (autoResetCheck H now a) = reg a"
proof -
  obtain r a1 where s1: "on_store ListUsers a = (r, a1)" by fastforce
  from on_store_reg [OF s1] show ?thesis by (simp add: autoResetCheck_def s1 regs reset_user_reg split: sum.split)
qed

lemma offlineTimerFires_reg [regs]: "reg (offlineTimerFires now i a) = reg a"
proof -
  obtain r a1 where s1: "on_store (GetNode now i) a = (r, a1)" by fastforce
  from on_store_reg [OF s1] show ?thesis by (simp add: offlineTimerFires_def s1 regs split: sum.split)
qed

subsection \<open>Runs of the panel\<close>

inductive hub_step :: "(string \<Rightarrow> string) \<Rightarrow> app \<Rightarrow> app \<Rightarrow> bool" for H where
  Connect: "handleWS H now rg a = (r, a') \<Longrightarrow> hub_step H a a'"
| Message: "hub_step H a (readMsg H now n c m a)"
| Write: "hub_step H a (snd (writeNext c a))"
| Leave: "conn_view a c = Some (n, b) \<Longrightarrow> hub_step H a (unregister n c a)"
| Provision: "hub_step H a (syncNode H now n a)"
| Reprovision: "hub_step H a (forceSyncNode H now n a)"
| Enforce: "hub_step H a (enforcementTick H now ids a)"
| MonthlyReset: "hub_step H a (autoResetCheck H now a)"
| OfflineTimer: "hub_step H a (offlineTimerFires now n a)"
| Database: "hub_step H a (do_store (m :: unit sql) a)"

definition registry_ok :: "app \<Rightarrow> bool" where
  "registry_ok a \<longleftrightarrow> (\<forall>n c. map_of (a_conns a) n = Some c \<longleftrightarrow> conn_view a c = Some (n, False)) \<and>
     (\<forall>c. conn_view a c \<noteq> None \<longrightarrow> c < a_next a)"

lemma registry_reg: "reg a' = reg a \<Longrightarrow> registry_ok a' = registry_ok a"
  by (simp add: registry_ok_def reg_def)

lemma registry_keep: "registry_ok a \<Longrightarrow> reg a' = reg a \<Longrightarrow> registry_ok a'"
  by (simp add: registry_ok_def reg_def)

lemma registryI:
  assumes "\<And>n c. map_of (a_conns a) n = Some c \<Longrightarrow> conn_view a c = Some (n, False)"
    and "\<And>n c. conn_view a c = Some (n, False) \<Longrightarrow> map_of (a_conns a) n = Some c"
    and "\<And>p c. conn_view a c = Some p \<Longrightarrow> c < a_next a"
  shows "registry_ok a"
  unfolding registry_ok_def
proof (intro conjI allI impI)
  show "(map_of (a_conns a) n = Some c) = (conn_view a c = Some (n, False))" for n c
    using assms(1,2) by blast
  show "conn_view a c \<noteq> None \<Longrightarrow> c < a_next a" for c
    using assms(3) by blast
qed

lemma registryD:
  assumes "registry_ok a"
  shows "map_of (a_conns a) n = Some c \<Longrightarrow> conn_view a c = Some (n, False)"
    "conn_view a c = Some (n, False) \<Longrightarrow> map_of (a_conns a) n = Some c"
    "conn_view a c = Some p \<Longrightarrow> c < a_next a" "conn_view a (a_next a) = None"
proof -
  show "map_of (a_conns a) n = Some c \<Longrightarrow> conn_view a c = Some (n, False)"
    "conn_view a c = Some (n, False) \<Longrightarrow> map_of (a_conns a) n = Some c"
    using assms by (simp_all add: registry_ok_def)
  have bound: "conn_view a c = Some p \<Longrightarrow> c < a_next a" for c p
    using assms by (auto simp: registry_ok_def)
  then show "conn_view a c = Some p \<Longrightarrow> c < a_next a" .
  show "conn_view a (a_next a) = None"
    using bound [of "a_next a"] by (cases "conn_view a (a_next a)") auto
qed

lemma conn_close_view: "a_conns (conn_close c a) = a_conns a" "a_next (conn_close c a) = a_next a"
  "conn_view (conn_close c a) d = (if d = c then map_option (\<lambda>(n, _). (n, True)) (conn_view a c) else conn_view a d)"
  by (auto simp: conn_close_def conn_view_def update_conv' split: option.split)

lemma conns_view: "conn_view (a\<lparr>a_conns := x\<rparr>) d = conn_view a d"
  by (simp add: conn_view_def)

lemma unregister_registry:
  assumes ok: "registry_ok a" and c: "conn_view a c = Some (n, b)"
  shows "registry_ok (unregister n c a)"
proof (cases "map_of (a_conns a) n = Some c")
  case True
  have "registry_ok (conn_close c (a\<lparr>a_conns := AList.delete n (a_conns a)\<rparr>))"
  proof (rule registryI)
    fix m d assume "conn_view (conn_close c (a\<lparr>a_conns := AList.delete n (a_conns a)\<rparr>)) d = Some (m, False)"
    then have d: "d \<noteq> c" "conn_view a d = Some (m, False)" by (auto simp: conn_close_view conns_view split: if_splits)
    with True registryD(2) [OF ok] have "m \<noteq> n" by fastforce
    with registryD(2) [OF ok d(2)] show "map_of (a_conns (conn_close c (a\<lparr>a_conns := AList.delete n (a_conns a)\<rparr>))) m = Some d"
      by (simp add: conn_close_view)
  qed (use c registryD(1,3) [OF ok] in \<open>auto simp: conn_close_view conns_view delete_conv' restrict_map_def split: if_splits\<close>)
  with True show ?thesis by (simp add: unregister_def Let_def registry_reg [OF small_reg(6)])
next
  case False
  then have "b" using c registryD(2) [OF ok, of c n] by (cases b) auto
  with False c have "unregister n c a = conn_close c a" "conn_view (conn_close c a) = conn_view a"
    by (auto simp: unregister_def Let_def conn_close_view fun_eq_iff)
  with ok show ?thesis by (simp add: registry_ok_def conn_close_view(1,2))
qed

lemma register_registry:
  assumes ok: "registry_ok a"
  shows "registry_ok (register n (a_next a) (snd (new_conn n a)))"
proof -
  let ?a = "snd (new_conn n a)"
  have new: "a_conns ?a = a_conns a" "a_next ?a = a_next a + 1"
    "conn_view ?a d = (if d = a_next a then Some (n, False) else conn_view a d)" for d
    by (simp_all add: new_conn_def conn_view_def update_conv')
  define b where "b = (case map_of (a_conns a) n of None \<Rightarrow> ?a | Some old \<Rightarrow> conn_close old ?a)"
  have b: "a_conns b = a_conns a" "a_next b = a_next a + 1"
    by (simp_all add: b_def new conn_close_view split: option.split)
  have view: "conn_view b d = Some (m, False) \<longleftrightarrow> (if d = a_next a then m = n else m \<noteq> n \<and> conn_view a d = Some (m, False))" for d m
  proof (cases "map_of (a_conns a) n")
    case None
    then have "conn_view a d \<noteq> Some (n, False)" using registryD(2) [OF ok, of d n] by auto
    with None show ?thesis by (auto simp: b_def new)
  next
    case (Some old)
    have v: "conn_view a old = Some (n, False)" by (rule registryD(1) [OF ok Some])
    then have old: "old \<noteq> a_next a" "conn_view a old = Some (n, False)"
      using registryD(4) [OF ok] by auto
    have other: "m \<noteq> n" if "conn_view a d = Some (m, False)" "d \<noteq> old"
      using registryD(2) [OF ok that(1)] Some that(2) by auto
    have "conn_view b d = (if d = old then Some (n, True) else if d = a_next a then Some (n, False) else conn_view a d)"
      by (simp add: b_def Some conn_close_view new old)
    then show ?thesis
      by (cases "d = a_next a"; cases "d = old") (use old other in auto)
  qed
  have dom: "d < a_next a + 1" if "conn_view b d = Some p" for d p
  proof -
    from that have "d = a_next a \<or> conn_view a d \<noteq> None"
      by (auto simp: b_def new conn_close_view split: option.splits if_splits)
    with registryD(3) [OF ok, of d] show ?thesis by fastforce
  qed
  have "registry_ok (b\<lparr>a_conns := AList.update n (a_next a) (a_conns b)\<rparr>)"
  proof (rule registryI)
    fix m d assume "map_of (a_conns (b\<lparr>a_conns := AList.update n (a_next a) (a_conns b)\<rparr>)) m = Some d"
    then show "conn_view (b\<lparr>a_conns := AList.update n (a_next a) (a_conns b)\<rparr>) d = Some (m, False)"
      using registryD(1) [OF ok, of m d] registryD(4) [OF ok] by (auto simp: conns_view view update_conv' b split: if_splits)
  next
    fix m d assume "conn_view (b\<lparr>a_conns := AList.update n (a_next a) (a_conns b)\<rparr>) d = Some (m, False)"
    then show "map_of (a_conns (b\<lparr>a_conns := AList.update n (a_next a) (a_conns b)\<rparr>)) m = Some d"
      using registryD(2) [OF ok, of d m] by (simp add: conns_view view update_conv' b split: if_splits)
  qed (simp add: conns_view b, drule dom, simp)
  then show ?thesis by (simp add: register_def Let_def b_def new)
qed

lemma handleWS_registry:
  assumes w: "handleWS H now rg a = (r, a')" and ok: "registry_ok a"
  shows "registry_ok a'"
proof -
  obtain g a1 where s1: "on_store (GetNodeByToken now (m_token rg)) a = (g, a1)" by fastforce
  have ok1: "registry_ok a1" using ok registry_reg [OF on_store_reg [OF s1]] by simp
  show ?thesis
  proof (cases "m_type rg \<noteq> TypeRegister \<or> (\<exists>e. g = Inl e)")
    case True
    with w s1 have "a' = a \<or> a' = a1" by (auto simp: handleWS_def split: if_splits)
    with ok ok1 show ?thesis by blast
  next
    case False
    then obtain nd where nd: "g = Inr nd" by (cases g) auto
    have "reg a' = reg (register (n_ID nd) (a_next a1) (snd (new_conn (n_ID nd) a1)))"
      using w s1 False nd by (auto simp: handleWS_def Let_def split_def new_conn_def regs)
    then show ?thesis by (rule registry_keep [OF register_registry [OF ok1]])
  qed
qed

lemma hub_step_registry: "hub_step H a a' \<Longrightarrow> registry_ok a \<Longrightarrow> registry_ok a'"
proof (induction rule: hub_step.induct)
  case (Connect now rg a r a')
  then show ?case by (rule handleWS_registry)
next
  case (Leave a c n b)
  then show ?case using unregister_registry by blast
qed (erule registry_keep, simp add: regs)+

text \<open>C10. One live connection per node. After any run of the panel from its start (nodes connecting,
  reconnecting before the old handler has noticed, and leaving in any order; messages, provisioning,
  the periodic tasks and database calls in between, the engine failing or not), the registry and the
  open connections agree: a connection is registered for a node exactly when it is that node's and
  open. So a node never has two open connections, a handler that ends late cannot remove its
  successor, and no configuration goes to a connection that was replaced.\<close>

theorem one_connection_per_node:
  assumes "(hub_step H)\<^sup>*\<^sup>* (boot_app s tok adms) a"
  shows "map_of (a_conns a) n = Some c \<longleftrightarrow> (\<exists>cn. map_of (a_heap a) c = Some cn \<and> cn_node cn = n \<and> \<not> cn_closed cn)"
proof -
  have start: "registry_ok (boot_app s tok adms)" by (simp add: registry_ok_def boot_app_def conn_view_def)
  from assms have "registry_ok a"
    by (induction rule: rtranclp_induct) (auto intro: start hub_step_registry)
  then show ?thesis by (auto simp: registry_ok_def conn_view_def)
qed

definition reconnect :: "app \<Rightarrow> app" where
  "reconnect a = snd (handleWS (\<lambda>s. s) 9 ((zero_msg TypeRegister)\<lparr>m_token := ''t''\<rparr>) a)"

theorem one_connection_per_node_witness:
  "\<exists>cn. map_of (a_heap (reconnect (sample_panel []))) 0 = Some cn \<and> cn_node cn = 1 \<and> \<not> cn_closed cn"
proof -
  have "hub_step (\<lambda>s. s) (sample_panel []) (reconnect (sample_panel []))"
    unfolding reconnect_def by (rule Connect) (rule prod.collapse [symmetric])
  then have run: "(hub_step (\<lambda>s. s))\<^sup>*\<^sup>* (sample_panel []) (reconnect (sample_panel []))" by (rule r_into_rtranclp)
  have "map_of (a_conns (reconnect (sample_panel []))) 1 = Some 0" by code_simp
  then show ?thesis
    unfolding one_connection_per_node [OF run [unfolded sample_panel_def], folded sample_panel_def] .
qed

end
