(* ===== verification/Resets.thy ===== *)
theory Resets
  imports Quiet Samples
begin

section \<open>Monthly quota resets (internal/panel/traffic.go)\<close>

text \<open>
  When a reset is due, and what one pass over the users does to the database: the due users start
  from zero, nobody else is touched, and no user is reset twice in a month.
\<close>

subsection \<open>The schedule\<close>

definition month_of :: "int \<Rightarrow> int \<times> int" where
  "month_of now = (let (y, m, _) = civil_of_days (now div 86400) in (y, m))"

text \<open>The instant of the month's reset: its day clamped to the length of the month.\<close>

definition reset_instant :: "int \<times> int \<Rightarrow> int \<Rightarrow> int" where
  "reset_instant ym day = days_of_civil (fst ym) (snd ym) (min day (days_in_month (fst ym) (snd ym))) * 86400"

lemma due_iff: "monthlyResetDue now day lst =
    (if 1 \<le> day \<and> lst < reset_instant (month_of now) day \<and> reset_instant (month_of now) day \<le> now
     then Some (reset_instant (month_of now) day) else None)"
  by (auto simp: monthlyResetDue_def month_of_def reset_instant_def Let_def min_def split: prod.split)

lemma due_once:
  "monthlyResetDue now day lst \<noteq> None \<Longrightarrow> month_of now' = month_of now \<Longrightarrow> monthlyResetDue now' day now = None"
  by (auto simp: due_iff split: if_splits)

subsection \<open>The effect of a reset\<close>

definition reset_due :: "int \<Rightarrow> user_row \<Rightarrow> bool" where
  "reset_due now r \<longleftrightarrow> monthlyResetDue now (ur_reset_day r) (ur_last_reset r) \<noteq> None"

definition fresh_month :: "int \<Rightarrow> user_row \<Rightarrow> user_row" where
  "fresh_month now r = r\<lparr>ur_data_used := 0, ur_last_reset := now\<rparr>"

definition reset_ids :: "int \<Rightarrow> int set \<Rightarrow> db \<Rightarrow> db" where
  "reset_ids now is d = d\<lparr>users := upd_where (\<lambda>r. ur_id r \<in> is) (fresh_month now) (users d),
     node_traffic := del_where (\<lambda>t. tr_user t \<in> is) (node_traffic d)\<rparr>"

lemma reset_ids_empty: "reset_ids now {} d = d"
  by (simp add: reset_ids_def upd_where_def del_where_def)

lemma reset_ids_twice: "reset_ids now is (reset_ids now js d) = reset_ids now (is \<union> js) d"
proof -
  have "upd_where (\<lambda>r. ur_id r \<in> is) (fresh_month now) (upd_where (\<lambda>r. ur_id r \<in> js) (fresh_month now) rs) =
      upd_where (\<lambda>r. ur_id r \<in> is \<union> js) (fresh_month now) rs" for rs
    by (induction rs) (auto simp: fresh_month_def)
  moreover have "del_where (\<lambda>t. tr_user t \<in> is) (del_where (\<lambda>t. tr_user t \<in> js) ts) = del_where (\<lambda>t. tr_user t \<in> is \<union> js) ts" for ts :: "traffic_row list"
    by (simp add: del_where_def conj_commute)
  ultimately show ?thesis by (simp add: reset_ids_def)
qed

lemma two_updates: "upd_where P f (upd_where P g rs) = upd_where P (\<lambda>r. f (g r)) rs" if "\<And>r. P (g r) = P r"
  by (induction rs) (auto simp: that)

lemma reset_user_tables:
  assumes nf: "no_faults (a_store a)"
  shows "a_store (reset_user H now u a) = (a_store a)\<lparr>tables :=
    reset_ids now (if monthlyResetDue now (ResetDay u) (LastReset u) = None then {} else {ID u}) (tables (a_store a))\<rparr>"
proof (cases "monthlyResetDue now (ResetDay u) (LastReset u)")
  case None
  then show ?thesis by (simp add: reset_user_def reset_ids_empty)
next
  case (Some i)
  let ?a1 = "snd (on_store (ResetUserTraffic (ID u)) a)"
  let ?a2 = "do_store (SetUserLastReset (ID u) now) ?a1"
  have r1: "ResetUserTraffic (ID u) (a_store a) = (Inr (), (a_store a)\<lparr>tables := (tables (a_store a))\<lparr>
      users := upd_where (\<lambda>r. ur_id r = ID u) (\<lambda>r. r\<lparr>ur_data_used := 0\<rparr>) (users (tables (a_store a))),
      node_traffic := del_where (\<lambda>t. tr_user t = ID u) (node_traffic (tables (a_store a)))\<rparr>\<rparr>)"
    using nf by (simp add: ResetUserTraffic_def tx_nofault upd_user_def)
  have a2: "a_store ?a2 = (a_store a)\<lparr>tables := reset_ids now {ID u} (tables (a_store a))\<rparr>"
    using nf by (simp add: do_store_store on_store_def r1 SetUserLastReset_def exec_nofault upd_user_def two_updates
        reset_ids_def fresh_month_def [abs_def])
  have "no_faults (a_store ?a2)" using nf by (simp add: a2)
  then have "a_store (fold (syncNode H now) (NodeIDs u) ?a2) = a_store ?a2"
    by (intro quietD(1) quiet_fold syncNode_quiet)
  moreover have "reset_user H now u a = fold (syncNode H now) (NodeIDs u) ?a2"
    by (simp add: reset_user_def Some on_store_def r1)
  ultimately show ?thesis by (simp add: Some a2)
qed

lemma reset_users_tables:
  "no_faults (a_store a) \<Longrightarrow> a_store (fold (reset_user H now) us a) = (a_store a)\<lparr>tables :=
    reset_ids now (ID ` {u \<in> set us. monthlyResetDue now (ResetDay u) (LastReset u) \<noteq> None}) (tables (a_store a))\<rparr>"
proof (induction us arbitrary: a)
  case Nil
  then show ?case by (simp add: reset_ids_empty)
next
  case (Cons u us)
  let ?due = "\<lambda>u. monthlyResetDue now (ResetDay u) (LastReset u) \<noteq> None"
  have "ID ` {v \<in> set (u # us). ?due v} = ID ` {v \<in> set us. ?due v} \<union> (if \<not> ?due u then {} else {ID u})"
    by auto
  then show ?case
    using Cons.IH [of "reset_user H now u a"] Cons.prems
    by (simp add: reset_user_tables reset_ids_twice)
qed

lemma mapM_nofault:
  "(\<And>x. x \<in> set xs \<Longrightarrow> f x s = (Inr (g x), s)) \<Longrightarrow> sql_mapM f xs s = (Inr (map g xs), s)"
  by (induction xs) (simp_all add: sql_return_def sql_bind_def)

definition listed_users :: "db \<Rightarrow> user list" where
  "listed_users d = map (\<lambda>r. (user_of_row r)\<lparr>NodeIDs := node_ids_of (ur_id r) d\<rparr>) (sort_key ur_id (users d))"

lemma ListUsers_nofault: "no_faults s \<Longrightarrow> ListUsers s = (Inr (listed_users (tables s)), s)"
proof -
  assume nf: "no_faults s"
  let ?g = "\<lambda>u. u\<lparr>NodeIDs := node_ids_of (ID u) (tables s)\<rparr>"
  have "sql_mapM (\<lambda>u. sql_bind (userNodeIDs (ID u)) (\<lambda>ids. sql_return (u\<lparr>NodeIDs := ids\<rparr>)))
      (map user_of_row (sort_key ur_id (users (tables s)))) s = (Inr (map ?g (map user_of_row (sort_key ur_id (users (tables s))))), s)"
    using nf by (intro mapM_nofault) (simp add: sql_bind_def userNodeIDs_def query_nofault sql_return_def)
  then show ?thesis
    using nf by (simp add: ListUsers_def sql_bind_def query_nofault listed_users_def user_of_row_def comp_def)
qed

definition month_reset :: "int \<Rightarrow> db \<Rightarrow> db" where
  "month_reset now d = d\<lparr>users := upd_where (reset_due now) (fresh_month now) (users d),
     node_traffic := del_where (\<lambda>t. \<exists>r \<in> set (users d). ur_id r = tr_user t \<and> reset_due now r) (node_traffic d)\<rparr>"

lemma image_of_map: "f ` {u. u \<in> g ` S \<and> P u} = (\<lambda>x. f (g x)) ` {x \<in> S. P (g x)}"
  by auto

lemma autoResetCheck_tables:
  assumes nf: "no_faults (a_store a)" and ok: "db_ok (tables (a_store a))"
  shows "a_store (autoResetCheck H now a) = (a_store a)\<lparr>tables := month_reset now (tables (a_store a))\<rparr>"
proof -
  let ?d = "tables (a_store a)"
  let ?is = "ID ` {u \<in> set (listed_users ?d). monthlyResetDue now (ResetDay u) (LastReset u) \<noteq> None}"
  have "?is = ur_id ` {r \<in> set (users ?d). reset_due now r}"
    by (simp add: listed_users_def reset_due_def user_of_row_def image_of_map)
  moreover have "(ur_id r \<in> ur_id ` {r \<in> set (users ?d). reset_due now r}) = reset_due now r" if "r \<in> set (users ?d)" for r
    using ok that by (auto simp: db_ok_defs distinct_map dest: inj_onD)
  ultimately have "upd_where (\<lambda>r. ur_id r \<in> ?is) (fresh_month now) (users ?d) = upd_where (reset_due now) (fresh_month now) (users ?d)"
    and "(ID (x :: user) \<in> ?is) = (ID x \<in> ?is)" and mem: "(i \<in> ?is) = (\<exists>r \<in> set (users ?d). ur_id r = i \<and> reset_due now r)" for x i
    by (auto simp: upd_where_def intro!: map_cong)
  then have "reset_ids now ?is ?d = month_reset now ?d"
    by (simp add: reset_ids_def month_reset_def mem del: mem_Collect_eq image_iff)
  with reset_users_tables [OF nf, of H now "listed_users ?d"] nf show ?thesis
    by (simp add: autoResetCheck_def on_store_def ListUsers_nofault)
qed

lemma fresh_not_due: "reset_due now r \<Longrightarrow> month_of now' = month_of now \<Longrightarrow> \<not> reset_due now' (fresh_month now r)"
  using due_once [of now "ur_reset_day r" "ur_last_reset r" now'] by (simp add: reset_due_def fresh_month_def)

lemma month_reset_row:
  assumes "month_of now' = month_of now" "r \<in> set (users d)" "reset_due now r"
  shows "fresh_month now r \<in> set (users (month_reset now' (month_reset now d)))"
proof -
  have "fresh_month now r \<in> set (users (month_reset now d))"
    using assms(2,3) by (force simp: month_reset_def set_upd_where)
  with fresh_not_due [OF assms(3,1)] show ?thesis
    by (force simp: month_reset_def [of now'] set_upd_where)
qed

lemma month_reset_ok: "db_ok d \<Longrightarrow> db_ok (month_reset now d)"
proof -
  assume ok: "db_ok d"
  have "map ur_id (upd_where (reset_due now) (fresh_month now) (users d)) = map ur_id (users d)"
    "map ur_username (upd_where (reset_due now) (fresh_month now) (users d)) = map ur_username (users d)"
    "map ur_sub_token (upd_where (reset_due now) (fresh_month now) (users d)) = map ur_sub_token (users d)"
    by (rule map_upd_where; simp add: fresh_month_def)+
  then show ?thesis
    using ok by (auto simp: month_reset_def db_ok_defs fresh_month_def set_upd_where distinct_del_where)
qed

text \<open>C19. One pass of the monthly reset, on a sound database with no engine failure: every user whose
  reset day (clamped to the length of the month) has come this month and who has not been reset since
  starts from zero usage, with the reset recorded and its per-node traffic cleared; every other user and
  everything else in the database is as before. Nobody is reset twice in a month: a later pass in
  the same month leaves the rows of the users this one reset as it finds them.\<close>

theorem monthly_reset:
  assumes "no_faults (a_store a)" "db_ok (tables (a_store a))" "a' = autoResetCheck H now a"
    and "month_of now' = month_of now"
  shows "tables (a_store a') = (tables (a_store a))\<lparr>
      users := map (\<lambda>r. if 1 \<le> ur_reset_day r \<and> ur_last_reset r < reset_instant (month_of now) (ur_reset_day r) \<and>
                          reset_instant (month_of now) (ur_reset_day r) \<le> now
                       then r\<lparr>ur_data_used := 0, ur_last_reset := now\<rparr> else r) (users (tables (a_store a))),
      node_traffic := filter (\<lambda>t. \<forall>r \<in> set (users (tables (a_store a))). ur_id r = tr_user t \<longrightarrow> \<not> reset_due now r)
        (node_traffic (tables (a_store a)))\<rparr> \<and>
    (\<forall>r \<in> set (users (tables (a_store a))). reset_due now r \<longrightarrow>
       r\<lparr>ur_data_used := 0, ur_last_reset := now\<rparr> \<in> set (users (tables (a_store (autoResetCheck H now' a')))))"
proof -
  have a': "a_store a' = (a_store a)\<lparr>tables := month_reset now (tables (a_store a))\<rparr>"
    using autoResetCheck_tables [OF assms(1,2)] by (simp add: assms(3))
  have "db_ok (month_reset now (tables (a_store a)))" by (rule month_reset_ok) (rule assms(2))
  then have "a_store (autoResetCheck H now' a') = (a_store a')\<lparr>tables := month_reset now' (tables (a_store a'))\<rparr>"
    using assms(1) by (intro autoResetCheck_tables) (simp_all add: a')
  then have "\<forall>r \<in> set (users (tables (a_store a))). reset_due now r \<longrightarrow>
       r\<lparr>ur_data_used := 0, ur_last_reset := now\<rparr> \<in> set (users (tables (a_store (autoResetCheck H now' a'))))"
    using month_reset_row [OF assms(4)] by (simp add: a' fresh_month_def)
  moreover have due: "(1 \<le> ur_reset_day r \<and> ur_last_reset r < reset_instant (month_of now) (ur_reset_day r) \<and>
      reset_instant (month_of now) (ur_reset_day r) \<le> now) = reset_due now r" for r
    by (simp add: reset_due_def due_iff)
  moreover have "filter (\<lambda>t. \<forall>r \<in> set us. ur_id r = tr_user t \<longrightarrow> \<not> reset_due now r) ts =
      del_where (\<lambda>t. \<exists>r \<in> set us. ur_id r = tr_user t \<and> reset_due now r) ts" for us and ts :: "traffic_row list"
    by (simp add: del_where_def)
  ultimately show ?thesis
    by (simp add: due a' month_reset_def upd_where_def fresh_month_def [symmetric])
qed

text \<open>The sample panel with a user to be reset on the 31st, at the end of February 1970.\<close>

definition resetting_panel :: app where
  "resetting_panel = (sample_panel [])\<lparr>a_store := \<lparr>tables = sample_db\<lparr>users :=
     map (\<lambda>u. u\<lparr>ur_data_used := 500, ur_reset_day := 31, ur_last_reset := 7\<rparr>) (users sample_db)\<rparr>, faults = [], crypt = None\<rparr>\<rparr>"

theorem monthly_reset_witness:
  "map ur_data_used (users (tables (a_store (autoResetCheck (\<lambda>s. s) (58 * 86400) resetting_panel)))) = [0] \<and>
   map ur_data_used (users (tables (a_store (autoResetCheck (\<lambda>s. s) (57 * 86400) resetting_panel)))) = [500]"
proof -
  have ok: "no_faults (a_store resetting_panel)" "db_ok (tables (a_store resetting_panel))"
    by (simp_all add: resetting_panel_def sample_db_def no_faults_def db_ok_defs empty_db_def)
  note run = monthly_reset [OF ok refl refl, of "\<lambda>s. s"]
  have "users (tables (a_store resetting_panel)) =
      map (\<lambda>u. u\<lparr>ur_data_used := 500, ur_reset_day := 31, ur_last_reset := 7\<rparr>) (users sample_db)"
    by (simp add: resetting_panel_def)
  moreover have "reset_instant (month_of (58 * 86400)) 31 = 58 * 86400" "reset_instant (month_of (57 * 86400)) 31 = 58 * 86400"
    by code_simp+
  ultimately show ?thesis
    using run [of "58 * 86400", THEN conjunct1] run [of "57 * 86400", THEN conjunct1] by (simp add: sample_db_def empty_db_def)
qed

end
