(* ===== verification/Pending.thy ===== *)
theory Pending
  imports Wire
begin

section \<open>The agent's durable traffic buffer (internal/agent/pending.go)\<close>

text \<open>
  \<open>pendingTraffic\<close> keeps the traffic that Xray's read-and-reset counters no longer hold:
  \<open>Pend\<close> is collected but not yet batched, \<open>Flight\<close> is the batch on its way to the panel,
  \<open>Seq\<close> its number. The state is explicit, and so is the file it is persisted to:
  an operation takes the file and whether the write succeeds, and returns the new file.
  The interface the session loop relies on is the locale \<open>durable_buffer\<close>, interpreted at the
  end on this model.
\<close>

subsection \<open>State and persistence\<close>

record pair =
  p_up :: int
  p_down :: int

type_synonym pair_map = "(string \<times> pair) list"

record pendingTraffic =
  pt_path :: string
  pt_Seq :: int
  pt_Flight :: pair_map
  pt_FlightAt :: bool
  pt_Pend :: pair_map

text \<open>
  The JSON object of the file; a field that is missing or null is \<open>None\<close>. A file that is not
  JSON leaves the decoded value untouched (the error is discarded).
\<close>

record pending_json =
  pj_seq :: "int option"
  pj_flight :: "pair_map option"
  pj_flight_at :: "bool option"
  pj_pend :: "pair_map option"

datatype pending_file = Missing | Garbage | Json pending_json

definition fresh_pending :: "string \<Rightarrow> pendingTraffic" where
  "fresh_pending path =
     \<lparr>pt_path = path, pt_Seq = 0, pt_Flight = [], pt_FlightAt = False, pt_Pend = []\<rparr>"

fun or_default :: "'a \<Rightarrow> 'a option \<Rightarrow> 'a" where
  "or_default d None = d"
| "or_default d (Some x) = x"

fun loadPending :: "string \<Rightarrow> pending_file \<Rightarrow> pendingTraffic" where
  "loadPending path Missing = fresh_pending path"
| "loadPending path Garbage = fresh_pending path"
| "loadPending path (Json j) =
     \<lparr>pt_path = path, pt_Seq = or_default 0 (pj_seq j), pt_Flight = or_default [] (pj_flight j),
      pt_FlightAt = or_default False (pj_flight_at j), pt_Pend = or_default [] (pj_pend j)\<rparr>"

text \<open>
  \<open>save\<close> writes a temporary file and renames it; \<open>wok\<close> says whether both succeed. If either
  fails, the old file stays, and the error is discarded.
\<close>

definition save :: "bool \<Rightarrow> pendingTraffic \<Rightarrow> pending_file \<Rightarrow> pending_file" where
  "save wok p file =
     (if pt_path p = [] then file
      else if wok then Json \<lparr>pj_seq = Some (pt_Seq p), pj_flight = Some (pt_Flight p),
                             pj_flight_at = Some (pt_FlightAt p), pj_pend = Some (pt_Pend p)\<rparr>
      else file)"

subsection \<open>Operations\<close>

definition add_item :: "traffic_item \<Rightarrow> pair_map \<Rightarrow> pair_map" where
  "add_item it dst =
     (if ti_up it = 0 \<and> ti_down it = 0 then dst
      else let e = (case map_of dst (ti_email it) of None \<Rightarrow> \<lparr>p_up = 0, p_down = 0\<rparr> | Some e \<Rightarrow> e)
           in AList.update (ti_email it)
                \<lparr>p_up = wrap64 (p_up e + ti_up it), p_down = wrap64 (p_down e + ti_down it)\<rparr> dst)"

definition mergeInto :: "pair_map \<Rightarrow> traffic_item list \<Rightarrow> pair_map" where
  "mergeInto dst items = fold add_item items dst"

definition collect :: "bool \<Rightarrow> traffic_item list \<Rightarrow> pendingTraffic \<Rightarrow> pending_file
    \<Rightarrow> pendingTraffic \<times> pending_file" where
  "collect wok items p file =
     (if items = [] then (p, file)
      else let p' = p\<lparr>pt_Pend := mergeInto (pt_Pend p) items\<rparr> in (p', save wok p' file))"

definition flight_items :: "pair_map \<Rightarrow> traffic_item list" where
  "flight_items m = map (\<lambda>(e, v). \<lparr>ti_email = e, ti_up = p_up v, ti_down = p_down v\<rparr>) m"

text \<open>
  \<open>batch\<close> ranges over the \<open>Flight\<close> map, in an order Go does not fix; the model uses the order of
  the association list, and the sending step of the protocol admits every permutation of it.
\<close>

definition promote :: "pendingTraffic \<Rightarrow> pendingTraffic" where
  "promote p = p\<lparr>pt_Seq := wrap64 (pt_Seq p + 1), pt_Flight := pt_Pend p, pt_Pend := [],
                 pt_FlightAt := True\<rparr>"

definition batch :: "bool \<Rightarrow> pendingTraffic \<Rightarrow> pending_file
    \<Rightarrow> (int \<times> traffic_item list \<times> bool) \<times> pendingTraffic \<times> pending_file" where
  "batch wok p file =
     (if \<not> pt_FlightAt p \<and> pt_Pend p = [] then ((0, [], False), p, file)
      else let p' = (if pt_FlightAt p then p else promote p);
               file' = (if pt_FlightAt p then file else save wok p' file);
               items = flight_items (pt_Flight p')
           in ((pt_Seq p', items, items \<noteq> []), p', file'))"

definition ack :: "bool \<Rightarrow> int \<Rightarrow> pendingTraffic \<Rightarrow> pending_file \<Rightarrow> pendingTraffic \<times> pending_file" where
  "ack wok seq p file =
     (if pt_FlightAt p \<and> seq = pt_Seq p
      then let p' = p\<lparr>pt_Flight := [], pt_FlightAt := False\<rparr> in (p', save wok p' file)
      else (p, file))"

subsection \<open>What the buffer holds for an account\<close>

definition map_bytes :: "string \<Rightarrow> pair_map \<Rightarrow> int" where
  "map_bytes e m = (case map_of m e of None \<Rightarrow> 0 | Some v \<Rightarrow> p_up v + p_down v)"

definition pairs_ok :: "pair_map \<Rightarrow> bool" where
  "pairs_ok m \<longleftrightarrow> keys_distinct m \<and>
     list_all (\<lambda>(e, v). 0 \<le> p_up v \<and> 0 \<le> p_down v \<and> p_up v + p_down v < 2 ^ 63) m"

definition buffer_inv :: "pendingTraffic \<Rightarrow> bool" where
  "buffer_inv p \<longleftrightarrow> pairs_ok (pt_Flight p) \<and> pairs_ok (pt_Pend p) \<and>
     (\<not> pt_FlightAt p \<longrightarrow> pt_Flight p = []) \<and> (pt_FlightAt p \<longrightarrow> pt_Flight p \<noteq> []) \<and>
     0 \<le> pt_Seq p \<and> (pt_FlightAt p \<longrightarrow> 0 < pt_Seq p) \<and> pt_Seq p < 2 ^ 63"

lemma map_bytes_Nil [simp]: "map_bytes e [] = 0"
  by (simp add: map_bytes_def)

lemma pairs_ok_Nil [simp]: "pairs_ok []"
  by (simp add: pairs_ok_def)

lemma pairs_okD: "pairs_ok m \<Longrightarrow> map_of m e = Some v \<Longrightarrow>
    0 \<le> p_up v \<and> 0 \<le> p_down v \<and> p_up v + p_down v < 2 ^ 63"
  by (auto simp: pairs_ok_def list_all_iff dest: map_of_SomeD)

lemma map_bytes_nonneg: "pairs_ok m \<Longrightarrow> 0 \<le> map_bytes e m"
  using pairs_okD by (fastforce simp: map_bytes_def split: option.splits)


lemma pairs_ok_update:
  assumes "pairs_ok m" and "0 \<le> p_up v" and "0 \<le> p_down v" and "p_up v + p_down v < 2 ^ 63"
  shows "pairs_ok (AList.update e v m)"
  using assms set_alist_update [of e v m]
  unfolding pairs_ok_def list_all_iff by (fastforce simp: distinct_update)

text \<open>Adding one increment: exact as long as the account's total stays within an \<open>int64\<close>.\<close>

lemma add_item_step:
  assumes ok: "pairs_ok m" and up: "0 \<le> ti_up it" and dn: "0 \<le> ti_down it"
    and bound: "map_bytes (ti_email it) m + item_bytes it < 2 ^ 63"
  shows "pairs_ok (add_item it m)"
    and "map_bytes e (add_item it m) = map_bytes e m + (if ti_email it = e then item_bytes it else 0)"
proof -
  define v where "v = (case map_of m (ti_email it) of None \<Rightarrow> \<lparr>p_up = 0, p_down = 0\<rparr> | Some v \<Rightarrow> v)"
  have v: "0 \<le> p_up v" "0 \<le> p_down v" "map_bytes (ti_email it) m = p_up v + p_down v"
    using pairs_okD [OF ok] by (auto simp: v_def map_bytes_def split: option.splits)
  then have nowrap: "wrap64 (p_up v + ti_up it) = p_up v + ti_up it"
      "wrap64 (p_down v + ti_down it) = p_down v + ti_down it"
    using up dn bound by (auto simp: item_bytes_def intro!: wrap64_nonneg)
  show "pairs_ok (add_item it m)"
    using ok up dn v bound nowrap
    by (auto simp: add_item_def Let_def v_def [symmetric] item_bytes_def intro: pairs_ok_update)
  show "map_bytes e (add_item it m) = map_bytes e m + (if ti_email it = e then item_bytes it else 0)"
    using v nowrap
    by (auto simp: add_item_def Let_def v_def [symmetric] item_bytes_def map_bytes_def update_conv')
qed

lemma mergeInto_bytes:
  assumes "pairs_ok m" and "items_nonneg its" and "\<And>e. map_bytes e m + items_bytes e its < 2 ^ 63"
  shows "pairs_ok (mergeInto m its) \<and> map_bytes e (mergeInto m its) = map_bytes e m + items_bytes e its"
  using assms
proof (induction its arbitrary: m)
  case Nil
  then show ?case by (simp add: mergeInto_def)
next
  case (Cons it its)
  from Cons.prems(2) have nn: "0 \<le> items_bytes e its" for e by (simp add: items_bytes_nonneg)
  from Cons.prems(3) [of "ti_email it"] nn [of "ti_email it"]
  have "map_bytes (ti_email it) m + item_bytes it < 2 ^ 63" by simp
  note add_item_step [OF Cons.prems(1) _ _ this]
  with Cons.prems(2) have ok: "pairs_ok (add_item it m)"
    and b: "\<And>e. map_bytes e (add_item it m) = map_bytes e m + (if ti_email it = e then item_bytes it else 0)"
    by simp_all
  have "map_bytes e (add_item it m) + items_bytes e its < 2 ^ 63" for e
    using Cons.prems(3) [of e] by (simp add: b)
  from Cons.IH [OF ok _ this] Cons.prems(2) show ?case
    by (simp add: mergeInto_def b)
qed

lemma add_item_nonempty: "m \<noteq> [] \<Longrightarrow> add_item it m \<noteq> []"
  by (simp add: add_item_def Let_def)

lemma flight_items_bytes: "keys_distinct m \<Longrightarrow> items_bytes e (flight_items m) = map_bytes e m"
proof (induction m)
  case Nil
  then show ?case by (simp add: flight_items_def)
next
  case (Cons kv m)
  have none: "map_of m e = None" if "fst kv = e"
    using Cons.prems that by (simp add: map_of_eq_None_iff)
  from Cons show ?case
    by (auto simp: flight_items_def map_bytes_def item_bytes_def none split: prod.splits)
qed

lemma flight_items_nonneg: "pairs_ok m \<Longrightarrow> items_nonneg (flight_items m)"
  by (auto simp: pairs_ok_def items_nonneg_def flight_items_def list_all_iff)

subsection \<open>The buffer as an interface\<close>

text \<open>
  What the session loop relies on: collected bytes are kept, a batch is resent under its number
  until that number is acknowledged, and nothing but the acknowledgement removes it.
\<close>

locale durable_buffer =
  fixes coll :: "traffic_item list \<Rightarrow> 'b \<Rightarrow> 'b"
    and send :: "'b \<Rightarrow> (int \<times> traffic_item list \<times> bool) \<times> 'b"
    and acked :: "int \<Rightarrow> 'b \<Rightarrow> 'b"
    and reload :: "'b \<Rightarrow> 'b"
    and binv :: "'b \<Rightarrow> bool"
    and seqn :: "'b \<Rightarrow> int"
    and inflight :: "'b \<Rightarrow> bool"
    and flying :: "string \<Rightarrow> 'b \<Rightarrow> int"
    and waiting :: "string \<Rightarrow> 'b \<Rightarrow> int"
  assumes reload: "binv b \<Longrightarrow> reload b = b"
    and seq_nonneg: "binv b \<Longrightarrow> 0 \<le> seqn b"
    and not_flying: "binv b \<Longrightarrow> \<not> inflight b \<Longrightarrow> flying e b = 0"
    and flying_nonneg: "binv b \<Longrightarrow> 0 \<le> flying e b"
    and waiting_nonneg: "binv b \<Longrightarrow> 0 \<le> waiting e b"
    and coll: "binv b \<Longrightarrow> items_nonneg its \<Longrightarrow> (\<And>e. waiting e b + items_bytes e its < 2 ^ 63) \<Longrightarrow>
      binv (coll its b) \<and> seqn (coll its b) = seqn b \<and> inflight (coll its b) = inflight b \<and>
      flying e (coll its b) = flying e b \<and> waiting e (coll its b) = waiting e b + items_bytes e its"
    and resend: "binv b \<Longrightarrow> inflight b \<Longrightarrow> snd (send b) = b"
    and send_batch: "binv b \<Longrightarrow> seqn b < 2 ^ 63 - 1 \<Longrightarrow> send b = ((s, its, True), b') \<Longrightarrow>
      binv b' \<and> inflight b' \<and> s = seqn b' \<and> items_nonneg its \<and> items_bytes e its = flying e b'"
    and send_promote: "binv b \<Longrightarrow> seqn b < 2 ^ 63 - 1 \<Longrightarrow> \<not> inflight b \<Longrightarrow> send b = ((s, its, True), b') \<Longrightarrow>
      seqn b' = seqn b + 1 \<and> flying e b' = waiting e b \<and> waiting e b' = 0"
    and send_nothing: "binv b \<Longrightarrow> send b = ((s, its, False), b') \<Longrightarrow> b' = b"
    and ack_hit: "binv b \<Longrightarrow> inflight b \<Longrightarrow> s = seqn b \<Longrightarrow>
      binv (acked s b) \<and> \<not> inflight (acked s b) \<and> seqn (acked s b) = seqn b \<and>
      waiting e (acked s b) = waiting e b"
    and ack_miss: "binv b \<Longrightarrow> \<not> (inflight b \<and> s = seqn b) \<Longrightarrow> acked s b = b"
    and flight_numbered: "binv b \<Longrightarrow> inflight b \<Longrightarrow> 0 < seqn b"
begin

lemma total_unchanged_by_send:
  assumes "binv b" and "seqn b < 2 ^ 63 - 1" and "send b = (r, b')"
  shows "flying e b' + waiting e b' = flying e b + waiting e b"
proof (cases r)
  case (fields s its ok)
  note r = this
  show ?thesis
  proof (cases ok)
    case False
    with assms r have "b' = b" by (auto dest: send_nothing)
    then show ?thesis by simp
  next
    case True
    show ?thesis
    proof (cases "inflight b")
      case inf: True
      with assms have "b' = b" by (metis resend snd_conv)
      then show ?thesis by simp
    next
      case inf: False
      with assms r True send_promote [of b s its b' e] not_flying [of b e] show ?thesis by simp
    qed
  qed
qed

lemma send_inv:
  assumes "binv b" and "seqn b < 2 ^ 63 - 1"
  shows "binv (snd (send b))"
proof -
  obtain s its ok b' where b': "send b = ((s, its, ok), b')" by (metis prod.exhaust)
  with assms show ?thesis by (cases ok) (auto dest: send_batch send_nothing)
qed

end

subsection \<open>The buffer of the model implements it\<close>

text \<open>
  The implementation state is the buffer with its file. The writes succeed, and a restart is
  \<open>loadPending\<close> on the file.
\<close>

definition pend_coll :: "traffic_item list \<Rightarrow> pendingTraffic \<times> pending_file \<Rightarrow> pendingTraffic \<times> pending_file" where
  "pend_coll items b = collect True items (fst b) (snd b)"

definition pend_send :: "pendingTraffic \<times> pending_file
    \<Rightarrow> (int \<times> traffic_item list \<times> bool) \<times> pendingTraffic \<times> pending_file" where
  "pend_send b = batch True (fst b) (snd b)"

definition pend_ack :: "int \<Rightarrow> pendingTraffic \<times> pending_file \<Rightarrow> pendingTraffic \<times> pending_file" where
  "pend_ack seq b = ack True seq (fst b) (snd b)"

definition pend_restart :: "pendingTraffic \<times> pending_file \<Rightarrow> pendingTraffic \<times> pending_file" where
  "pend_restart b = (loadPending (pt_path (fst b)) (snd b), snd b)"

definition pend_inv :: "pendingTraffic \<times> pending_file \<Rightarrow> bool" where
  "pend_inv b \<longleftrightarrow> buffer_inv (fst b) \<and> pt_path (fst b) \<noteq> [] \<and> loadPending (pt_path (fst b)) (snd b) = fst b"

lemma save_reload: "pt_path p \<noteq> [] \<Longrightarrow> loadPending (pt_path p) (save True p file) = p"
  by (simp add: save_def)

lemma collect_inv:
  assumes "pend_inv b" and "items_nonneg its"
    and "\<And>e. map_bytes e (pt_Pend (fst b)) + items_bytes e its < 2 ^ 63"
  shows "pend_inv (pend_coll its b) \<and>
    map_bytes e (pt_Pend (fst (pend_coll its b))) = map_bytes e (pt_Pend (fst b)) + items_bytes e its"
proof -
  from assms(1) have "pairs_ok (pt_Pend (fst b))" by (simp add: pend_inv_def buffer_inv_def)
  note m = mergeInto_bytes [OF this assms(2,3)]
  let ?p' = "(fst b)\<lparr>pt_Pend := mergeInto (pt_Pend (fst b)) its\<rparr>"
  have "buffer_inv ?p'" using assms(1) m by (simp add: pend_inv_def buffer_inv_def)
  moreover have "loadPending (pt_path (fst b)) (save True ?p' (snd b)) = ?p'"
    using save_reload [of ?p' "snd b"] assms(1) by (simp add: pend_inv_def)
  ultimately show ?thesis
    using assms(1) m by (auto simp: pend_inv_def pend_coll_def collect_def Let_def)
qed

lemma promote_sel [simp]:
  "pt_path (promote p) = pt_path p" "pt_Flight (promote p) = pt_Pend p"
  "pt_Pend (promote p) = []" "pt_FlightAt (promote p)"
  by (simp_all add: promote_def)

lemma promote_inv:
  "buffer_inv p \<Longrightarrow> \<not> pt_FlightAt p \<Longrightarrow> pt_Pend p \<noteq> [] \<Longrightarrow> pt_Seq p < 2 ^ 63 - 1 \<Longrightarrow>
   buffer_inv (promote p) \<and> pt_Seq (promote p) = pt_Seq p + 1"
  by (auto simp: buffer_inv_def promote_def wrap64_nonneg)

lemma send_cases:
  assumes "pend_inv b" and "pt_Seq (fst b) < 2 ^ 63 - 1" and "pend_send b = ((s, its, ok), b')"
  shows "(ok = (pt_FlightAt (fst b) \<or> pt_Pend (fst b) \<noteq> [])) \<and> pend_inv b' \<and>
    fst b' = (if pt_FlightAt (fst b) \<or> \<not> ok then fst b else promote (fst b)) \<and>
    (pt_FlightAt (fst b) \<or> \<not> ok \<longrightarrow> b' = b) \<and>
    (ok \<longrightarrow> s = pt_Seq (fst b') \<and> its = flight_items (pt_Flight (fst b')))"
proof -
  obtain p d where b: "b = (p, d)" by (cases b)
  note inv = assms(1)[unfolded b pend_inv_def, simplified]
  consider (none) "\<not> pt_FlightAt p" "pt_Pend p = []" | (again) "pt_FlightAt p"
    | (new) "\<not> pt_FlightAt p" "pt_Pend p \<noteq> []" by blast
  then show ?thesis
  proof cases
    case none
    with assms b show ?thesis by (auto simp: pend_send_def batch_def)
  next
    case again
    with inv have "flight_items (pt_Flight p) \<noteq> []" by (simp add: buffer_inv_def flight_items_def)
    with again assms b show ?thesis by (auto simp: pend_send_def batch_def)
  next
    case new
    with inv assms b have "buffer_inv (promote p)" using promote_inv by simp
    moreover have "loadPending (pt_path p) (save True (promote p) d) = promote p"
      using save_reload [of "promote p" d] inv by simp
    moreover have "flight_items (pt_Flight (promote p)) \<noteq> []"
      using new by (simp add: flight_items_def)
    ultimately show ?thesis
      using new assms b by (auto simp: pend_send_def batch_def pend_inv_def Let_def)
  qed
qed

lemma ack_cases:
  assumes "pend_inv b"
  shows "pend_ack s b = b \<and> \<not> (pt_FlightAt (fst b) \<and> s = pt_Seq (fst b)) \<or>
    pt_FlightAt (fst b) \<and> s = pt_Seq (fst b) \<and> pend_inv (pend_ack s b) \<and>
    fst (pend_ack s b) = (fst b)\<lparr>pt_Flight := [], pt_FlightAt := False\<rparr>"
proof -
  obtain p d where b: "b = (p, d)" by (cases b)
  let ?p' = "p\<lparr>pt_Flight := [], pt_FlightAt := False\<rparr>"
  have "loadPending (pt_path p) (save True ?p' d) = ?p'" if "pt_path p \<noteq> []"
    using save_reload [of ?p' d] that by simp
  with assms show ?thesis by (auto simp: b pend_inv_def pend_ack_def ack_def Let_def buffer_inv_def)
qed

interpretation buf: durable_buffer pend_coll pend_send pend_ack pend_restart pend_inv
  "\<lambda>b. pt_Seq (fst b)" "\<lambda>b. pt_FlightAt (fst b)"
  "\<lambda>e b. map_bytes e (pt_Flight (fst b))" "\<lambda>e b. map_bytes e (pt_Pend (fst b))"
proof (unfold_locales, goal_cases)
  case (1 b)
  then show ?case by (simp add: pend_restart_def pend_inv_def)
next
  case (2 b)
  then show ?case by (simp add: pend_inv_def buffer_inv_def)
next
  case (3 b e)
  then show ?case by (simp add: pend_inv_def buffer_inv_def)
next
  case (4 b e)
  then show ?case by (simp add: pend_inv_def buffer_inv_def map_bytes_nonneg)
next
  case (5 b e)
  then show ?case by (simp add: pend_inv_def buffer_inv_def map_bytes_nonneg)
next
  case (6 b its e)
  then show ?case
    using collect_inv [of b its e] by (simp add: pend_coll_def collect_def Let_def)
next
  case (7 b)
  then show ?case
    by (auto simp: pend_send_def batch_def Let_def)
next
  case (8 b s its b')
  note c = send_cases [OF this]
  then have "buffer_inv (fst b')" "pt_FlightAt (fst b')"
    by (auto simp: pend_inv_def split: if_splits)
  with c show ?case
    by (simp add: buffer_inv_def flight_items_nonneg flight_items_bytes pairs_ok_def)
next
  case (9 b s its b' e)
  note c = send_cases [OF 9(1,2,4)]
  with 9 promote_inv [of "fst b"] show ?case by (auto simp: pend_inv_def)
next
  case (10 b s its b')
  then show ?case by (auto simp: pend_send_def batch_def Let_def flight_items_def pend_inv_def
      buffer_inv_def split: if_splits)
next
  case (11 b s e)
  then show ?case using ack_cases [of b s] by auto
next
  case (12 b s)
  then show ?case using ack_cases [of b s] by auto
next
  case (13 b)
  then show ?case by (simp add: pend_inv_def buffer_inv_def)
qed

end
