(* ===== verification/Link.thy ===== *)
theory Link
  imports Ingest Pending Samples
begin

section \<open>Traffic is accounted exactly once\<close>

text \<open>
  The agent's buffer and the panel's ingestion, joined by a connection that delivers in order but
  can break at any moment and lose what is on the way in both directions. The argument is made over
  the two interfaces, the buffer's (\<open>durable_buffer\<close>) and the panel's (\<open>traffic_sink\<close>), in the locale
  \<open>traffic_link\<close>, and instantiated with the model of the agent and of the panel.
\<close>

subsection \<open>The panel as a sink of numbered reports\<close>

text \<open>\<open>'env\<close> is what else a delivery depends on: the time, the connection.\<close>

locale traffic_sink =
  fixes ingest :: "'env \<Rightarrow> int \<Rightarrow> traffic_item list \<Rightarrow> 'p \<Rightarrow> 'p"
    and pinv :: "'p \<Rightarrow> bool"
    and lst :: "'p \<Rightarrow> int"
    and served :: "string \<Rightarrow> 'p \<Rightarrow> bool"
    and paid :: "string \<Rightarrow> 'p \<Rightarrow> int"
  assumes ingest_inv: "pinv p \<Longrightarrow> s \<noteq> 0 \<Longrightarrow> pinv (ingest x s its p)"
    and ingest_served: "pinv p \<Longrightarrow> s \<noteq> 0 \<Longrightarrow> served e (ingest x s its p) = served e p"
    and ingest_lst: "pinv p \<Longrightarrow> s \<noteq> 0 \<Longrightarrow> lst (ingest x s its p) = s"
    and ingest_dup: "pinv p \<Longrightarrow> s \<noteq> 0 \<Longrightarrow> s = lst p \<Longrightarrow> paid e (ingest x s its p) = paid e p"
    and ingest_new: "pinv p \<Longrightarrow> s \<noteq> 0 \<Longrightarrow> s \<noteq> lst p \<Longrightarrow> served e p \<Longrightarrow>
      paid e (ingest x s its p) = paid e p + items_bytes e its"

text \<open>
  What is on the way. A report carries either the last number the panel applied (a resend) or the
  number of the batch in flight with exactly its bytes, and older numbers come first; an
  acknowledgement of the batch in flight means that the panel has applied it.
\<close>

definition wire_ok :: "int \<Rightarrow> bool \<Rightarrow> int \<Rightarrow> (string \<Rightarrow> int) \<Rightarrow> (int \<times> traffic_item list) list \<Rightarrow> int list \<Rightarrow> bool" where
  "wire_ok sq infl lst fly wire acks \<longleftrightarrow>
     0 \<le> lst \<and> (lst = sq \<or> (infl \<and> lst + 1 = sq)) \<and>
     (\<forall>(s, its) \<in> set wire. s \<noteq> 0 \<and> (s = lst \<or> (s = sq \<and> infl \<and> (\<forall>e. items_bytes e its = fly e)))) \<and>
     sorted (map fst wire) \<and> (\<forall>s \<in> set acks. s \<le> lst)"

text \<open>The bytes collected for a name: applied, in flight and not applied, or waiting.\<close>

definition conserved :: "int \<Rightarrow> int \<Rightarrow> int \<Rightarrow> int \<Rightarrow> int \<Rightarrow> int \<Rightarrow> bool" where
  "conserved sq lst paid fly wait tot \<longleftrightarrow> paid + (if lst = sq then 0 else fly) + wait = tot"

lemma wire_ok_drop:
  "wire_ok sq infl lst fly wire acks \<Longrightarrow> set acks' \<subseteq> set acks \<Longrightarrow> wire_ok sq infl lst fly [] acks'"
  by (auto simp: wire_ok_def)

lemma wire_ok_acks: "wire_ok sq infl lst fly wire acks \<Longrightarrow> set acks' \<subseteq> set acks \<Longrightarrow> wire_ok sq infl lst fly wire acks'"
  by (auto simp: wire_ok_def)

locale traffic_link =
  durable_buffer coll send acked reload binv seqn inflight flying waiting +
  traffic_sink ingest pinv lst served paid
  for coll :: "traffic_item list \<Rightarrow> 'b \<Rightarrow> 'b" and send acked reload binv seqn inflight flying waiting
    and ingest :: "'env \<Rightarrow> int \<Rightarrow> traffic_item list \<Rightarrow> 'p \<Rightarrow> 'p" and pinv lst served paid
begin

lemma collect_link:
  assumes "binv b" "items_nonneg its" "\<And>e. waiting e b + items_bytes e its < 2 ^ 63"
    and "wire_ok (seqn b) (inflight b) (lst p) (\<lambda>e. flying e b) wire acks"
  shows "binv (coll its b) \<and>
    wire_ok (seqn (coll its b)) (inflight (coll its b)) (lst p) (\<lambda>e. flying e (coll its b)) wire acks \<and>
    (\<forall>e tot. conserved (seqn b) (lst p) (paid e p) (flying e b) (waiting e b) tot \<longrightarrow>
       conserved (seqn (coll its b)) (lst p) (paid e p) (flying e (coll its b)) (waiting e (coll its b))
         (tot + items_bytes e its))"
  using coll [OF assms(1-3)] assms(4) by (simp add: conserved_def)

lemma send_link:
  assumes b: "binv b" "seqn b < 2 ^ 63 - 1" and s: "send b = ((s, its, True), b')" and p: "mset its' = mset its"
    and w: "wire_ok (seqn b) (inflight b) (lst p) (\<lambda>e. flying e b) wire acks"
  shows "binv b' \<and> wire_ok (seqn b') (inflight b') (lst p) (\<lambda>e. flying e b') (wire @ [(s, its')]) acks \<and>
    (\<forall>e tot. conserved (seqn b) (lst p) (paid e p) (flying e b) (waiting e b) tot \<longrightarrow>
       conserved (seqn b') (lst p) (paid e p) (flying e b') (waiting e b') tot)"
proof -
  note sb = send_batch [OF b s]
  have bytes: "items_bytes e its' = flying e b'" for e
    using sb items_bytes_perm [OF p] by simp
  show ?thesis
  proof (cases "inflight b")
    case True
    with resend [OF b(1)] s have "b' = b" by simp
    moreover have "0 < seqn b" using b True by (simp add: flight_numbered)
    moreover have "\<forall>(t, its) \<in> set wire. t \<le> seqn b" using w by (auto simp: wire_ok_def)
    ultimately show ?thesis
      using b w True sb bytes
      by (auto simp: wire_ok_def sorted_append)
  next
    case False
    note sp = send_promote [OF b False s]
    from w False have "lst p = seqn b" by (auto simp: wire_ok_def)
    moreover from this w False have "\<forall>(t, its) \<in> set wire. t = seqn b" by (auto simp: wire_ok_def)
    ultimately show ?thesis
      using w sb sp bytes seq_nonneg [OF b(1)] not_flying [OF b(1) False]
      by (auto simp: wire_ok_def sorted_append conserved_def)
  qed
qed

lemma deliver_link:
  assumes p: "pinv p" and b: "binv b"
    and w: "wire_ok (seqn b) (inflight b) (lst p) (\<lambda>e. flying e b) ((s, its) # wire) acks"
  shows "wire_ok (seqn b) (inflight b) (lst (ingest x s its p)) (\<lambda>e. flying e b) wire (acks @ [s]) \<and>
    (\<forall>e tot. served e p \<longrightarrow> conserved (seqn b) (lst p) (paid e p) (flying e b) (waiting e b) tot \<longrightarrow>
       conserved (seqn b) (lst (ingest x s its p)) (paid e (ingest x s its p)) (flying e b) (waiting e b) tot)"
proof -
  from w have s0: "s \<noteq> 0" by (simp add: wire_ok_def)
  note l = ingest_lst [OF p s0]
  show ?thesis
  proof (cases "s = lst p")
    case True
    with w l ingest_dup [OF p s0 True] show ?thesis by (auto simp: wire_ok_def)
  next
    case False
    with w have s: "s = seqn b" "inflight b" "lst p + 1 = seqn b" "\<And>e. items_bytes e its = flying e b"
      by (auto simp: wire_ok_def)
    have "\<forall>(t, its') \<in> set wire. t = seqn b" using w s by (fastforce simp: wire_ok_def)
    moreover have "served e p \<longrightarrow> paid e (ingest x s its p) = paid e p + flying e b" for e
      using ingest_new [OF p s0 False] s by simp
    ultimately show ?thesis
      using w s l by (auto simp: wire_ok_def conserved_def)
  qed
qed

lemma ack_link:
  assumes b: "binv b" and w: "wire_ok (seqn b) (inflight b) (lst p) (\<lambda>e. flying e b) wire (s # acks)"
  shows "binv (acked s b) \<and>
    wire_ok (seqn (acked s b)) (inflight (acked s b)) (lst p) (\<lambda>e. flying e (acked s b)) wire acks \<and>
    (\<forall>e tot. conserved (seqn b) (lst p) (paid e p) (flying e b) (waiting e b) tot \<longrightarrow>
       conserved (seqn (acked s b)) (lst p) (paid e p) (flying e (acked s b)) (waiting e (acked s b)) tot)"
proof (cases "inflight b \<and> s = seqn b")
  case True
  with w have l: "lst p = seqn b" by (auto simp: wire_ok_def)
  note a = ack_hit [OF b, of s] True
  then have "binv (acked s b)" "\<not> inflight (acked s b)" by blast+
  with a not_flying [of "acked s b"] w l show ?thesis by (auto simp: wire_ok_def conserved_def)
next
  case False
  with ack_miss [OF b False] b w show ?thesis by (auto simp: wire_ok_def)
qed

end

subsection \<open>The panel of the model implements the sink\<close>

definition traffic_msg :: "int \<Rightarrow> traffic_item list \<Rightarrow> wmsg" where
  "traffic_msg s its = (zero_msg TypeTraffic)\<lparr>m_seq := s, m_items := its\<rparr>"

definition panel_ok :: "int \<Rightarrow> app \<Rightarrow> bool" where
  "panel_ok n a \<longleftrightarrow> no_faults (a_store a) \<and> db_ok (tables (a_store a)) \<and> node_seq n (tables (a_store a)) \<noteq> None"

definition panel_last :: "int \<Rightarrow> app \<Rightarrow> int" where
  "panel_last n a = (case node_seq n (tables (a_store a)) of None \<Rightarrow> 0 | Some q \<Rightarrow> q)"

definition panel_served :: "int \<Rightarrow> string \<Rightarrow> app \<Rightarrow> bool" where
  "panel_served n e a \<longleftrightarrow> uid_of n (tables (a_store a)) e \<noteq> None"

definition panel_acct :: "int \<Rightarrow> string \<Rightarrow> app \<Rightarrow> int" where
  "panel_acct n e a = acct n e (tables (a_store a))"

definition panel_ingest :: "(string \<Rightarrow> string) \<Rightarrow> int \<Rightarrow> int \<times> nat \<Rightarrow> int \<Rightarrow> traffic_item list \<Rightarrow> app \<Rightarrow> app" where
  "panel_ingest H n x s its a = readMsg H (fst x) n (snd x) (traffic_msg s its) a"

lemma panel_ingest_store:
  assumes "panel_ok n a" and "s \<noteq> 0"
  shows "a_store (panel_ingest H n x s its a) =
      (if s = panel_last n a then a_store a
       else (a_store a)\<lparr>tables := set_seq n s (charge_items (fst x) n
              (allowed_users (users_for_node n (tables (a_store a)))) its (tables (a_store a)))\<rparr>)"
    and "acks_of (snd x) (panel_ingest H n x s its a) \<in> {acks_of (snd x) a, acks_of (snd x) a @ [s]}"
proof -
  obtain q where q: "node_seq n (tables (a_store a)) = Some q" and nf: "no_faults (a_store a)"
    using assms by (auto simp: panel_ok_def)
  have step: "panel_ingest H n x s its a =
      snd (trySend (snd x) ((zero_msg TypeAck)\<lparr>m_seq := s\<rparr>) (ingestTraffic H (fst x) n s its a))"
    by (simp add: panel_ingest_def readMsg_def traffic_msg_def)
  have "a_store (panel_ingest H n x s its a) = a_store (ingestTraffic H (fst x) n s its a)"
    by (simp add: step trySend_ack)
  then show "a_store (panel_ingest H n x s its a) =
      (if s = panel_last n a then a_store a
       else (a_store a)\<lparr>tables := set_seq n s (charge_items (fst x) n
              (allowed_users (users_for_node n (tables (a_store a)))) its (tables (a_store a)))\<rparr>)"
    using ingest_duplicate [OF nf q, of H "fst x" its] ingest_new [OF nf q assms(2), of H "fst x" its] assms(2) q
    by (auto simp: panel_last_def)
  have "acks_of (snd x) (ingestTraffic H (fst x) n s its a) = acks_of (snd x) a"
    using ingest_duplicate [OF nf q, of H "fst x" its] ingest_new [OF nf q assms(2), of H "fst x" its] assms(2)
    by (cases "s = q") auto
  then show "acks_of (snd x) (panel_ingest H n x s its a) \<in> {acks_of (snd x) a, acks_of (snd x) a @ [s]}"
    using trySend_ack(2) [of "snd x" "snd x" s "ingestTraffic H (fst x) n s its a"] by (simp add: step)
qed

lemma report_tables:
  "db_ok d \<Longrightarrow> db_ok (set_seq n s (charge_items now n al its d))"
  "node_seq n d \<noteq> None \<Longrightarrow> node_seq n (set_seq n s (charge_items now n al its d)) = Some s"
  "uid_of m (set_seq n s (charge_items now n al its d)) = uid_of m d"
proof -
  show "db_ok d \<Longrightarrow> db_ok (set_seq n s (charge_items now n al its d))"
    by (intro set_seq_db_ok charge_items_frame)
  have "node_seq n (charge_items now n al its d) = node_seq n d"
    by (simp add: node_seq_def charge_items_frame)
  then show "node_seq n d \<noteq> None \<Longrightarrow> node_seq n (set_seq n s (charge_items now n al its d)) = Some s"
    by (simp add: node_seq_set)
  show "uid_of m (set_seq n s (charge_items now n al its d)) = uid_of m d"
    by (rule uid_of_view) (simp add: charge_items_frame)
qed

interpretation sink: traffic_sink "panel_ingest H n" "panel_ok n" "panel_last n" "panel_served n" "panel_acct n"
  for H n
proof (unfold_locales, goal_cases)
  case (1 p s x its)
  then have "db_ok (tables (a_store p))" "node_seq n (tables (a_store p)) \<noteq> None" "no_faults (a_store p)"
    by (simp_all add: panel_ok_def)
  with panel_ingest_store(1) [OF 1] report_tables show ?case by (simp add: panel_ok_def no_faults_def)
next
  case (2 p s e x its)
  then show ?case by (simp add: panel_served_def panel_ingest_store report_tables)
next
  case (3 p s x its)
  then have "node_seq n (tables (a_store p)) \<noteq> None" by (simp add: panel_ok_def)
  with panel_ingest_store(1) [OF 3] report_tables(2) show ?case by (auto simp: panel_last_def)
next
  case (4 p s e x its)
  then show ?case by (simp add: panel_acct_def panel_ingest_store)
next
  case (5 p s e x its)
  then have "db_ok (tables (a_store p))" by (simp add: panel_ok_def)
  with 5 show ?case
    by (simp add: panel_acct_def panel_ingest_store charge_items_acct panel_served_def)
qed

interpretation lk: traffic_link pend_coll pend_send pend_ack pend_restart pend_inv
  "\<lambda>b. pt_Seq (fst b)" "\<lambda>b. pt_FlightAt (fst b)"
  "\<lambda>e b. map_bytes e (pt_Flight (fst b))" "\<lambda>e b. map_bytes e (pt_Pend (fst b))"
  "panel_ingest H n" "panel_ok n" "panel_last n" "panel_served n" "panel_acct n" for H n
  by unfold_locales

subsection \<open>Handlers that touch neither accounts nor acknowledgements\<close>

definition link_view :: "db \<Rightarrow> ((int \<times> string) list \<times> (int \<times> int) list) \<times> traffic_row list \<times> (int \<times> int) list" where
  "link_view d = (assign_view d, node_traffic d, map (\<lambda>r. (nr_id r, nr_traffic_seq r)) (nodes d))"

definition same_link :: "app \<Rightarrow> app \<Rightarrow> bool" where
  "same_link a a' \<longleftrightarrow> (no_faults (a_store a) \<and> db_ok (tables (a_store a)) \<longrightarrow>
     no_faults (a_store a') \<and> db_ok (tables (a_store a')) \<and> link_view (tables (a_store a')) = link_view (tables (a_store a)))"

definition calm :: "(app \<Rightarrow> app) \<Rightarrow> bool" where
  "calm f \<longleftrightarrow> (\<forall>a. same_link a (f a) \<and> (no_faults (a_store a) \<and> db_ok (tables (a_store a)) \<longrightarrow> (\<forall>c. acks_of c (f a) = acks_of c a)))"

lemma same_link_trans: "same_link a b \<Longrightarrow> same_link b c \<Longrightarrow> same_link a c"
  by (simp add: same_link_def)

lemma node_seq_view:
  assumes "link_view d = link_view d'"
  shows "node_seq n d = node_seq n d'"
proof -
  have find: "map (\<lambda>r. (nr_id r, nr_traffic_seq r)) rs = map (\<lambda>r. (nr_id r, nr_traffic_seq r)) rs' \<Longrightarrow>
      map_option nr_traffic_seq (List.find (\<lambda>r. nr_id r = n) rs) = map_option nr_traffic_seq (List.find (\<lambda>r. nr_id r = n) rs')"
    for rs rs' :: "node_row list"
  proof (induction rs arbitrary: rs')
    case Nil
    then show ?case by simp
  next
    case (Cons r rs)
    then obtain r' rs2 where "rs' = r' # rs2" by (cases rs') auto
    with Cons.IH [of rs2] Cons.prems show ?case by auto
  qed
  from assms have "map (\<lambda>r. (nr_id r, nr_traffic_seq r)) (nodes d) = map (\<lambda>r. (nr_id r, nr_traffic_seq r)) (nodes d')"
    by (simp add: link_view_def)
  from find [OF this] show ?thesis by (simp only: node_seq_def)
qed

lemma same_linkD:
  assumes "same_link a a'" and "panel_ok n a"
  shows "panel_ok n a'" "panel_last n a' = panel_last n a" "panel_served n e a' = panel_served n e a"
    "panel_acct n e a' = panel_acct n e a"
proof -
  from assms have v: "link_view (tables (a_store a')) = link_view (tables (a_store a))"
    and ok: "no_faults (a_store a')" "db_ok (tables (a_store a'))"
    by (simp_all add: same_link_def panel_ok_def)
  note q = node_seq_view [OF v, of n]
  have u: "uid_of n (tables (a_store a')) = uid_of n (tables (a_store a))"
    using v by (intro uid_of_view) (simp add: link_view_def)
  show "panel_ok n a'" using assms(2) ok q by (simp add: panel_ok_def)
  show "panel_last n a' = panel_last n a" by (simp add: panel_last_def q)
  show "panel_served n e a' = panel_served n e a" by (simp add: panel_served_def u)
  show "panel_acct n e a' = panel_acct n e a"
    using v by (simp add: panel_acct_def acct_def u row_bytes_def link_view_def split: option.split)
qed

named_theorems calms \<open>handlers that leave accounts and acknowledgements alone\<close>

lemma quiet_calm: "quiet f \<Longrightarrow> calm f"
  by (simp add: calm_def same_link_def quiet_def)

lemma calm_fold [calms]: "(\<And>x. calm (f x)) \<Longrightarrow> calm (fold f xs)"
  by (induction xs) (auto simp: calm_def same_link_def)

lemma calm_compose: "calm f \<Longrightarrow> calm g \<Longrightarrow> calm (\<lambda>a. g (f a))"
  by (auto simp: calm_def same_link_def)

lemma do_store_calm:
  "(\<And>s. no_faults s \<Longrightarrow> db_ok (tables s) \<Longrightarrow>
      no_faults (snd (m s)) \<and> db_ok (tables (snd (m s))) \<and> link_view (tables (snd (m s))) = link_view (tables s)) \<Longrightarrow>
   calm (do_store m)"
  by (simp add: calm_def same_link_def do_store_store)

lemma TouchNode_calm [calms]: "calm (do_store (TouchNode now i))"
proof (rule do_store_calm)
  fix s assume s: "no_faults s" "db_ok (tables s)"
  from store_step_ok [OF s(2), of "OTouchNode now i"] s show "no_faults (snd (TouchNode now i s)) \<and>
      db_ok (tables (snd (TouchNode now i s))) \<and> link_view (tables (snd (TouchNode now i s))) = link_view (tables s)"
    by (simp add: TouchNode_def exec_nofault upd_node_def link_view_def assign_view_def upd_where_def comp_def
        if_distrib no_faults_def cong: if_cong)
qed

lemma SetNodeAgentVersion_calm [calms]: "calm (do_store (SetNodeAgentVersion i v))"
proof (rule do_store_calm)
  fix s assume s: "no_faults s" "db_ok (tables s)"
  from store_step_ok [OF s(2), of "OSetNodeAgentVersion i v"] s show "no_faults (snd (SetNodeAgentVersion i v s)) \<and>
      db_ok (tables (snd (SetNodeAgentVersion i v s))) \<and> link_view (tables (snd (SetNodeAgentVersion i v s))) = link_view (tables s)"
    by (simp add: SetNodeAgentVersion_def exec_nofault upd_node_def link_view_def assign_view_def upd_where_def comp_def
        if_distrib no_faults_def cong: if_cong)
qed

lemma UpsertDevice_calm [calms]: "calm (do_store (UpsertDevice u i ip inb c seen))"
proof (rule do_store_calm)
  fix s assume s: "no_faults s" "db_ok (tables s)"
  from store_step_ok [OF s(2), of "OUpsertDevice u i ip inb c seen"] s show "no_faults (snd (UpsertDevice u i ip inb c seen s)) \<and>
      db_ok (tables (snd (UpsertDevice u i ip inb c seen s))) \<and>
      link_view (tables (snd (UpsertDevice u i ip inb c seen s))) = link_view (tables s)"
    by (simp add: UpsertDevice_def exec_nofault put_device_def link_view_def assign_view_def no_faults_def)
qed

lemma setNodeMetrics_calm [calms]: "calm (setNodeMetrics i m)"
  by (simp add: calm_def same_link_def setNodeMetrics_def acks_of_def)

lemma ingest_device_calm: "calm (ingest_device now i al it)"
proof -
  have "calm (\<lambda>a. a)" by (simp add: calm_def same_link_def)
  then show ?thesis
    unfolding ingest_device_def Let_def
    by (cases "map_of al (di_email it)"; cases "di_ip it") (simp_all add: UpsertDevice_calm)
qed

lemma ingestDevices_calm [calms]: "calm (ingestDevices now i its)"
  unfolding calm_def
proof (intro allI)
  fix a :: app
  have f: "calm (fold (ingest_device now i al) its)" for al by (intro calm_fold ingest_device_calm)
  show "same_link a (ingestDevices now i its a) \<and> (no_faults (a_store a) \<and> db_ok (tables (a_store a)) \<longrightarrow>
      (\<forall>c. acks_of c (ingestDevices now i its a) = acks_of c a))"
  proof (cases "no_faults (a_store a)")
    case True
    then have "ingestDevices now i its a =
        fold (ingest_device now i (allowed_users (users_for_node i (tables (a_store a))))) its a"
      by (simp add: ingestDevices_def on_store_def UsersForNode_nofault)
    with f show ?thesis by (simp add: calm_def)
  qed (simp add: same_link_def)
qed

lemma readMsg_calm: "m_type m \<in> {TypeHeartbeat, TypeDevices} \<Longrightarrow> calm (readMsg H now i c m)"
proof -
  assume "m_type m \<in> {TypeHeartbeat, TypeDevices}"
  then consider (h) "m_type m = TypeHeartbeat" | (d) "m_type m = TypeDevices" by auto
  then show ?thesis
  proof cases
    case h
    then show ?thesis
      using TouchNode_calm [of now i]
        calm_compose [OF TouchNode_calm [of now i] setNodeMetrics_calm [of i "the (m_metrics m)"]]
      by (cases "m_metrics m") (simp_all add: readMsg_def [abs_def])
  next
    case d
    then show ?thesis using ingestDevices_calm [of now i "m_devices m"] by (simp add: readMsg_def [abs_def])
  qed
qed

lemma acks_frames [simp]:
  "acks_of c (a\<lparr>a_conns := x\<rparr>) = acks_of c a" "acks_of c (a\<lparr>a_offlineTimers := y\<rparr>) = acks_of c a"
  by (simp_all add: acks_of_def)

lemma register_calm [calms]: "calm (register i c)"
proof -
  have "quiet (register i c)"
  proof (rule quietI)
    fix a :: app assume nf: "no_faults (a_store a)"
    show "a_store (register i c a) = a_store a \<and> (\<forall>d. acks_of d (register i c a) = acks_of d a)"
      using quietD [OF conn_close_quiet nf] by (cases "map_of (a_conns a) i") (simp_all add: register_def Let_def)
  qed
  then show ?thesis by (rule quiet_calm)
qed

lemma unregister_calm [calms]: "calm (unregister i c)"
proof -
  have "quiet (unregister i c)"
  proof (rule quietI)
    fix a :: app assume nf: "no_faults (a_store a)"
    define b where "b = (if map_of (a_conns a) i = Some c then a\<lparr>a_conns := AList.delete i (a_conns a)\<rparr> else a)"
    have b: "a_store b = a_store a" "acks_of d b = acks_of d a" for d by (simp_all add: b_def)
    with nf have "no_faults (a_store b)" by simp
    from quietD [OF conn_close_quiet [of c] this] b
    have "a_store (conn_close c b) = a_store a \<and> (\<forall>d. acks_of d (conn_close c b) = acks_of d a)" by simp
    then show "a_store (unregister i c a) = a_store a \<and> (\<forall>d. acks_of d (unregister i c a) = acks_of d a)"
      unfolding b_def by (cases "map_of (a_conns a) i = Some c") (simp_all add: unregister_def scheduleOfflineNotice_def Let_def)
  qed
  then show ?thesis by (rule quiet_calm)
qed

lemma handleWS_calm:
  assumes "handleWS H now reg a = (Some (i, c), a')" and "no_faults (a_store a)" "db_ok (tables (a_store a))"
  shows "same_link a a' \<and> acks_of c a' = []"
proof -
  obtain nd where nd: "fst (on_store (GetNodeByToken now (m_token reg)) a) = Inr nd" and i: "i = n_ID nd"
    using assms(1) by (auto simp: handleWS_def Let_def split: if_splits prod.splits sum.splits)
  have same: "snd (on_store (GetNodeByToken now (m_token reg)) a) = a"
    using on_store_reads [OF method_reads(2) assms(2)] by (metis prod.collapse)
  define a1 where "a1 = snd (new_conn (n_ID nd) a)"
  have a1: "same_link a a1" "acks_of c a1 = []" if "c = a_next a"
    using that by (simp_all add: a1_def new_conn_def same_link_def acks_of_def)
  define g where "g = (\<lambda>b. forceSyncNode H now (n_ID nd) (noticeOnline (n_ID nd) (n_Name nd)
      (do_store (SetNodeAgentVersion (n_ID nd) (m_version reg)) (do_store (TouchNode now (n_ID nd)) (register (n_ID nd) c b)))))"
  have g: "calm g"
    unfolding g_def
    using calm_compose [OF calm_compose [OF calm_compose [OF calm_compose [OF register_calm TouchNode_calm]
        SetNodeAgentVersion_calm] quiet_calm [OF noticeOnline_quiet]] quiet_calm [OF forceSyncNode_quiet]] .
  have r: "c = a_next a \<and> a' = g a1"
    using assms(1) nd same
    by (cases "on_store (GetNodeByToken now (m_token reg)) a")
      (auto simp: handleWS_def new_conn_def Let_def a1_def g_def split: if_splits)
  have "same_link a1 (g a1)" using g by (simp add: calm_def)
  moreover have "acks_of c (g a1) = acks_of c a1"
    using g a1(1) r assms(2,3) by (simp add: calm_def same_link_def)
  ultimately show ?thesis using r a1 same_link_trans by simp
qed

subsection \<open>The protocol between one agent and the panel\<close>

text \<open>
  \<open>lk_conn\<close> is the panel's connection, \<open>lk_up\<close> whether the agent still has its end. Reports on the way
  to the panel are \<open>lk_wire\<close>; what is on the way back is the connection's write queue. \<open>lk_coll\<close>
  remembers everything the agent collected. The agent's file writes succeed and the panel's database
  does not fail; messages of a connection are lost when it is dropped, in both directions.
\<close>

record link =
  lk_buf :: "pendingTraffic \<times> pending_file"
  lk_wire :: "(int \<times> traffic_item list) list"
  lk_app :: app
  lk_conn :: "nat option"
  lk_up :: bool
  lk_coll :: "traffic_item list"

inductive link_step :: "(string \<Rightarrow> string) \<Rightarrow> int \<Rightarrow> link \<Rightarrow> link \<Rightarrow> bool" for H n where
  Collect: "items_nonneg its \<Longrightarrow> \<forall>e. map_bytes e (pt_Pend (fst (lk_buf l))) + items_bytes e its < 2 ^ 63 \<Longrightarrow>
    link_step H n l (l\<lparr>lk_buf := pend_coll its (lk_buf l), lk_coll := lk_coll l @ its\<rparr>)"
| Send: "lk_up l \<Longrightarrow> pt_Seq (fst (lk_buf l)) < 2 ^ 63 - 1 \<Longrightarrow> pend_send (lk_buf l) = ((s, its, True), b) \<Longrightarrow>
    mset its' = mset its \<Longrightarrow>
    link_step H n l (l\<lparr>lk_buf := b, lk_wire := lk_wire l @ [(s, its')]\<rparr>)"
| SendFails: "pt_Seq (fst (lk_buf l)) < 2 ^ 63 - 1 \<Longrightarrow> pend_send (lk_buf l) = ((s, its, True), b) \<Longrightarrow>
    link_step H n l (l\<lparr>lk_buf := b, lk_up := False\<rparr>)"
| Deliver: "lk_conn l = Some c \<Longrightarrow> lk_wire l = (s, its) # w \<Longrightarrow>
    link_step H n l (l\<lparr>lk_app := readMsg H now n c (traffic_msg s its) (lk_app l), lk_wire := w\<rparr>)"
| Other: "lk_conn l = Some c \<Longrightarrow> m_type m \<in> {TypeHeartbeat, TypeDevices} \<Longrightarrow>
    link_step H n l (l\<lparr>lk_app := readMsg H now n c m (lk_app l)\<rparr>)"
| WriteOut: "lk_conn l = Some c \<Longrightarrow> lk_up l \<Longrightarrow> writeNext c (lk_app l) = (Some m, a) \<Longrightarrow>
    link_step H n l (l\<lparr>lk_app := a, lk_buf := (if m_type m = TypeAck then pend_ack (m_seq m) (lk_buf l) else lk_buf l)\<rparr>)"
| WriteLost: "lk_conn l = Some c \<Longrightarrow> \<not> lk_up l \<Longrightarrow> writeNext c (lk_app l) = (Some m, a) \<Longrightarrow>
    link_step H n l (l\<lparr>lk_app := a\<rparr>)"
| Tick: "link_step H n l (l\<lparr>lk_app := enforcementTick H now ids (lk_app l)\<rparr>)"
| AgentDrop: "link_step H n l (l\<lparr>lk_up := False\<rparr>)"
| PanelDrop: "lk_conn l = Some c \<Longrightarrow>
    link_step H n l (l\<lparr>lk_app := unregister n c (lk_app l), lk_conn := None, lk_up := False, lk_wire := []\<rparr>)"
| Connect: "\<not> lk_up l \<Longrightarrow> handleWS H now reg (lk_app l) = (Some (n, c), a) \<Longrightarrow>
    link_step H n l (l\<lparr>lk_app := a, lk_conn := Some c, lk_up := True, lk_wire := []\<rparr>)"
| AgentRestart: "\<not> lk_up l \<Longrightarrow> link_step H n l (l\<lparr>lk_buf := pend_restart (lk_buf l)\<rparr>)"
| PanelRestart: "link_step H n l (l\<lparr>lk_app := boot_app (a_store (lk_app l)) tok adms, lk_conn := None,
      lk_up := False, lk_wire := []\<rparr>)"

inductive_cases link_stepE: "link_step H n l l'"

definition queued_acks :: "link \<Rightarrow> int list" where
  "queued_acks l = (case lk_conn l of None \<Rightarrow> [] | Some c \<Rightarrow> acks_of c (lk_app l))"

lemma queued_acks_frame [simp]:
  "queued_acks (l\<lparr>lk_buf := b\<rparr>) = queued_acks l" "queued_acks (l\<lparr>lk_coll := x\<rparr>) = queued_acks l"
  "queued_acks (l\<lparr>lk_wire := w\<rparr>) = queued_acks l" "queued_acks (l\<lparr>lk_up := u\<rparr>) = queued_acks l"
  by (simp_all add: queued_acks_def split: option.split)

definition link_inv :: "int \<Rightarrow> (string \<Rightarrow> bool) \<Rightarrow> (string \<Rightarrow> int) \<Rightarrow> link \<Rightarrow> bool" where
  "link_inv n serv base l \<longleftrightarrow>
     pend_inv (lk_buf l) \<and> panel_ok n (lk_app l) \<and> (\<forall>e. panel_served n e (lk_app l) = serv e) \<and>
     wire_ok (pt_Seq (fst (lk_buf l))) (pt_FlightAt (fst (lk_buf l))) (panel_last n (lk_app l))
       (\<lambda>e. map_bytes e (pt_Flight (fst (lk_buf l)))) (lk_wire l) (queued_acks l) \<and>
     (\<forall>e. serv e \<longrightarrow> conserved (pt_Seq (fst (lk_buf l))) (panel_last n (lk_app l)) (panel_acct n e (lk_app l))
        (map_bytes e (pt_Flight (fst (lk_buf l)))) (map_bytes e (pt_Pend (fst (lk_buf l))))
        (base e + items_bytes e (lk_coll l)))"

lemma items_bytes_append: "items_bytes e (xs @ ys) = items_bytes e xs + items_bytes e ys"
  by (induction xs) simp_all

lemma wire_ok_prefix: "wire_ok sq infl lst fly (wire @ [x]) acks \<Longrightarrow> wire_ok sq infl lst fly wire acks"
  by (auto simp: wire_ok_def sorted_append)

lemma writeNext_acks:
  "writeNext c a = (Some m, a') \<Longrightarrow> a_store a' = a_store a \<and>
   acks_of c a = (if m_type m = TypeAck then m_seq m # acks_of c a' else acks_of c a')"
  by (auto simp: writeNext_def acks_of_def update_conv' split: option.splits list.splits)

text \<open>The panel side moved without touching accounts; acknowledgements may have been lost.\<close>

lemma link_inv_panel:
  assumes inv: "link_inv n serv base l" and same: "same_link (lk_app l) a"
    and acks: "set (queued_acks (l\<lparr>lk_app := a, lk_conn := c, lk_up := u, lk_wire := w\<rparr>)) \<subseteq> set (queued_acks l)"
    and w: "w = lk_wire l \<or> w = []"
  shows "link_inv n serv base (l\<lparr>lk_app := a, lk_conn := c, lk_up := u, lk_wire := w\<rparr>)"
proof -
  from inv have ok: "panel_ok n (lk_app l)" by (simp add: link_inv_def)
  note s = same_linkD [OF same ok]
  have "wire_ok (pt_Seq (fst (lk_buf l))) (pt_FlightAt (fst (lk_buf l))) (panel_last n (lk_app l))
       (\<lambda>e. map_bytes e (pt_Flight (fst (lk_buf l)))) w (queued_acks (l\<lparr>lk_app := a, lk_conn := c, lk_up := u, lk_wire := w\<rparr>))"
    using w
  proof
    assume "w = lk_wire l"
    then show ?thesis using inv wire_ok_acks [OF _ acks] by (simp add: link_inv_def)
  next
    assume "w = []"
    with inv wire_ok_drop [OF _ acks] show ?thesis unfolding link_inv_def by blast
  qed
  with inv s show ?thesis by (simp add: link_inv_def)
qed

lemma link_inv_app:
  assumes inv: "link_inv n serv base l" and same: "same_link (lk_app l) a"
    and acks: "set (queued_acks (l\<lparr>lk_app := a\<rparr>)) \<subseteq> set (queued_acks l)"
  shows "link_inv n serv base (l\<lparr>lk_app := a\<rparr>)"
  using link_inv_panel [OF inv same, where c = "lk_conn l" and u = "lk_up l" and w = "lk_wire l"] acks by simp

lemma link_inv_step:
  assumes "link_inv n serv base l" and "link_step H n l l'"
  shows "link_inv n serv base l'"
  using assms(2,1)
proof (cases rule: link_step.cases)
  case (Collect its)
  with assms(1) show ?thesis
    using lk.collect_link [of "lk_buf l" its n "lk_app l" "lk_wire l" "queued_acks l"]
    by (auto simp: link_inv_def items_bytes_append add.assoc [symmetric])
next
  case (Send s its b its')
  with assms(1) show ?thesis
    using lk.send_link [of "lk_buf l" s its b its' n "lk_app l" "lk_wire l" "queued_acks l"]
    by (auto simp: link_inv_def)
next
  case (SendFails s its b)
  with assms(1) show ?thesis
    using lk.send_link [of "lk_buf l" s its b its n "lk_app l" "lk_wire l" "queued_acks l"]
    by (auto simp: link_inv_def intro: wire_ok_prefix)
next
  case (Deliver c s its w now)
  have a: "readMsg H now n c (traffic_msg s its) (lk_app l) = panel_ingest H n (now, c) s its (lk_app l)"
    by (simp add: panel_ingest_def)
  have ok: "panel_ok n (lk_app l)" "pend_inv (lk_buf l)" "\<And>e. panel_served n e (lk_app l) = serv e"
    and w: "wire_ok (pt_Seq (fst (lk_buf l))) (pt_FlightAt (fst (lk_buf l))) (panel_last n (lk_app l))
       (\<lambda>e. map_bytes e (pt_Flight (fst (lk_buf l)))) ((s, its) # w) (queued_acks l)"
    using assms(1) Deliver by (simp_all add: link_inv_def)
  from w have s0: "s \<noteq> 0" by (simp add: wire_ok_def)
  have acks: "set (queued_acks l') \<subseteq> set (queued_acks l @ [s])"
    using panel_ingest_store(2) [OF ok(1) s0, of "(now, c)" H its] Deliver by (auto simp: queued_acks_def a)
  have "serv e \<longrightarrow> conserved (pt_Seq (fst (lk_buf l))) (panel_last n (lk_app l')) (panel_acct n e (lk_app l'))
        (map_bytes e (pt_Flight (fst (lk_buf l)))) (map_bytes e (pt_Pend (fst (lk_buf l))))
        (base e + items_bytes e (lk_coll l))" for e
    using lk.deliver_link [OF ok(1,2) w, of H "(now, c)"] assms(1) Deliver ok(3)
    by (simp add: link_inv_def a)
  moreover have "wire_ok (pt_Seq (fst (lk_buf l))) (pt_FlightAt (fst (lk_buf l))) (panel_last n (lk_app l'))
       (\<lambda>e. map_bytes e (pt_Flight (fst (lk_buf l)))) w (queued_acks l')"
    using lk.deliver_link [OF ok(1,2) w, of H "(now, c)"] Deliver
    by (intro wire_ok_acks [OF _ acks]) (simp add: a)
  ultimately show ?thesis
    using Deliver ok sink.ingest_inv [OF ok(1) s0, of H "(now, c)" its] sink.ingest_served [OF ok(1) s0, of _ H "(now, c)" its]
    by (simp add: link_inv_def a)
next
  case (Other c m now)
  then have "calm (readMsg H now n c m)" using readMsg_calm by blast
  then have same: "same_link (lk_app l) (readMsg H now n c m (lk_app l))"
    and "acks_of c (readMsg H now n c m (lk_app l)) = acks_of c (lk_app l)"
    using assms(1) by (auto simp: calm_def link_inv_def panel_ok_def)
  with link_inv_app [OF assms(1) same] Other show ?thesis
    by (simp add: queued_acks_def)
next
  case (WriteOut c m a)
  note wn = writeNext_acks [OF WriteOut(4)]
  have same: "same_link (lk_app l) a" using wn by (simp add: same_link_def)
  show ?thesis
  proof (cases "m_type m = TypeAck")
    case False
    with link_inv_app [OF assms(1) same] WriteOut wn show ?thesis
      by (simp add: queued_acks_def)
  next
    case True
    let ?l1 = "l\<lparr>lk_app := a\<rparr>"
    have s: "panel_ok n a" "panel_last n a = panel_last n (lk_app l)" "\<And>e. panel_served n e a = serv e"
      "\<And>e. panel_acct n e a = panel_acct n e (lk_app l)"
      using same_linkD [OF same] assms(1) by (auto simp: link_inv_def)
    have q: "queued_acks l = m_seq m # acks_of c a" using WriteOut True wn by (simp add: queued_acks_def)
    show ?thesis
      using lk.ack_link [of "lk_buf l" n a "lk_wire l" "m_seq m" "acks_of c a"] assms(1) WriteOut True s q
      by (auto simp: link_inv_def queued_acks_def)
  qed
next
  case (WriteLost c m a)
  note wn = writeNext_acks [OF WriteLost(4)]
  have same: "same_link (lk_app l) a" using wn by (simp add: same_link_def)
  with link_inv_app [OF assms(1) same] WriteLost wn show ?thesis
    by (auto simp: queued_acks_def split: if_splits)
next
  case (Tick now ids)
  have same: "same_link (lk_app l) (enforcementTick H now ids (lk_app l))"
    and acks: "acks_of c (enforcementTick H now ids (lk_app l)) = acks_of c (lk_app l)" for c
    using quiet_calm [OF enforcementTick_quiet, of H now ids] assms(1) by (auto simp: calm_def link_inv_def panel_ok_def)
  with link_inv_app [OF assms(1) same] Tick show ?thesis
    by (simp add: queued_acks_def)
next
  case AgentDrop
  with assms(1) show ?thesis by (simp add: link_inv_def)
next
  case (PanelDrop c)
  have same: "same_link (lk_app l) (unregister n c (lk_app l))"
    using unregister_calm by (simp add: calm_def)
  with link_inv_panel [OF assms(1) same, where c = None and u = False and w = "[]"] PanelDrop show ?thesis by (simp add: queued_acks_def)
next
  case (Connect now reg c a)
  have "same_link (lk_app l) a \<and> acks_of c a = []"
    using handleWS_calm [OF Connect(3)] assms(1) by (simp add: link_inv_def panel_ok_def)
  with link_inv_panel [OF assms(1), where a = a and c = "Some c" and u = True and w = "[]"] Connect show ?thesis by (simp add: queued_acks_def)
next
  case AgentRestart
  moreover have "pend_restart (lk_buf l) = lk_buf l" using assms(1) by (intro buf.reload) (simp add: link_inv_def)
  ultimately show ?thesis using assms(1) by (simp add: link_inv_def)
next
  case (PanelRestart tok adms)
  have same: "same_link (lk_app l) (boot_app (a_store (lk_app l)) tok adms)" by (simp add: same_link_def boot_app_def)
  with link_inv_panel [OF assms(1) same, where c = None and u = False and w = "[]"] PanelRestart show ?thesis by (simp add: queued_acks_def)
qed

subsection \<open>Exactly once\<close>

text \<open>A new agent (no buffer file) and a panel that has applied nothing from its node.\<close>

definition link_start :: "int \<Rightarrow> link \<Rightarrow> bool" where
  "link_start n l \<longleftrightarrow> (\<exists>path. path \<noteq> [] \<and> lk_buf l = (loadPending path Missing, Missing)) \<and>
     lk_wire l = [] \<and> lk_conn l = None \<and> \<not> lk_up l \<and> lk_coll l = [] \<and>
     panel_ok n (lk_app l) \<and> panel_last n (lk_app l) = 0"

definition unapplied :: "int \<Rightarrow> string \<Rightarrow> link \<Rightarrow> int" where
  "unapplied n e l = (if panel_last n (lk_app l) = pt_Seq (fst (lk_buf l)) then 0
     else map_bytes e (pt_Flight (fst (lk_buf l))))"

definition not_sent :: "string \<Rightarrow> link \<Rightarrow> int" where
  "not_sent e l = map_bytes e (pt_Pend (fst (lk_buf l)))"

lemma link_inv_start:
  "link_start n l \<Longrightarrow> link_inv n (\<lambda>e. panel_served n e (lk_app l)) (\<lambda>e. panel_acct n e (lk_app l)) l"
  by (auto simp: link_start_def link_inv_def pend_inv_def buffer_inv_def fresh_pending_def wire_ok_def
      conserved_def queued_acks_def)

lemma link_inv_run:
  "(link_step H n)\<^sup>*\<^sup>* l l' \<Longrightarrow> link_inv n serv base l \<Longrightarrow> link_inv n serv base l'"
  by (induction rule: rtranclp_induct) (auto intro: link_inv_step)


subsection \<open>A run of the protocol\<close>

definition sample_link :: "bool list \<Rightarrow> link" where
  "sample_link fs = \<lparr>lk_buf = (loadPending ''pending.json'' Missing, Missing), lk_wire = [], lk_app = sample_panel fs,
     lk_conn = None, lk_up = False, lk_coll = []\<rparr>"

definition sample_items :: "traffic_item list" where
  "sample_items = [\<lparr>ti_email = ''alice'', ti_up = 5, ti_down = 7\<rparr>]"

definition sample_reg :: wmsg where
  "sample_reg = (zero_msg TypeRegister)\<lparr>m_token := ''t'', m_version := ''dev''\<rparr>"

text \<open>Collect, connect, send the batch twice, deliver both copies.\<close>

definition run1 :: "link \<Rightarrow> link" where
  "run1 l = l\<lparr>lk_buf := pend_coll sample_items (lk_buf l), lk_coll := lk_coll l @ sample_items\<rparr>"

definition run2 :: "link \<Rightarrow> link" where
  "run2 l = l\<lparr>lk_app := snd (handleWS (\<lambda>s. s) 9 sample_reg (lk_app l)), lk_conn := Some 0, lk_up := True, lk_wire := []\<rparr>"

definition run3 :: "link \<Rightarrow> link" where
  "run3 l = l\<lparr>lk_buf := snd (pend_send (lk_buf l)), lk_wire := lk_wire l @ [(1, sample_items)]\<rparr>"

definition run4 :: "link \<Rightarrow> link" where
  "run4 l = l\<lparr>lk_app := readMsg (\<lambda>s. s) 60 1 0 (traffic_msg 1 sample_items) (lk_app l), lk_wire := tl (lk_wire l)\<rparr>"

definition sample_run :: "bool list \<Rightarrow> link" where
  "sample_run fs = run4 (run4 (run3 (run3 (run2 (run1 (sample_link fs))))))"

lemma sample_panel_ok: "panel_ok 1 (sample_panel [])"
  by code_simp

lemma sample_start: "link_start 1 (sample_link [])"
  using sample_panel_ok by (auto simp: link_start_def sample_link_def panel_last_def sample_panel_def boot_app_def
      sample_db_def node_seq_def empty_db_def)

lemma sample_connect: "fst (handleWS (\<lambda>s. s) 9 sample_reg (lk_app (run1 (sample_link [])))) = Some (1, 0)"
  by code_simp

lemma sample_sends:
  "fst (pend_send (lk_buf (run2 (run1 (sample_link []))))) = (1, sample_items, True)"
  "fst (pend_send (lk_buf (run3 (run2 (run1 (sample_link [])))))) = (1, sample_items, True)"
  "pt_Seq (fst (lk_buf (run2 (run1 (sample_link []))))) = 0"
  "pt_Seq (fst (lk_buf (run3 (run2 (run1 (sample_link [])))))) = 1"
  by code_simp+

lemma sample_run_steps: "(link_step (\<lambda>s. s) 1)\<^sup>*\<^sup>* (sample_link []) (sample_run [])"
proof -
  let ?l0 = "sample_link []"
  have s1: "link_step (\<lambda>s. s) 1 ?l0 (run1 ?l0)"
    unfolding run1_def by (rule Collect) (auto simp: sample_items_def sample_link_def fresh_pending_def item_bytes_def)
  have s2: "link_step (\<lambda>s. s) 1 (run1 ?l0) (run2 (run1 ?l0))"
    unfolding run2_def using sample_connect
    by (intro Connect [where now = 9 and reg = sample_reg]) (auto simp: run1_def sample_link_def prod_eq_iff)
  have s3: "link_step (\<lambda>s. s) 1 (run2 (run1 ?l0)) (run3 (run2 (run1 ?l0)))"
    unfolding run3_def using sample_sends(1,3)
    by (intro Send [where its = sample_items]) (auto simp: run2_def prod_eq_iff)
  have s4: "link_step (\<lambda>s. s) 1 (run3 (run2 (run1 ?l0))) (run3 (run3 (run2 (run1 ?l0))))"
    unfolding run3_def [of "run3 (run2 (run1 ?l0))"] using sample_sends(2,4)
    by (intro Send [where its = sample_items]) (auto simp: run3_def run2_def prod_eq_iff)
  have w: "lk_wire (run3 (run3 (run2 (run1 ?l0)))) = [(1, sample_items), (1, sample_items)]"
    by (simp add: run3_def run2_def)
  have s5: "link_step (\<lambda>s. s) 1 (run3 (run3 (run2 (run1 ?l0)))) (run4 (run3 (run3 (run2 (run1 ?l0)))))"
    unfolding run4_def w list.sel by (rule Deliver [OF _ w]) (simp add: run3_def run2_def)
  have w2: "lk_wire (run4 (run3 (run3 (run2 (run1 ?l0))))) = [(1, sample_items)]"
    by (simp add: run4_def w)
  have s6: "link_step (\<lambda>s. s) 1 (run4 (run3 (run3 (run2 (run1 ?l0))))) (sample_run [])"
    unfolding sample_run_def run4_def [of "run4 (run3 (run3 (run2 (run1 ?l0))))"] w2 list.sel
    by (rule Deliver [OF _ w2]) (simp add: run4_def run3_def run2_def)
  from s1 s2 s3 s4 s5 s6 show ?thesis by (meson rtranclp.rtrancl_refl rtranclp.rtrancl_into_rtrancl)
qed


subsection \<open>What a failing database costs\<close>

definition run5 :: "link \<Rightarrow> link" where
  "run5 l = (case writeNext 0 (lk_app l) of
     (Some m, a) \<Rightarrow> l\<lparr>lk_app := a, lk_buf := (if m_type m = TypeAck then pend_ack (m_seq m) (lk_buf l) else lk_buf l)\<rparr>
   | (None, a) \<Rightarrow> l)"

text \<open>The seventh statement of the run fails: the read of the node's sequence number.\<close>

definition seventh :: "bool list" where
  "seventh = [False, False, False, False, False, False, True]"

definition lossy_run :: link where
  "lossy_run = run5 (run5 (run4 (run3 (run2 (run1 (sample_link seventh))))))"

lemma lossy_steps:
  "fst (handleWS (\<lambda>s. s) 9 sample_reg (lk_app (run1 (sample_link seventh)))) = Some (1, 0)"
  "fst (pend_send (lk_buf (run2 (run1 (sample_link seventh))))) = (1, sample_items, True)"
  "pt_Seq (fst (lk_buf (run2 (run1 (sample_link seventh))))) = 0"
  "fst (writeNext 0 (lk_app (run4 (run3 (run2 (run1 (sample_link seventh))))))) \<noteq> None"
  "fst (writeNext 0 (lk_app (run5 (run4 (run3 (run2 (run1 (sample_link seventh)))))))) \<noteq> None"
  by code_simp+

lemma run5_step:
  "lk_conn l = Some 0 \<Longrightarrow> lk_up l \<Longrightarrow> fst (writeNext 0 (lk_app l)) \<noteq> None \<Longrightarrow> link_step H n l (run5 l)"
proof -
  assume c: "lk_conn l = Some 0" "lk_up l" and w: "fst (writeNext 0 (lk_app l)) \<noteq> None"
  from w obtain m a where m: "writeNext 0 (lk_app l) = (Some m, a)" by (cases "writeNext 0 (lk_app l)") auto
  from WriteOut [OF c m, of H n] show ?thesis by (simp only: run5_def m prod.case option.case)
qed

lemma run5_conn: "lk_conn (run5 l) = lk_conn l" "lk_up (run5 l) = lk_up l"
  by (auto simp: run5_def split: prod.split option.split)

lemma lossy_run_steps: "(link_step (\<lambda>s. s) 1)\<^sup>*\<^sup>* (sample_link seventh) lossy_run"
proof -
  let ?l0 = "sample_link seventh"
  have s1: "link_step (\<lambda>s. s) 1 ?l0 (run1 ?l0)"
    unfolding run1_def by (rule Collect) (auto simp: sample_items_def sample_link_def fresh_pending_def item_bytes_def)
  have s2: "link_step (\<lambda>s. s) 1 (run1 ?l0) (run2 (run1 ?l0))"
    unfolding run2_def using lossy_steps(1)
    by (intro Connect [where now = 9 and reg = sample_reg]) (auto simp: run1_def sample_link_def prod_eq_iff)
  have s3: "link_step (\<lambda>s. s) 1 (run2 (run1 ?l0)) (run3 (run2 (run1 ?l0)))"
    unfolding run3_def using lossy_steps(2,3)
    by (intro Send [where its = sample_items]) (auto simp: run2_def prod_eq_iff)
  have w: "lk_wire (run3 (run2 (run1 ?l0))) = [(1, sample_items)]" by (simp add: run3_def run2_def)
  have s4: "link_step (\<lambda>s. s) 1 (run3 (run2 (run1 ?l0))) (run4 (run3 (run2 (run1 ?l0))))"
    unfolding run4_def w list.sel by (rule Deliver [OF _ w]) (simp add: run3_def run2_def)
  have c: "lk_conn (run4 (run3 (run2 (run1 ?l0)))) = Some 0" "lk_up (run4 (run3 (run2 (run1 ?l0))))"
    by (simp_all add: run4_def run3_def run2_def)
  have s5: "link_step (\<lambda>s. s) 1 (run4 (run3 (run2 (run1 ?l0)))) (run5 (run4 (run3 (run2 (run1 ?l0)))))"
    using c lossy_steps(4) by (rule run5_step)
  have s6: "link_step (\<lambda>s. s) 1 (run5 (run4 (run3 (run2 (run1 ?l0))))) lossy_run"
    unfolding lossy_run_def using c lossy_steps(5) by (intro run5_step) (simp_all add: run5_conn)
  from s1 s2 s3 s4 s5 s6 show ?thesis by (meson rtranclp.rtrancl_refl rtranclp.rtrancl_into_rtrancl)
qed

text \<open>
  C20. The guarantee needs the panel's database: the read loop acknowledges a batch even when
  \<open>ingestTraffic\<close> gave up on a database error, so the agent drops a window the panel never charged. In
  this run one read fails; afterwards nothing is in flight, nothing is waiting, twelve bytes were
  collected and none was charged.
\<close>
theorem failed_ingest_loses_window:
  "\<exists>l. (link_step (\<lambda>s. s) 1)\<^sup>*\<^sup>* (sample_link seventh) l \<and> panel_served 1 ''alice'' (lk_app l) \<and>
     \<not> pt_FlightAt (fst (lk_buf l)) \<and> pt_Pend (fst (lk_buf l)) = [] \<and> lk_wire l = [] \<and>
     items_bytes ''alice'' (lk_coll l) = 12 \<and> panel_acct 1 ''alice'' (lk_app l) = 0"
proof (rule exI [of _ lossy_run], intro conjI)
  show "(link_step (\<lambda>s. s) 1)\<^sup>*\<^sup>* (sample_link seventh) lossy_run" by (rule lossy_run_steps)
qed code_simp+

end
