(* ===== verification/Live.thy ===== *)
theory Live
  imports Nodeconf
begin

section \<open>Restart-free updates of Xray (internal/agent: live\_grpc, baseline, xray)\<close>

text \<open>
  The agent keeps a baseline of what Xray runs: the configuration with its client lists emptied
  (the skeleton) and the clients of each proxy inbound. A pushed configuration with the same
  skeleton is applied as user edits over Xray's gRPC API, any other one by restarting Xray.
  Xray and \<^verbatim>\<open>docker restart\<close> are not part of the repository: they are the parameter \<open>xray_api\<close>, and
  what the agent relies on is the predicate \<open>xray_ok\<close>.
\<close>

subsection \<open>Splitting a configuration\<close>

definition tagTLS :: string where "tagTLS = ''vless-xtls-vision''"
definition tagReality :: string where "tagReality = ''vless-reality-vision''"

text \<open>A Go \<^verbatim>\<open>map[string]string\<close> (email to uuid), and one such map per inbound tag.\<close>

type_synonym client_set = "(string \<times> string) list"
type_synonym tag_clients = "(string \<times> client_set) list"

definition add_client :: "json \<Rightarrow> client_set \<Rightarrow> client_set" where
  "add_client c cs =
     (case as_obj c of
        None \<Rightarrow> cs
      | Some cm \<Rightarrow> if jstr ''email'' cm \<noteq> [] then AList.update (jstr ''email'' cm) (jstr ''id'' cm) cs else cs)"

definition client_arr :: "(string, json) fmap \<Rightarrow> json list" where
  "client_arr st = (case as_arr (jget ''clients'' st) of None \<Rightarrow> [] | Some a \<Rightarrow> a)"

text \<open>One turn of the loop over the inbounds: the inbound for the skeleton, the sets so far.\<close>

definition split_inbound :: "json \<Rightarrow> tag_clients \<Rightarrow> json \<times> tag_clients" where
  "split_inbound ib acc =
     (case as_obj ib of
        None \<Rightarrow> (ib, acc)
      | Some inb \<Rightarrow>
          if jstr ''tag'' inb \<noteq> tagTLS \<and> jstr ''tag'' inb \<noteq> tagReality then (ib, acc)
          else case as_obj (jget ''settings'' inb) of
                 None \<Rightarrow> (ib, acc)
               | Some st \<Rightarrow>
                   (JObj (fmupd ''settings'' (JObj (fmupd ''clients'' (JArr []) st)) inb),
                    AList.update (jstr ''tag'' inb) (fold add_client (client_arr st) []) acc))"

fun split_inbounds :: "json list \<Rightarrow> tag_clients \<Rightarrow> json list \<times> tag_clients" where
  "split_inbounds [] acc = ([], acc)"
| "split_inbounds (ib # ibs) acc =
     (let (ib', acc') = split_inbound ib acc; (ibs', acc'') = split_inbounds ibs acc'
      in (ib' # ibs', acc''))"

text \<open>The argument is \<open>None\<close> for bytes that are not JSON.\<close>

definition parseClients :: "json option \<Rightarrow> (json \<times> tag_clients) option" where
  "parseClients raw =
     (case raw of
        Some (JObj m) \<Rightarrow>
          (case as_arr (jget ''inbounds'' m) of
             None \<Rightarrow> None
           | Some ibs \<Rightarrow> let (ibs', cs) = split_inbounds ibs []
                          in Some (JObj (fmupd ''inbounds'' (JArr ibs') m), cs))
      | _ \<Rightarrow> None)"

definition tag_set :: "string \<Rightarrow> tag_clients \<Rightarrow> client_set" where
  "tag_set tag cs = (case map_of cs tag of None \<Rightarrow> [] | Some s \<Rightarrow> s)"

subsection \<open>The baseline and its file\<close>

text \<open>
  A file's content: the bytes \<^verbatim>\<open>json.MarshalIndent\<close> renders for a value, or any others. The hash of
  the bytes (SHA-256, in hexadecimal) is a parameter.
\<close>

datatype file_bytes = Rendered json | Raw string

type_synonym hash_fn = "file_bytes \<Rightarrow> string"

definition fileSHA :: "hash_fn \<Rightarrow> file_bytes option \<Rightarrow> string" where
  "fileSHA bytesSHA f = (case f of None \<Rightarrow> [] | Some b \<Rightarrow> bytesSHA b)"

record live_state =
  lv_path :: string
  lv_skeleton :: "json option" \<comment> \<open>None for the empty string\<close>
  lv_clients :: tag_clients
  lv_sha :: string

definition newLiveState :: "string \<Rightarrow> live_state" where
  "newLiveState path = \<lparr>lv_path = path, lv_skeleton = None, lv_clients = [], lv_sha = []\<rparr>"

record baseline =
  bl_Skeleton :: "json option"
  bl_Clients :: "tag_clients option"
  bl_ConfigSHA :: string

datatype baseline_file = NoBaseline | BadBaseline | Baseline baseline

definition seed :: "hash_fn \<Rightarrow> string \<Rightarrow> file_bytes option \<Rightarrow> baseline_file \<Rightarrow> live_state \<Rightarrow> live_state" where
  "seed bytesSHA configPath config f s =
     (if lv_path s = [] \<or> configPath = [] then s
      else case f of
        Baseline bl \<Rightarrow>
          if bl_Skeleton bl = None then s
          else if bl_ConfigSHA bl = [] \<or> bl_ConfigSHA bl \<noteq> fileSHA bytesSHA config then s
          else s\<lparr>lv_skeleton := bl_Skeleton bl,
                 lv_clients := (case bl_Clients bl of None \<Rightarrow> [] | Some c \<Rightarrow> c),
                 lv_sha := bl_ConfigSHA bl\<rparr>
      | _ \<Rightarrow> s)"

text \<open>\<open>wok\<close>: whether the temporary file is written and renamed.\<close>

definition persist :: "bool \<Rightarrow> live_state \<Rightarrow> baseline_file \<Rightarrow> baseline_file" where
  "persist wok s f =
     (if lv_path s = [] \<or> lv_skeleton s = None then f
      else if wok then Baseline \<lparr>bl_Skeleton = lv_skeleton s, bl_Clients = Some (lv_clients s),
                                 bl_ConfigSHA = lv_sha s\<rparr>
      else f)"

definition set_live :: "bool \<Rightarrow> json \<Rightarrow> tag_clients \<Rightarrow> string \<Rightarrow> live_state \<Rightarrow> baseline_file
    \<Rightarrow> live_state \<times> baseline_file" where
  "set_live wok skel cs sh s f =
     (let s' = s\<lparr>lv_skeleton := Some skel, lv_clients := cs, lv_sha := sh\<rparr> in (s', persist wok s' f))"

subsection \<open>User edits over gRPC\<close>

datatype alter_op = AddUser string string | RemoveUser string

record 'x xray_api =
  alter :: "string \<Rightarrow> alter_op \<Rightarrow> 'x \<Rightarrow> bool \<times> 'x" \<comment> \<open>AlterInbound on an inbound tag\<close>
  restart :: "file_bytes option \<Rightarrow> 'x \<Rightarrow> bool \<times> 'x" \<comment> \<open>docker restart, with the config file\<close>

definition addUser :: "'x xray_api \<Rightarrow> string \<Rightarrow> string \<Rightarrow> string \<Rightarrow> 'x \<Rightarrow> bool \<times> 'x" where
  "addUser api tag email uid = alter api tag (AddUser email uid)"

definition removeUser :: "'x xray_api \<Rightarrow> string \<Rightarrow> string \<Rightarrow> 'x \<Rightarrow> bool \<times> 'x" where
  "removeUser api tag email = alter api tag (RemoveUser email)"

fun apply_adds :: "'x xray_api \<Rightarrow> string \<Rightarrow> client_set \<Rightarrow> client_set \<Rightarrow> 'x \<Rightarrow> bool \<times> 'x" where
  "apply_adds api tag oldSet [] x = (True, x)"
| "apply_adds api tag oldSet ((email, uid) # rest) x =
     (if map_of oldSet email = Some uid then apply_adds api tag oldSet rest x
      else let (ok1, x1) = (if map_of oldSet email \<noteq> None then removeUser api tag email x else (True, x))
           in if \<not> ok1 then (False, x1)
              else let (ok2, x2) = addUser api tag email uid x1
                   in if \<not> ok2 then (False, x2) else apply_adds api tag oldSet rest x2)"

fun apply_removals :: "'x xray_api \<Rightarrow> string \<Rightarrow> client_set \<Rightarrow> client_set \<Rightarrow> 'x \<Rightarrow> bool \<times> 'x" where
  "apply_removals api tag newSet [] x = (True, x)"
| "apply_removals api tag newSet ((email, uid) # rest) x =
     (if map_of newSet email \<noteq> None then apply_removals api tag newSet rest x
      else let (ok1, x1) = removeUser api tag email x
           in if \<not> ok1 then (False, x1) else apply_removals api tag newSet rest x1)"

fun apply_tags :: "'x xray_api \<Rightarrow> tag_clients \<Rightarrow> tag_clients \<Rightarrow> string list \<Rightarrow> 'x \<Rightarrow> bool \<times> 'x" where
  "apply_tags api old new [] x = (True, x)"
| "apply_tags api old new (tag # tags) x =
     (let (ok1, x1) = apply_adds api tag (tag_set tag old) (tag_set tag new) x
      in if \<not> ok1 then (False, x1)
         else let (ok2, x2) = apply_removals api tag (tag_set tag new) (tag_set tag old) x1
              in if \<not> ok2 then (False, x2) else apply_tags api old new tags x2)"

text \<open>\<open>dial\<close>: whether the gRPC client could be made; \<open>wok\<close>: whether the baseline file is written.\<close>

definition liveApply :: "'x xray_api \<Rightarrow> bool \<Rightarrow> bool \<Rightarrow> json \<Rightarrow> tag_clients \<Rightarrow> string
    \<Rightarrow> live_state \<Rightarrow> baseline_file \<Rightarrow> 'x \<Rightarrow> bool \<times> live_state \<times> baseline_file \<times> 'x" where
  "liveApply api dial wok skel cs sh s f x =
     (if lv_skeleton s = None \<or> lv_skeleton s \<noteq> Some skel then (False, s, f, x)
      else if \<not> dial then (False, s, f, x)
      else let (ok, x') = apply_tags api (lv_clients s) cs [tagTLS, tagReality] x
           in if \<not> ok then (False, s, f, x')
              else let (s', f') = set_live wok skel cs sh s f in (True, s', f', x'))"

subsection \<open>Dropping the TLS inbound, the REALITY server name\<close>

text \<open>The type assertion guards an interface comparison: \<^verbatim>\<open>inb["tag"] == tagTLS\<close>.\<close>

definition has_tag :: "string \<Rightarrow> json \<Rightarrow> bool" where
  "has_tag tag ib = (case as_obj ib of None \<Rightarrow> False | Some inb \<Rightarrow> jget ''tag'' inb = JStr tag)"

definition stripTLSIfNoCert :: "bool \<Rightarrow> string \<Rightarrow> json option \<Rightarrow> json option" where
  "stripTLSIfNoCert certExists certPath raw =
     (if certPath = [] then raw
      else if certExists then raw
      else case raw of
        Some (JObj m) \<Rightarrow>
          (case as_arr (jget ''inbounds'' m) of
             None \<Rightarrow> raw
           | Some ibs \<Rightarrow>
               if list_ex (has_tag tagTLS) ibs
               then Some (JObj (fmupd ''inbounds'' (JArr (filter (\<lambda>ib. \<not> has_tag tagTLS ib) ibs)) m))
               else raw)
      | _ \<Rightarrow> raw)"

definition obj_or_nil :: "json \<Rightarrow> (string, json) fmap" where
  "obj_or_nil j = (case as_obj j of None \<Rightarrow> fmempty | Some m \<Rightarrow> m)"

definition arr_or_nil :: "json \<Rightarrow> json list" where
  "arr_or_nil j = (case as_arr j of None \<Rightarrow> [] | Some a \<Rightarrow> a)"

fun reality_name :: "json list \<Rightarrow> string" where
  "reality_name [] = []"
| "reality_name (ib # ibs) =
     (if \<not> has_tag tagReality ib then reality_name ibs
      else let ss = obj_or_nil (jget ''streamSettings'' (obj_or_nil ib));
               rs = obj_or_nil (jget ''realitySettings'' ss)
           in case arr_or_nil (jget ''serverNames'' rs) of
                [] \<Rightarrow> reality_name ibs
              | n # _ \<Rightarrow> (case as_str n of None \<Rightarrow> [] | Some s \<Rightarrow> s))"

definition realitySNIFromConfig :: "json option \<Rightarrow> string" where
  "realitySNIFromConfig raw =
     (case raw of Some (JObj m) \<Rightarrow> reality_name (arr_or_nil (jget ''inbounds'' m)) | _ \<Rightarrow> [])"

subsection \<open>What the agent relies on\<close>

text \<open>
  \<open>serves x tag\<close> is the user table of an inbound of the running Xray, \<open>runs x\<close> the rest of its
  configuration. Documented behaviour of the handler service and of a restart: an operation that
  reports success has done what it says, and a successful restart runs the file.
\<close>

type_synonym 'x user_tables = "'x \<Rightarrow> string \<Rightarrow> string \<Rightarrow> string option"

definition edited :: "'x user_tables \<Rightarrow> ('x \<Rightarrow> json) \<Rightarrow> string \<Rightarrow> (string \<Rightarrow> string option) \<Rightarrow> 'x \<Rightarrow> 'x \<Rightarrow> bool" where
  "edited serves runs tag t x x' \<longleftrightarrow> runs x' = runs x \<and> serves x' = (serves x)(tag := t)"

definition xray_ok :: "'x xray_api \<Rightarrow> 'x user_tables \<Rightarrow> ('x \<Rightarrow> json) \<Rightarrow> bool" where
  "xray_ok api serves runs \<longleftrightarrow>
     (\<forall>tag e i x x'. alter api tag (AddUser e i) x = (True, x') \<longrightarrow>
        edited serves runs tag ((serves x tag)(e \<mapsto> i)) x x') \<and>
     (\<forall>tag e x x'. alter api tag (RemoveUser e) x = (True, x') \<longrightarrow>
        edited serves runs tag ((serves x tag)(e := None)) x x') \<and>
     (\<forall>j x x' skel cs. restart api (Some (Rendered j)) x = (True, x') \<longrightarrow> parseClients (Some j) = Some (skel, cs) \<longrightarrow>
        runs x' = skel \<and> (\<forall>tag \<in> {tagTLS, tagReality}. serves x' tag = map_of (tag_set tag cs)))"

text \<open>Xray runs what the baseline says (an empty baseline says nothing).\<close>

definition baseline_true :: "'x user_tables \<Rightarrow> ('x \<Rightarrow> json) \<Rightarrow> live_state \<Rightarrow> 'x \<Rightarrow> bool" where
  "baseline_true serves runs s x \<longleftrightarrow>
     (lv_skeleton s \<noteq> None \<longrightarrow> lv_skeleton s = Some (runs x) \<and>
        (\<forall>tag \<in> {tagTLS, tagReality}. serves x tag = map_of (tag_set tag (lv_clients s))))"

lemma xray_addD: "xray_ok api serves runs \<Longrightarrow> addUser api tag e i x = (True, x') \<Longrightarrow>
    edited serves runs tag ((serves x tag)(e \<mapsto> i)) x x'"
  by (simp add: xray_ok_def addUser_def)

lemma xray_removeD: "xray_ok api serves runs \<Longrightarrow> removeUser api tag e x = (True, x') \<Longrightarrow>
    edited serves runs tag ((serves x tag)(e := None)) x x'"
  by (simp add: xray_ok_def removeUser_def)

lemma xray_restartD: "xray_ok api serves runs \<Longrightarrow> restart api (Some (Rendered j)) x = (True, x') \<Longrightarrow>
    parseClients (Some j) = Some (skel, cs) \<Longrightarrow>
    runs x' = skel \<and> (\<forall>tag \<in> {tagTLS, tagReality}. serves x' tag = map_of (tag_set tag cs))"
  unfolding xray_ok_def by blast

lemma edited_trans: "edited serves runs tag t x x1 \<Longrightarrow> edited serves runs tag t' x1 x2 \<Longrightarrow>
    edited serves runs tag t' x x2"
  by (simp add: edited_def)

lemma edited_here: "edited serves runs tag t x x' \<Longrightarrow> serves x' tag = t"
  by (simp add: edited_def)

lemma edited_refl: "t = serves x tag \<Longrightarrow> edited serves runs tag t x x"
  by (simp add: edited_def)

lemma edited_cong: "edited serves runs tag t x x' \<Longrightarrow> t = t' \<Longrightarrow> edited serves runs tag t' x x'"
  by simp

subsection \<open>Live updates are exact\<close>

lemma apply_adds_exact:
  assumes api: "xray_ok api serves runs"
  shows "apply_adds api tag old new x = (True, x') \<Longrightarrow> keys_distinct new \<Longrightarrow>
     (\<And>e i. (e, i) \<in> set new \<Longrightarrow> map_of old e = Some i \<Longrightarrow> serves x tag e = Some i) \<Longrightarrow>
     edited serves runs tag (serves x tag ++ map_of new) x x'"
proof (induction new arbitrary: x)
  case Nil
  then show ?case by (simp add: edited_refl)
next
  case (Cons p rest)
  obtain e i where p: "p = (e, i)" by (cases p)
  from Cons.prems(2) p have fresh: "map_of rest e = None" by (simp add: map_of_eq_None_iff)
  show ?case
  proof (cases "map_of old e = Some i")
    case True
    with Cons.prems(3) p have "serves x tag e = Some i" by auto
    moreover have "edited serves runs tag (serves x tag ++ map_of rest) x x'"
      using Cons True p by auto
    ultimately show ?thesis
      using fresh p by (elim edited_cong) (auto simp: fun_eq_iff map_add_def split: option.splits)
  next
    case False
    obtain x1 x2 where x1: "(if map_of old e \<noteq> None then removeUser api tag e x else (True, x)) = (True, x1)"
      and x2: "addUser api tag e i x1 = (True, x2)" and r: "apply_adds api tag old rest x2 = (True, x')"
      using Cons.prems(1) False p by (auto simp: Let_def split: prod.splits if_splits)
    from x1 have "\<exists>t. edited serves runs tag t x x1 \<and> t(e \<mapsto> i) = (serves x tag)(e \<mapsto> i)"
      by (auto split: if_splits intro: edited_refl dest!: xray_removeD [OF api])
    with xray_addD [OF api x2] have ed: "edited serves runs tag ((serves x tag)(e \<mapsto> i)) x x2"
      by (metis edited_here edited_trans)
    have "serves x2 tag e' = Some j" if m: "(e', j) \<in> set rest" and o: "map_of old e' = Some j" for e' j
    proof -
      from m Cons.prems(2) p have "e' \<noteq> e" by (auto simp: image_iff)
      with Cons.prems(3) [of e' j] m o show ?thesis by (simp add: edited_here [OF ed])
    qed
    from Cons.IH [OF r _ this] Cons.prems(2) have "edited serves runs tag (serves x2 tag ++ map_of rest) x2 x'"
      by simp
    with ed have "edited serves runs tag ((serves x tag)(e \<mapsto> i) ++ map_of rest) x x'"
      by (metis edited_here edited_trans)
    then show ?thesis
      using fresh p by (elim edited_cong) (auto simp: fun_eq_iff map_add_def split: option.splits)
  qed
qed

lemma apply_removals_exact:
  assumes api: "xray_ok api serves runs"
  shows "apply_removals api tag new old x = (True, x') \<Longrightarrow>
     edited serves runs tag (\<lambda>e. if e \<in> dom (map_of old) - dom (map_of new) then None else serves x tag e) x x'"
proof (induction old arbitrary: x)
  case Nil
  then show ?case by (auto simp: edited_refl)
next
  case (Cons p rest)
  obtain e i where p: "p = (e, i)" by (cases p)
  show ?case
  proof (cases "map_of new e = None")
    case False
    with Cons.prems p have "apply_removals api tag new rest x = (True, x')" by simp
    from Cons.IH [OF this] False p show ?thesis
      by (elim edited_cong) (auto simp: fun_eq_iff split: if_splits)
  next
    case True
    obtain x1 where x1: "removeUser api tag e x = (True, x1)"
      and r: "apply_removals api tag new rest x1 = (True, x')"
      using Cons.prems True p by (auto simp: Let_def split: prod.splits if_splits)
    note ed = xray_removeD [OF api x1]
    from edited_trans [OF ed Cons.IH [OF r]] True p show ?thesis
      by (elim edited_cong) (auto simp: fun_eq_iff edited_here [OF ed])
  qed
qed

lemma tag_exact:
  assumes api: "xray_ok api serves runs" and old: "serves x tag = map_of old" and new: "keys_distinct new"
    and a: "apply_adds api tag old new x = (True, x1)" and r: "apply_removals api tag new old x1 = (True, x2)"
  shows "edited serves runs tag (map_of new) x x2"
proof -
  have ed: "edited serves runs tag (serves x tag ++ map_of new) x x1"
    by (rule apply_adds_exact [OF api a new]) (simp add: old)
  from edited_trans [OF ed apply_removals_exact [OF api r]] show ?thesis
    by (elim edited_cong) (auto simp: fun_eq_iff edited_here [OF ed] old map_add_def split: option.splits)
qed

lemma apply_tags_exact:
  assumes api: "xray_ok api serves runs"
  shows "apply_tags api old new tags x = (True, x') \<Longrightarrow> distinct tags \<Longrightarrow>
     (\<And>tag. tag \<in> set tags \<Longrightarrow> serves x tag = map_of (tag_set tag old)) \<Longrightarrow>
     (\<And>tag. keys_distinct (tag_set tag new)) \<Longrightarrow>
     runs x' = runs x \<and> (\<forall>tag. serves x' tag = (if tag \<in> set tags then map_of (tag_set tag new) else serves x tag))"
proof (induction tags arbitrary: x)
  case Nil
  then show ?case by simp
next
  case (Cons t tags)
  obtain x1 x2 where a: "apply_adds api t (tag_set t old) (tag_set t new) x = (True, x1)"
    and r: "apply_removals api t (tag_set t new) (tag_set t old) x1 = (True, x2)"
    and rest: "apply_tags api old new tags x2 = (True, x')"
    using Cons.prems(1) by (auto simp: Let_def split: prod.splits if_splits)
  have ed: "edited serves runs t (map_of (tag_set t new)) x x2"
    using tag_exact [OF api _ Cons.prems(4) a r] Cons.prems(3) by simp
  moreover have "serves x2 tag = map_of (tag_set tag old)" if "tag \<in> set tags" for tag
    using that ed Cons.prems(2,3) by (auto simp: edited_def)
  ultimately show ?case
    using Cons.IH [OF rest] Cons.prems(2,4) by (auto simp: edited_def)
qed

lemma tags_distinct [simp]: "distinct [tagTLS, tagReality]" "tagTLS \<noteq> tagReality" "tagReality \<noteq> tagTLS"
  by (simp_all add: tagTLS_def tagReality_def)

lemma add_client_distinct: "keys_distinct cs \<Longrightarrow> keys_distinct (add_client c cs)"
  by (auto simp: add_client_def distinct_update split: option.splits)

lemma add_clients_distinct: "keys_distinct cs \<Longrightarrow> keys_distinct (fold add_client arr cs)"
  by (induction arr arbitrary: cs) (simp_all add: add_client_distinct)

lemma tag_set_update [simp]: "tag_set t (AList.update k v m) = (if t = k then v else tag_set t m)"
  by (simp add: tag_set_def update_conv')

lemma tag_set_Nil [simp]: "tag_set t [] = []"
  by (simp add: tag_set_def)

lemma split_inbounds_distinct:
  "split_inbounds ibs acc = (ibs', acc') \<Longrightarrow> (\<And>tag. keys_distinct (tag_set tag acc)) \<Longrightarrow>
   keys_distinct (tag_set tag acc')"
proof (induction ibs arbitrary: acc ibs' acc')
  case Nil
  then show ?case by simp
next
  case (Cons ib ibs)
  obtain ib1 acc1 where s: "split_inbound ib acc = (ib1, acc1)" by fastforce
  have "keys_distinct (tag_set t acc1)" for t
    using s Cons.prems(2) by (auto simp: split_inbound_def add_clients_distinct
        split: option.splits if_splits)
  with Cons.IH [of acc1] Cons.prems(1) s show ?case by (auto simp: Let_def split: prod.splits)
qed

lemma parseClients_distinct: "parseClients raw = Some (skel, cs) \<Longrightarrow> keys_distinct (tag_set tag cs)"
  by (auto simp: parseClients_def Let_def split: option.splits json.splits prod.splits
      intro: split_inbounds_distinct [where acc = "[]"])

text \<open>A live update that reports success leaves Xray serving exactly the new client sets.\<close>

lemma liveApply_exact:
  assumes api: "xray_ok api serves runs" and base: "baseline_true serves runs s x"
    and new: "\<And>tag. keys_distinct (tag_set tag cs)"
    and ok: "liveApply api dial wok skel cs sh s f x = (True, s', f', x')"
  shows "runs x' = skel \<and> (\<forall>tag \<in> {tagTLS, tagReality}. serves x' tag = map_of (tag_set tag cs)) \<and>
    baseline_true serves runs s' x' \<and> lv_skeleton s' = Some skel \<and> lv_sha s' = sh \<and> f' = persist wok s' f"
proof -
  from ok have sk: "lv_skeleton s = Some skel" by (auto simp: liveApply_def split: if_splits)
  from ok have tags: "apply_tags api (lv_clients s) cs [tagTLS, tagReality] x = (True, x')"
    and s': "s' = s\<lparr>lv_skeleton := Some skel, lv_clients := cs, lv_sha := sh\<rparr>" "f' = persist wok s' f"
    by (auto simp: liveApply_def set_live_def Let_def split: if_splits prod.splits)
  from base sk have b: "runs x = skel" "\<And>tag. tag \<in> set [tagTLS, tagReality] \<Longrightarrow> serves x tag = map_of (tag_set tag (lv_clients s))"
    by (auto simp: baseline_true_def)
  from apply_tags_exact [OF api tags tags_distinct(1) b(2) new] b(1) s' show ?thesis
    by (auto simp: baseline_true_def)
qed

subsection \<open>Live updates succeed when Xray accepts the edits\<close>

text \<open>
  Xray refuses to add an account that exists and to remove one that does not, so an edit must be a
  removal followed by an addition. If it accepts all others, a live update never falls back.
\<close>

definition xray_accepts :: "'x xray_api \<Rightarrow> 'x user_tables \<Rightarrow> bool" where
  "xray_accepts api serves \<longleftrightarrow>
     (\<forall>tag e i x. serves x tag e = None \<longrightarrow> fst (alter api tag (AddUser e i) x)) \<and>
     (\<forall>tag e x. serves x tag e \<noteq> None \<longrightarrow> fst (alter api tag (RemoveUser e) x))"

lemma accepts_addD: "xray_accepts api serves \<Longrightarrow> serves x tag e = None \<Longrightarrow> \<exists>x'. addUser api tag e i x = (True, x')"
proof -
  assume "xray_accepts api serves" and "serves x tag e = None"
  then have "fst (alter api tag (AddUser e i) x)" by (simp add: xray_accepts_def)
  then show ?thesis by (cases "alter api tag (AddUser e i) x") (simp add: addUser_def)
qed

lemma accepts_removeD: "xray_accepts api serves \<Longrightarrow> serves x tag e \<noteq> None \<Longrightarrow> \<exists>x'. removeUser api tag e x = (True, x')"
proof -
  assume "xray_accepts api serves" and "serves x tag e \<noteq> None"
  then have "fst (alter api tag (RemoveUser e) x)" by (simp add: xray_accepts_def)
  then show ?thesis by (cases "alter api tag (RemoveUser e) x") (simp add: removeUser_def)
qed

lemma apply_adds_succeeds:
  assumes api: "xray_ok api serves runs" and acc: "xray_accepts api serves"
  shows "keys_distinct new \<Longrightarrow> (\<And>e i. (e, i) \<in> set new \<Longrightarrow> map_of old e = serves x tag e) \<Longrightarrow>
    \<exists>x'. apply_adds api tag old new x = (True, x')"
proof (induction new arbitrary: x)
  case Nil
  then show ?case by simp
next
  case (Cons p rest)
  obtain e i where p: "p = (e, i)" by (cases p)
  from Cons.prems(2) p have here: "map_of old e = serves x tag e" by auto
  have later: "\<exists>x'. apply_adds api tag old rest y = (True, x')" if "\<And>e'. e' \<noteq> e \<Longrightarrow> serves y tag e' = serves x tag e'" for y
  proof (rule Cons.IH)
    show "keys_distinct rest" using Cons.prems(1) by simp
    fix e' j assume m: "(e', j) \<in> set rest"
    with Cons.prems(1) p have "e' \<noteq> e" by (auto simp: image_iff)
    with that have "serves y tag e' = serves x tag e'" by simp
    moreover from Cons.prems(2) [of e' j] m have "map_of old e' = serves x tag e'" by simp
    ultimately show "map_of old e' = serves y tag e'" by simp
  qed
  show ?case
  proof (cases "map_of old e = Some i")
    case True
    with later [of x] p show ?thesis by simp
  next
    case False
    have "\<exists>x1. (if map_of old e \<noteq> None then removeUser api tag e x else (True, x)) = (True, x1) \<and>
        edited serves runs tag ((serves x tag)(e := None)) x x1"
      using accepts_removeD [OF acc, of x tag e] xray_removeD [OF api, of tag e x] here
      by (auto simp: edited_def fun_eq_iff)
    then obtain x1 where x1: "(if map_of old e \<noteq> None then removeUser api tag e x else (True, x)) = (True, x1)"
      and ed1: "edited serves runs tag ((serves x tag)(e := None)) x x1" by blast
    then obtain x2 where x2: "addUser api tag e i x1 = (True, x2)"
      using accepts_addD [OF acc, of x1 tag e i] by (auto simp: edited_here [OF ed1])
    note ed2 = xray_addD [OF api x2]
    have "serves x2 tag e' = serves x tag e'" if "e' \<noteq> e" for e'
      using that by (simp add: edited_here [OF ed1] edited_here [OF ed2])
    from later [OF this] x1 x2 False p show ?thesis by (simp add: Let_def)
  qed
qed

lemma apply_removals_succeeds:
  assumes api: "xray_ok api serves runs" and acc: "xray_accepts api serves"
  shows "keys_distinct old \<Longrightarrow> (\<And>e i. (e, i) \<in> set old \<Longrightarrow> serves x tag e \<noteq> None) \<Longrightarrow>
    \<exists>x'. apply_removals api tag new old x = (True, x')"
proof (induction old arbitrary: x)
  case Nil
  then show ?case by simp
next
  case (Cons p rest)
  obtain e i where p: "p = (e, i)" by (cases p)
  show ?case
  proof (cases "map_of new e = None")
    case False
    have "serves x tag e' \<noteq> None" if "(e', j) \<in> set rest" for e' j
      using Cons.prems(2) [of e' j] that by simp
    from Cons.IH [OF _ this] Cons.prems(1) False p show ?thesis by auto
  next
    case True
    from Cons.prems(2) p have "serves x tag e \<noteq> None" by auto
    then obtain x1 where x1: "removeUser api tag e x = (True, x1)" using accepts_removeD [OF acc] by blast
    note ed = xray_removeD [OF api x1]
    have "serves x1 tag e' \<noteq> None" if m: "(e', j) \<in> set rest" for e' j
    proof -
      from m Cons.prems(1) p have "e' \<noteq> e" by (auto simp: image_iff)
      with Cons.prems(2) [of e' j] m show ?thesis by (simp add: edited_here [OF ed])
    qed
    with Cons.IH [of x1] Cons.prems(1) x1 True p show ?thesis by (simp add: Let_def)
  qed
qed

lemma tag_succeeds:
  assumes api: "xray_ok api serves runs" and acc: "xray_accepts api serves"
    and old: "serves x tag = map_of old" "keys_distinct old" and new: "keys_distinct new"
  shows "\<exists>x1 x2. apply_adds api tag old new x = (True, x1) \<and> apply_removals api tag new old x1 = (True, x2)"
proof -
  obtain x1 where x1: "apply_adds api tag old new x = (True, x1)"
    using apply_adds_succeeds [OF api acc new, of old x tag] old by auto
  have ed: "edited serves runs tag (serves x tag ++ map_of new) x x1"
    by (rule apply_adds_exact [OF api x1 new]) (simp add: old)
  have "serves x1 tag e \<noteq> None" if "(e, i) \<in> set old" for e i
    using that old(2) by (simp add: edited_here [OF ed] old(1))
  then obtain x2 where "apply_removals api tag new old x1 = (True, x2)"
    using apply_removals_succeeds [OF api acc old(2), of x1 tag new] by auto
  with x1 show ?thesis by blast
qed

lemma apply_tags_succeeds:
  assumes api: "xray_ok api serves runs" and acc: "xray_accepts api serves"
  shows "distinct tags \<Longrightarrow> (\<And>tag. tag \<in> set tags \<Longrightarrow> serves x tag = map_of (tag_set tag old)) \<Longrightarrow>
     (\<And>tag. keys_distinct (tag_set tag old)) \<Longrightarrow> (\<And>tag. keys_distinct (tag_set tag new)) \<Longrightarrow>
     \<exists>x'. apply_tags api old new tags x = (True, x')"
proof (induction tags arbitrary: x)
  case Nil
  then show ?case by simp
next
  case (Cons t tags)
  obtain x1 x2 where a: "apply_adds api t (tag_set t old) (tag_set t new) x = (True, x1)"
    and r: "apply_removals api t (tag_set t new) (tag_set t old) x1 = (True, x2)"
    using tag_succeeds [OF api acc Cons.prems(2) Cons.prems(3,4), of t t] by auto
  have ed: "edited serves runs t (map_of (tag_set t new)) x x2"
    using tag_exact [OF api _ Cons.prems(4) a r] Cons.prems(2) by simp
  have "serves x2 tag = map_of (tag_set tag old)" if "tag \<in> set tags" for tag
    using that ed Cons.prems(1,2) by (auto simp: edited_def)
  with Cons.IH [of x2] Cons.prems(1,3,4) a r show ?case by (simp add: Let_def)
qed

subsection \<open>What the agent reads out of a generated configuration\<close>

definition client_set :: "client list \<Rightarrow> client_set" where
  "client_set cs = fold (\<lambda>c. AList.update (cl_Email c) (cl_UUID c)) cs []"

definition skeleton_of :: "node_params \<Rightarrow> json" where
  "skeleton_of p = config_frame (inbounds_of p [])"

lemma add_client_json [simp]:
  "cl_Email c \<noteq> [] \<Longrightarrow> add_client (client_json c) cs = AList.update (cl_Email c) (cl_UUID c) cs"
  by (simp add: add_client_def client_json_def)

lemma fold_add_client_json:
  "list_all (\<lambda>c. cl_Email c \<noteq> []) cs \<Longrightarrow>
   fold add_client (map client_json cs) acc = fold (\<lambda>c. AList.update (cl_Email c) (cl_UUID c)) cs acc"
  by (induction cs arbitrary: acc) simp_all

lemma split_api [simp]: "split_inbound api_inbound acc = (api_inbound, acc)"
  by (simp add: split_inbound_def api_inbound_def tagTLS_def tagReality_def)

lemma split_tls [simp]: "split_inbound (tls_inbound cl) acc =
    (tls_inbound [], AList.update tagTLS (fold add_client cl []) acc)"
  by (simp add: split_inbound_def tls_inbound_def tagTLS_def client_arr_def fmupd_of_list)

lemma split_reality [simp]: "split_inbound (reality_inbound p cl) acc =
    (reality_inbound p [], AList.update tagReality (fold add_client cl []) acc)"
  by (simp add: split_inbound_def reality_inbound_def tagReality_def tagTLS_def client_arr_def fmupd_of_list)

lemma parseClients_frame: "parseClients (Some (config_frame ibs)) =
    (let (ibs', cs) = split_inbounds ibs [] in Some (config_frame ibs', cs))"
proof -
  obtain m where "config_frame ibs = JObj m" "jget ''inbounds'' m = JArr ibs"
    "\<And>ibs'. JObj (fmupd ''inbounds'' (JArr ibs') m) = config_frame ibs'"
    using config_frame_obj by blast
  then show ?thesis by (simp add: parseClients_def Let_def split: prod.splits)
qed

lemma parse_Build:
  assumes "list_all (\<lambda>c. cl_Email c \<noteq> []) cs"
  shows "parseClients (Some (Build p cs)) = Some (skeleton_of p,
     (if np_TLSDomain p \<noteq> [] then [(tagTLS, client_set cs)] else []) @ [(tagReality, client_set cs)])"
  using assms by (simp add: Build_def parseClients_frame inbounds_of_def skeleton_of_def
      fold_add_client_json client_set_def)

lemma client_set_distinct: "keys_distinct (client_set cs)"
proof -
  have "keys_distinct acc \<Longrightarrow> keys_distinct (fold (\<lambda>c. AList.update (cl_Email c) (cl_UUID c)) cs acc)" for acc
    by (induction cs arbitrary: acc) (simp_all add: distinct_update)
  then show ?thesis by (simp add: client_set_def)
qed

lemma client_set_map: "distinct (map cl_Email cs) \<Longrightarrow>
    map_of (client_set cs) = map_of (map (\<lambda>c. (cl_Email c, cl_UUID c)) cs)"
proof -
  have "distinct (map cl_Email cs) \<Longrightarrow> map_of (fold (\<lambda>c. AList.update (cl_Email c) (cl_UUID c)) cs acc) =
      map_of acc ++ map_of (map (\<lambda>c. (cl_Email c, cl_UUID c)) cs)" for acc
  proof (induction cs arbitrary: acc)
    case Nil
    then show ?case by simp
  next
    case (Cons c cs)
    then have "map_of (map (\<lambda>c. (cl_Email c, cl_UUID c)) cs) (cl_Email c) = None"
      by (auto simp: map_of_eq_None_iff)
    with Cons show ?case by (auto simp: update_conv' fun_eq_iff map_add_def split: option.splits)
  qed
  then show "distinct (map cl_Email cs) \<Longrightarrow> ?thesis" by (simp add: client_set_def)
qed

end
