(* ===== verification/Nginx.thy ===== *)
theory Nginx
  imports GoStr
begin

section \<open>The node's nginx configuration (internal/agent/nginx.go)\<close>

text \<open>
  The generated nginx.conf routes the REALITY server name to one Xray port and everything else to
  the other. The name comes from the panel, so what matters is that it cannot add directives.
\<close>

definition unlines :: "string list \<Rightarrow> string" where
  "unlines ls = concat (map (\<lambda>l. l @ [CHR 0x0A]) ls)"

definition nginx_head :: "string list" where
  "nginx_head =
     [''user nginx;'',
      ''worker_processes auto;'',
      ''error_log /var/log/nginx/error.log warn;'',
      ''pid /var/run/nginx.pid;'',
      [],
      ''events {'',
      ''    worker_connections 1024;'',
      ''    use epoll;'',
      ''    multi_accept on;'',
      ''}'',
      [],
      ''stream {'',
      ''    upstream xray_tls_vision     { server xray:10444; }'',
      ''    upstream xray_reality_vision { server xray:10443; }'',
      [],
      ''    map $ssl_preread_server_name $xuanwu_stream_backend {'']"

definition nginx_tail :: "string list" where
  "nginx_tail =
     [''    }'',
      [],
      ''    server {'',
      ''        listen 443;'',
      ''        listen [::]:443;'',
      ''        proxy_pass $xuanwu_stream_backend;'',
      ''        ssl_preread on;'',
      ''        proxy_protocol on;               # send the real client IP to xray'',
      ''        proxy_connect_timeout 5s;'',
      ''        proxy_timeout 1h;'',
      ''    }'',
      ''}'',
      [],
      ''http {'',
      ''    include /etc/nginx/mime.types;'',
      ''    default_type application/octet-stream;'',
      ''    sendfile on;'',
      ''    tcp_nopush on;'',
      ''    tcp_nodelay on;'',
      ''    keepalive_timeout 65;'',
      ''    server_tokens off;'',
      [],
      ''    server {'',
      ''        listen 8080;'',
      ''        listen [::]:8080;'',
      ''        server_name _;'',
      ''        root /usr/share/nginx/html;'',
      ''        index index.html;'',
      [],
      ''        location / {'',
      ''            try_files $uri $uri/ $uri.html =404;'',
      ''        }'',
      ''        location ~ /'' @ [CHR 0x5C] @ ''. { deny all; }'',
      ''    }'',
      ''}'']"

definition nginxTmpl :: string where
  "nginxTmpl = unlines (nginx_head @
     [''__REALITY_MAP__'' @ ''        default                xray_tls_vision;''] @ nginx_tail)"

definition sni_char :: "char \<Rightarrow> bool" where
  "sni_char c \<longleftrightarrow> (let n = of_char c :: nat in
     97 \<le> n \<and> n \<le> 122 \<or> 65 \<le> n \<and> n \<le> 90 \<or> 48 \<le> n \<and> n \<le> 57 \<or>
     c = CHR ''.'' \<or> c = CHR ''-'' \<or> c = CHR ''_'' \<or> c = CHR ''*'')"

text \<open>Go ranges over runes; a rune that is not ASCII has only bytes from 128 up, which fail too.\<close>

definition validSNI :: "string \<Rightarrow> bool" where
  "validSNI s \<longleftrightarrow> s \<noteq> [] \<and> list_all sni_char s"

definition reality_line :: "string \<Rightarrow> string" where
  "reality_line realitySNI =
     (if realitySNI \<noteq> [] \<and> validSNI realitySNI
      then ''        '' @ realitySNI @ '' xray_reality_vision;'' @ [CHR 0x0A] else [])"

definition nginxConf :: "string \<Rightarrow> string" where
  "nginxConf realitySNI = Replace1 nginxTmpl ''__REALITY_MAP__'' (reality_line realitySNI)"

text \<open>
  \<open>applyNginx\<close>: the file it leaves (\<open>None\<close>: there is none) and whether it restarts nginx. The
  environment says whether the directory is made, the file written, the container running.
\<close>

record nginx_env =
  ne_mkdir :: bool
  ne_write :: bool
  ne_running :: bool

definition applyNginx :: "nginx_env \<Rightarrow> string \<Rightarrow> string \<Rightarrow> string option \<Rightarrow> string option \<times> bool" where
  "applyNginx env path realitySNI cur =
     (if path = [] then (cur, False)
      else let desired = nginxConf realitySNI
           in if cur = Some desired then (cur, False)
              else if \<not> ne_mkdir env then (cur, False)
              else if \<not> ne_write env then (cur, False)
              else (Some desired, ne_running env))"

subsection \<open>No directive can be injected\<close>

definition tmpl_head :: string where
  "tmpl_head = unlines nginx_head"

definition tmpl_tail :: string where
  "tmpl_tail = unlines (''        default                xray_tls_vision;'' # nginx_tail)"

lemma unlines_append [simp]: "unlines (ls @ ls') = unlines ls @ unlines ls'"
  by (simp add: unlines_def)

lemma unlines_Cons [simp]: "unlines (l # ls) = l @ CHR 0x0A # unlines ls"
  by (simp add: unlines_def)

lemma unlines_Nil [simp]: "unlines [] = []"
  by (simp add: unlines_def)

lemma cut_at_lines:
  "list_all (\<lambda>l. \<not> Contains l sep) ls \<Longrightarrow> CHR 0x0A \<notin> set sep \<Longrightarrow> sep \<noteq> [] \<Longrightarrow>
   cut_at sep (unlines ls @ s) = map_option (\<lambda>(a, b). (unlines ls @ a, b)) (cut_at sep s)"
  by (induction ls) (auto simp: cut_at_line option.map_comp option.map_ident comp_def split_def)

lemma nginx_head_unmarked: "list_all (\<lambda>l. \<not> Contains l ''__REALITY_MAP__'') nginx_head"
  unfolding nginx_head_def by code_simp

lemma cut_at_mark:
  "list_all (\<lambda>l. \<not> Contains l sep) ls \<Longrightarrow> CHR 0x0A \<notin> set sep \<Longrightarrow> sep \<noteq> [] \<Longrightarrow>
   t = unlines ls @ sep @ s \<Longrightarrow> cut_at sep t = Some (unlines ls, s)"
  by (simp add: cut_at_lines cut_at_here)

lemma tmpl_cut: "cut_at ''__REALITY_MAP__'' nginxTmpl = Some (tmpl_head, tmpl_tail)"
  unfolding tmpl_head_def
proof (rule cut_at_mark [OF nginx_head_unmarked])
  show "nginxTmpl = unlines nginx_head @ ''__REALITY_MAP__'' @ tmpl_tail"
    by (simp only: nginxTmpl_def tmpl_tail_def unlines_append unlines_Cons unlines_Nil append_assoc append_Cons append_Nil)
qed simp_all

lemma nginxConf_parts: "nginxConf sni = tmpl_head @ reality_line sni @ tmpl_tail"
  by (simp add: nginxConf_def Replace1_def tmpl_cut)

definition occurrences :: "char \<Rightarrow> string \<Rightarrow> nat" where
  "occurrences c s = length (filter (\<lambda>d. d = c) s)"

lemma occurrences_append [simp]: "occurrences c (s @ t) = occurrences c s + occurrences c t"
  by (simp add: occurrences_def)

lemma occurrences_none: "c \<notin> set s \<Longrightarrow> occurrences c s = 0"
  by (auto simp: occurrences_def filter_empty_conv)

definition nginx_special :: "char set" where
  "nginx_special = {CHR ''{'', CHR ''}'', CHR '';'', CHR 0x22, CHR 0x27, CHR ''#'', CHR ''$'', CHR 0x5C,
     CHR '' '', CHR 0x09, CHR 0x0A, CHR 0x0D}"

lemma special_not_sni: "c \<in> nginx_special \<Longrightarrow> \<not> sni_char c"
  by (auto simp: nginx_special_def sni_char_def)

text \<open>
  C5. Whatever server name arrives, the generated file is the template with at most one extra map
  entry: a valid name adds exactly one line with one terminating semicolon, a name with any other
  character adds nothing, and no brace, quote, comment, variable or backslash comes from the name.
\<close>
theorem nginxConf_no_injection:
  "nginxConf sni = tmpl_head @ reality_line sni @ tmpl_tail \<and>
   (if validSNI sni then reality_line sni = ''        '' @ sni @ '' xray_reality_vision;'' @ [CHR 0x0A] else reality_line sni = []) \<and>
   (\<forall>c \<in> nginx_special - {CHR '';'', CHR '' '', CHR 0x0A}. occurrences c (nginxConf sni) = occurrences c (nginxConf [])) \<and>
   occurrences (CHR '';'') (nginxConf sni) = occurrences (CHR '';'') (nginxConf []) + (if validSNI sni then 1 else 0) \<and>
   occurrences (CHR 0x0A) (nginxConf sni) = occurrences (CHR 0x0A) (nginxConf []) + (if validSNI sni then 1 else 0)"
proof -
  have none: "reality_line [] = []" by (simp add: reality_line_def)
  have line: "reality_line sni = (if validSNI sni then ''        '' @ sni @ '' xray_reality_vision;'' @ [CHR 0x0A] else [])"
    by (auto simp: reality_line_def validSNI_def)
  have sni0: "occurrences c sni = 0" if "validSNI sni" "c \<in> nginx_special" for c
    using that special_not_sni by (intro occurrences_none) (auto simp: validSNI_def list_all_iff)
  have semi: "CHR '';'' \<in> nginx_special" "CHR 0x0A \<in> nginx_special" by (simp_all add: nginx_special_def)
  have rest: "occurrences c ''        '' = 0" "occurrences c '' xray_reality_vision;'' = 0" "occurrences c [CHR 0x0A] = 0"
    if "c \<in> nginx_special - {CHR '';'', CHR '' '', CHR 0x0A}" for c
    using that unfolding nginx_special_def by - (elim DiffE insertE emptyE; simp add: occurrences_def)+
  have one: "occurrences (CHR '';'') ''        '' = 0" "occurrences (CHR '';'') '' xray_reality_vision;'' = 1"
    "occurrences (CHR '';'') [CHR 0x0A] = 0" "occurrences (CHR 0x0A) ''        '' = 0"
    "occurrences (CHR 0x0A) '' xray_reality_vision;'' = 0" "occurrences (CHR 0x0A) [CHR 0x0A] = 1"
    by (simp_all add: occurrences_def)
  show ?thesis
    by (intro conjI ballI) (auto simp: nginxConf_parts line none sni0 semi rest one occurrences_def [of _ "[]"]
        simp del: append_Cons append_Nil)
qed

theorem nginxConf_no_injection_witness:
  "nginxConf ''a; } server {'' = nginxConf [] \<and>
   occurrences (CHR ''{'') (nginxConf ''www.example.com'') = occurrences (CHR ''{'') (nginxConf [])"
proof
  have "\<not> validSNI ''a; } server {''" by code_simp
  then show "nginxConf ''a; } server {'' = nginxConf []"
    using nginxConf_no_injection [of "''a; } server {''"] nginxConf_no_injection [of "[]"]
    by (simp add: validSNI_def [of "[]"] del: append_Cons)
  have "CHR ''{'' \<in> nginx_special - {CHR '';'', CHR '' '', CHR 0x0A}" by (simp add: nginx_special_def)
  then show "occurrences (CHR ''{'') (nginxConf ''www.example.com'') = occurrences (CHR ''{'') (nginxConf [])"
    using nginxConf_no_injection by blast
qed

lemma nginxConf_inj: "validSNI a \<Longrightarrow> validSNI b \<Longrightarrow> nginxConf a = nginxConf b \<Longrightarrow> a = b"
  by (auto simp: nginxConf_parts reality_line_def validSNI_def)

text \<open>A second application with the same name leaves nginx alone.\<close>

lemma applyNginx_stable:
  "applyNginx env path sni cur = (Some (nginxConf sni), r) \<Longrightarrow>
   applyNginx env' path sni (Some (nginxConf sni)) = (Some (nginxConf sni), False)"
  by (simp add: applyNginx_def Let_def)

end
