(* ===== verification/Apply.thy ===== *)
theory Apply
  imports Live Nginx
begin

section \<open>Applying a pushed configuration (internal/agent: xray, acme, certwatch)\<close>

text \<open>
  \<open>applyConfig\<close> with everything it touches: the last configuration, the Xray configuration file, the
  nginx file, the baseline and its file, and Xray itself. The outcomes of file writes, of the gRPC
  dial and of the certificate's \<^verbatim>\<open>stat\<close> are the environment of one call.
\<close>

record agent_cfg =
  ac_XrayConfig :: string
  ac_CertPath :: string
  ac_NginxConf :: string
  ac_ACMEDomainFile :: string

record 'x node_state =
  ns_live :: live_state
  ns_baseline :: baseline_file
  ns_config :: "file_bytes option"
  ns_nginx :: "string option"
  ns_acme :: "string option"
  ns_last :: "json option" \<comment> \<open>the raw bytes; None when empty or not JSON\<close>
  ns_xray :: 'x

text \<open>\<open>ev_write_fails\<close>: \<open>None\<close> if the configuration file is written, else what the failed write left.\<close>

record step_env =
  ev_cert :: bool
  ev_write_fails :: "file_bytes option option"
  ev_nginx :: nginx_env
  ev_dial :: bool
  ev_persist :: bool
  ev_mkdir :: bool
  ev_acme_write :: bool

datatype apply_err = BadConfig | WriteFailed | RestartFailed

definition writeConfig :: "step_env \<Rightarrow> json option \<Rightarrow> file_bytes option
    \<Rightarrow> (apply_err + file_bytes) \<times> file_bytes option" where
  "writeConfig env raw cur =
     (case raw of
        None \<Rightarrow> (Inl BadConfig, cur)
      | Some obj \<Rightarrow> (case ev_write_fails env of
            Some left \<Rightarrow> (Inl WriteFailed, left)
          | None \<Rightarrow> (Inr (Rendered obj), Some (Rendered obj))))"

definition restartXray :: "hash_fn \<Rightarrow> 'x xray_api \<Rightarrow> bool \<Rightarrow> (json \<times> tag_clients) option \<Rightarrow> string
    \<Rightarrow> 'x node_state \<Rightarrow> (apply_err + unit) \<times> 'x node_state" where
  "restartXray bytesSHA api wok parsed sh st =
     (let (rok, x) = restart api (ns_config st) (ns_xray st); st = st\<lparr>ns_xray := x\<rparr>
      in if \<not> rok then (Inl RestartFailed, st)
         else case parsed of
           None \<Rightarrow> (Inr (), st)
         | Some (skel, cs) \<Rightarrow>
             let (lv, bf) = set_live wok skel cs sh (ns_live st) (ns_baseline st)
             in (Inr (), st\<lparr>ns_live := lv, ns_baseline := bf\<rparr>))"

definition applyConfig :: "hash_fn \<Rightarrow> 'x xray_api \<Rightarrow> agent_cfg \<Rightarrow> step_env \<Rightarrow> json option
    \<Rightarrow> 'x node_state \<Rightarrow> (apply_err + unit) \<times> 'x node_state" where
  "applyConfig bytesSHA api c env raw0 st0 =
     (let st = st0\<lparr>ns_last := raw0\<rparr>;
          raw = stripTLSIfNoCert (ev_cert env) (ac_CertPath c) raw0;
          (w, config) = writeConfig env raw (ns_config st);
          st = st\<lparr>ns_config := config\<rparr>
      in case w of
           Inl e \<Rightarrow> (Inl e, st)
         | Inr pretty \<Rightarrow>
             let st = st\<lparr>ns_nginx := fst (applyNginx (ev_nginx env) (ac_NginxConf c)
                                          (realitySNIFromConfig raw) (ns_nginx st))\<rparr>;
                 sh = bytesSHA pretty;
                 parsed = parseClients raw
             in case parsed of
                  None \<Rightarrow> restartXray bytesSHA api (ev_persist env) parsed sh st
                | Some (skel, cs) \<Rightarrow>
                    let (ok, lv, bf, x) = liveApply api (ev_dial env) (ev_persist env) skel cs sh
                                            (ns_live st) (ns_baseline st) (ns_xray st);
                        st = st\<lparr>ns_live := lv, ns_baseline := bf, ns_xray := x\<rparr>
                    in if ok then (Inr (), st)
                       else restartXray bytesSHA api (ev_persist env) parsed sh st)"

definition writeACMEDomain :: "step_env \<Rightarrow> string \<Rightarrow> string \<Rightarrow> string option \<Rightarrow> string option" where
  "writeACMEDomain env path domain0 cur =
     (if path = [] then cur
      else let domain = TrimSpace domain0
           in if (case cur of None \<Rightarrow> False | Some b \<Rightarrow> TrimSpace b = domain) then cur
              else if \<not> ev_mkdir env then cur
              else if \<not> ev_acme_write env then cur
              else Some (domain @ [CHR 0x0A]))"

text \<open>The session's handling of a \<^verbatim>\<open>config\<close> message; the error is only logged.\<close>

definition onConfig :: "hash_fn \<Rightarrow> 'x xray_api \<Rightarrow> agent_cfg \<Rightarrow> step_env \<Rightarrow> json option \<Rightarrow> string
    \<Rightarrow> 'x node_state \<Rightarrow> (apply_err + unit) \<times> 'x node_state" where
  "onConfig bytesSHA api c env raw tlsDomain st =
     applyConfig bytesSHA api c env raw
       (st\<lparr>ns_acme := writeACMEDomain env (ac_ACMEDomainFile c) tlsDomain (ns_acme st)\<rparr>)"

text \<open>
  A turn of the certificate watcher: \<open>stamp\<close> is the file's modification time and size (\<open>None\<close>: no
  file), \<open>last\<close> what it saw before. It re-applies the last configuration, or restarts Xray.
\<close>

definition certTick :: "hash_fn \<Rightarrow> 'x xray_api \<Rightarrow> agent_cfg \<Rightarrow> step_env \<Rightarrow> (int \<times> int) option
    \<Rightarrow> (int \<times> int) option \<Rightarrow> 'x node_state \<Rightarrow> (int \<times> int) option \<times> 'x node_state" where
  "certTick bytesSHA api c env stamp lst st =
     (case stamp of
        None \<Rightarrow> (lst, st)
      | Some (mt, sz) \<Rightarrow>
          if (case lst of None \<Rightarrow> True | Some (lt, ls) \<Rightarrow> mt > lt \<or> sz \<noteq> ls)
          then (stamp, (case ns_last st of
                  Some cfg \<Rightarrow> snd (applyConfig bytesSHA api c env (Some cfg) st)
                | None \<Rightarrow> st\<lparr>ns_xray := snd (restart api (ns_config st) (ns_xray st))\<rparr>))
          else (lst, st))"

text \<open>Starting the agent (\<open>ConfigFromEnv\<close>): a new live state, seeded from the files.\<close>

definition agentStart :: "hash_fn \<Rightarrow> agent_cfg \<Rightarrow> string \<Rightarrow> 'x node_state \<Rightarrow> 'x node_state" where
  "agentStart bytesSHA c baselinePath st =
     st\<lparr>ns_live := seed bytesSHA (ac_XrayConfig c) (ns_config st) (ns_baseline st) (newLiveState baselinePath),
        ns_last := None\<rparr>"

subsection \<open>A successful push is exactly what Xray serves\<close>

text \<open>Xray runs the configuration of the file.\<close>

definition in_sync :: "'x user_tables \<Rightarrow> ('x \<Rightarrow> json) \<Rightarrow> 'x node_state \<Rightarrow> bool" where
  "in_sync serves runs st \<longleftrightarrow>
     (case ns_config st of
        Some (Rendered j) \<Rightarrow>
          (case parseClients (Some j) of
             Some (skel, cs) \<Rightarrow> runs (ns_xray st) = skel \<and>
               (\<forall>tag \<in> {tagTLS, tagReality}. serves (ns_xray st) tag = map_of (tag_set tag cs))
           | None \<Rightarrow> False)
      | _ \<Rightarrow> False)"

text \<open>The baseline file records a configuration together with the hash of its rendering.\<close>

definition record_ok :: "hash_fn \<Rightarrow> baseline_file \<Rightarrow> bool" where
  "record_ok bytesSHA f \<longleftrightarrow>
     (case f of
        Baseline bl \<Rightarrow> \<exists>j skel cs. parseClients (Some j) = Some (skel, cs) \<and> bl_Skeleton bl = Some skel \<and>
          bl_Clients bl = Some cs \<and> bl_ConfigSHA bl = bytesSHA (Rendered j)
      | _ \<Rightarrow> True)"

lemma persist_record_ok:
  "parseClients (Some j) = Some (skel, cs) \<Longrightarrow> record_ok bytesSHA f \<Longrightarrow>
   record_ok bytesSHA (persist wok (s\<lparr>lv_skeleton := Some skel, lv_clients := cs, lv_sha := bytesSHA (Rendered j)\<rparr>) f)"
  by (auto simp: persist_def record_ok_def)

lemma restartXray_sync:
  assumes api: "xray_ok api serves runs" and p: "parseClients (Some j) = Some (skel, cs)"
    and r: "restartXray bytesSHA api wok (Some (skel, cs)) (bytesSHA (Rendered j)) st = (Inr u, st')"
    and cfgf: "ns_config st = Some (Rendered j)" and rec: "record_ok bytesSHA (ns_baseline st)"
  shows "ns_config st' = ns_config st \<and> in_sync serves runs st' \<and> baseline_true serves runs (ns_live st') (ns_xray st') \<and>
    record_ok bytesSHA (ns_baseline st')"
proof -
  obtain x where x: "restart api (Some (Rendered j)) (ns_xray st) = (True, x)"
    and st': "st' = st\<lparr>ns_xray := x,
      ns_live := (ns_live st)\<lparr>lv_skeleton := Some skel, lv_clients := cs, lv_sha := bytesSHA (Rendered j)\<rparr>,
      ns_baseline := persist wok ((ns_live st)\<lparr>lv_skeleton := Some skel, lv_clients := cs, lv_sha := bytesSHA (Rendered j)\<rparr>)
        (ns_baseline st)\<rparr>"
    using r cfgf by (auto simp: restartXray_def set_live_def Let_def split: prod.splits if_splits)
  from xray_restartD [OF api x p] persist_record_ok [OF p rec] p cfgf show ?thesis
    by (simp add: st' in_sync_def baseline_true_def)
qed

lemma applyConfig_sync:
  assumes api: "xray_ok api serves runs"
    and base: "baseline_true serves runs (ns_live st) (ns_xray st)"
    and rec: "record_ok bytesSHA (ns_baseline st)"
    and raw: "stripTLSIfNoCert (ev_cert env) (ac_CertPath c) raw0 = Some j"
    and p: "parseClients (Some j) = Some (skel, cs)"
    and ok: "applyConfig bytesSHA api c env raw0 st = (Inr u, st')"
  shows "ns_config st' = Some (Rendered j) \<and> in_sync serves runs st' \<and>
    baseline_true serves runs (ns_live st') (ns_xray st') \<and> record_ok bytesSHA (ns_baseline st')"
proof -
  have w: "ev_write_fails env = None"
    using ok raw by (auto simp: applyConfig_def writeConfig_def Let_def split: option.splits)
  define st1 where "st1 = st\<lparr>ns_last := raw0, ns_config := Some (Rendered j),
      ns_nginx := fst (applyNginx (ev_nginx env) (ac_NginxConf c) (realitySNIFromConfig (Some j)) (ns_nginx st))\<rparr>"
  obtain lok lv bf x where live: "liveApply api (ev_dial env) (ev_persist env) skel cs (bytesSHA (Rendered j))
      (ns_live st1) (ns_baseline st1) (ns_xray st1) = (lok, lv, bf, x)"
    by (metis prod_cases4)
  define st2 where "st2 = st1\<lparr>ns_live := lv, ns_baseline := bf, ns_xray := x\<rparr>"
  have run: "(if lok then (Inr (), st2)
      else restartXray bytesSHA api (ev_persist env) (Some (skel, cs)) (bytesSHA (Rendered j)) st2) = (Inr u, st')"
    using ok raw p w live by (cases lok) (simp_all add: applyConfig_def writeConfig_def Let_def st1_def st2_def)
  have cfgf: "ns_config st2 = Some (Rendered j)" by (simp add: st2_def st1_def)
  show ?thesis
  proof (cases lok)
    case True
    from base have base1: "baseline_true serves runs (ns_live st1) (ns_xray st1)" by (simp add: st1_def)
    from live True have live': "liveApply api (ev_dial env) (ev_persist env) skel cs (bytesSHA (Rendered j))
      (ns_live st1) (ns_baseline st1) (ns_xray st1) = (True, lv, bf, x)" by simp
    note ex = liveApply_exact [OF api base1 parseClients_distinct [OF p] live']
    from live True have "lv = (ns_live st1)\<lparr>lv_skeleton := Some skel, lv_clients := cs, lv_sha := bytesSHA (Rendered j)\<rparr>"
      by (auto simp: liveApply_def set_live_def Let_def split: if_splits prod.splits)
    with ex persist_record_ok [OF p rec, of "ev_persist env" "ns_live st1"] rec
    have "record_ok bytesSHA bf" by (simp add: st1_def)
    with ex run True cfgf p show ?thesis by (auto simp: st2_def in_sync_def)
  next
    case False
    then have "bf = ns_baseline st" using live
      by (auto simp: liveApply_def st1_def Let_def split: if_splits prod.splits)
    with rec have "record_ok bytesSHA (ns_baseline st2)" by (simp add: st2_def)
    with restartXray_sync [OF api p _ cfgf] run False cfgf show ?thesis by auto
  qed
qed


lemma agentStart_baseline:
  assumes sync: "in_sync serves runs st" and rec: "record_ok bytesSHA (ns_baseline st)"
    and hash: "\<And>b. bytesSHA b = fileSHA bytesSHA (ns_config st) \<Longrightarrow> ns_config st = Some b"
  shows "baseline_true serves runs (ns_live (agentStart bytesSHA c path st)) (ns_xray (agentStart bytesSHA c path st))"
proof (cases "lv_skeleton (ns_live (agentStart bytesSHA c path st))")
  case None
  then show ?thesis by (simp add: baseline_true_def)
next
  case (Some skel)
  then obtain bl where bl: "ns_baseline st = Baseline bl" and sk: "bl_Skeleton bl = Some skel"
    and sh: "bl_ConfigSHA bl = fileSHA bytesSHA (ns_config st)"
    and live: "lv_clients (ns_live (agentStart bytesSHA c path st)) = (case bl_Clients bl of None \<Rightarrow> [] | Some c \<Rightarrow> c)"
    by (auto simp: agentStart_def seed_def newLiveState_def split: if_splits baseline_file.splits)
  from sync obtain j where j: "ns_config st = Some (Rendered j)" by (auto simp: in_sync_def split: option.splits file_bytes.splits)
  from rec bl obtain j' cs where j': "parseClients (Some j') = Some (skel, cs)" "bl_Clients bl = Some cs"
    "bl_ConfigSHA bl = bytesSHA (Rendered j')"
    using sk by (auto simp: record_ok_def)
  from hash [of "Rendered j'"] sh j j'(3) have "j' = j" by simp
  with sync j j' live Some show ?thesis
    by (simp add: in_sync_def baseline_true_def agentStart_def)
qed


text \<open>
  C3. When nothing but users changed, a push never restarts Xray: if Xray accepts adding absent
  accounts and removing present ones, the dial works and the baseline is true, the push succeeds
  over gRPC and \<^verbatim>\<open>docker restart\<close> is not called, whatever it would do.
\<close>
theorem user_change_needs_no_restart:
  assumes api: "xray_ok api serves runs" and acc: "xray_accepts api serves"
    and base: "baseline_true serves runs (ns_live st) (ns_xray st)"
    and old: "\<And>tag. keys_distinct (tag_set tag (lv_clients (ns_live st)))"
    and raw: "stripTLSIfNoCert (ev_cert env) (ac_CertPath c) raw0 = Some j"
    and p: "parseClients (Some j) = Some (skel, cs)" and same: "lv_skeleton (ns_live st) = Some skel"
    and env: "ev_dial env" "ev_write_fails env = None"
  shows "\<exists>st'. applyConfig bytesSHA api c env raw0 st = (Inr (), st') \<and>
    (\<forall>r. applyConfig bytesSHA (api\<lparr>restart := r\<rparr>) c env raw0 st = (Inr (), st')) \<and>
    lv_skeleton (ns_live st') = Some skel \<and> lv_clients (ns_live st') = cs"
proof -
  have "\<And>tag. tag \<in> set [tagTLS, tagReality] \<Longrightarrow>
      serves (ns_xray st) tag = map_of (tag_set tag (lv_clients (ns_live st)))"
    using base same by (auto simp: baseline_true_def)
  from apply_tags_succeeds [OF api acc tags_distinct(1) this old parseClients_distinct [OF p]]
  obtain x where x: "apply_tags api (lv_clients (ns_live st)) cs [tagTLS, tagReality] (ns_xray st) = (True, x)" by blast
  have same_edits: "apply_tags (api\<lparr>restart := r\<rparr>) old new tags x = apply_tags api old new tags x" for r old new tags x
  proof -
    have a: "apply_adds (api\<lparr>restart := r\<rparr>) t o1 n1 y = apply_adds api t o1 n1 y" for t o1 n1 y
      by (induction n1 arbitrary: y) (auto simp: addUser_def removeUser_def Let_def split: prod.splits)
    have b: "apply_removals (api\<lparr>restart := r\<rparr>) t n1 o1 y = apply_removals api t n1 o1 y" for t o1 n1 y
      by (induction o1 arbitrary: y) (auto simp: removeUser_def Let_def split: prod.splits)
    show ?thesis by (induction tags arbitrary: x) (auto simp: a b Let_def split: prod.splits)
  qed
  show ?thesis
    using raw p same env x
    by (simp add: applyConfig_def writeConfig_def liveApply_def set_live_def Let_def same_edits del: apply_tags.simps)
qed

subsection \<open>An Xray to run the agent against\<close>

text \<open>
  A simulated Xray: its configuration, its accounts, and for each coming call whether it fails. It
  behaves as documented, refuses duplicate additions and unknown removals, and so shows that the
  hypotheses above can hold.
\<close>

record sim =
  sx_runs :: json
  sx_tags :: tag_clients
  sx_fails :: "bool list"

definition sim_serves :: "sim user_tables" where
  "sim_serves x tag = map_of (tag_set tag (sx_tags x))"

definition sim_call :: "(sim \<Rightarrow> bool \<times> sim) \<Rightarrow> sim \<Rightarrow> bool \<times> sim" where
  "sim_call f x = (case sx_fails x of [] \<Rightarrow> f x | b # bs \<Rightarrow>
     if b then (False, x\<lparr>sx_fails := bs\<rparr>) else f (x\<lparr>sx_fails := bs\<rparr>))"

definition sim_set :: "string \<Rightarrow> client_set \<Rightarrow> sim \<Rightarrow> sim" where
  "sim_set tag s x = x\<lparr>sx_tags := AList.update tag s (sx_tags x)\<rparr>"

fun sim_alter :: "string \<Rightarrow> alter_op \<Rightarrow> sim \<Rightarrow> bool \<times> sim" where
  "sim_alter tag (AddUser e i) x = (let s = tag_set tag (sx_tags x) in
     if map_of s e = None then (True, sim_set tag (AList.update e i s) x) else (False, x))"
| "sim_alter tag (RemoveUser e) x = (let s = tag_set tag (sx_tags x) in
     if map_of s e \<noteq> None then (True, sim_set tag (AList.delete e s) x) else (False, x))"

fun sim_restart :: "file_bytes option \<Rightarrow> sim \<Rightarrow> bool \<times> sim" where
  "sim_restart (Some (Rendered j)) x = (case parseClients (Some j) of
     Some (skel, cs) \<Rightarrow> (True, x\<lparr>sx_runs := skel, sx_tags := cs\<rparr>) | None \<Rightarrow> (False, x))"
| "sim_restart _ x = (False, x)"

definition sim_api :: "sim xray_api" where
  "sim_api = \<lparr>alter = (\<lambda>tag op. sim_call (sim_alter tag op)), restart = (\<lambda>f. sim_call (sim_restart f))\<rparr>"

lemma sim_callD: "sim_call f x = (True, x') \<Longrightarrow> \<exists>bs. f (x\<lparr>sx_fails := bs\<rparr>) = (True, x')"
  by (auto simp: sim_call_def split: list.splits if_splits intro: exI [of _ "[]"]) (metis sim.surjective sim.update_convs(3))

lemma sim_ok: "xray_ok sim_api sim_serves sx_runs"
  unfolding xray_ok_def
proof (intro conjI allI impI)
  fix tag e i x x' assume "alter sim_api tag (AddUser e i) x = (True, x')"
  then show "edited sim_serves sx_runs tag ((sim_serves x tag)(e \<mapsto> i)) x x'"
    by (auto simp: sim_api_def edited_def sim_set_def sim_serves_def fun_eq_iff Let_def update_conv' split: if_splits
        dest!: sim_callD)
next
  fix tag e x x' assume "alter sim_api tag (RemoveUser e) x = (True, x')"
  then show "edited sim_serves sx_runs tag ((sim_serves x tag)(e := None)) x x'"
    by (auto simp: sim_api_def edited_def sim_set_def sim_serves_def fun_eq_iff Let_def delete_conv' split: if_splits
        dest!: sim_callD)
next
  fix j x x' skel cs
  assume "restart sim_api (Some (Rendered j)) x = (True, x')" and "parseClients (Some j) = Some (skel, cs)"
  then show "sx_runs x' = skel" and "\<forall>tag \<in> {tagTLS, tagReality}. sim_serves x' tag = map_of (tag_set tag cs)"
    by (auto simp: sim_api_def sim_serves_def dest!: sim_callD)
qed

definition sim_api0 :: "sim xray_api" where
  "sim_api0 = \<lparr>alter = sim_alter, restart = sim_restart\<rparr>"

lemma sim0_ok: "xray_ok sim_api0 sim_serves sx_runs"
  unfolding xray_ok_def
  by (auto simp: sim_api0_def edited_def sim_set_def sim_serves_def fun_eq_iff Let_def update_conv' delete_conv'
      split: if_splits)

lemma sim0_accepts: "xray_accepts sim_api0 sim_serves"
  unfolding xray_accepts_def by (auto simp: sim_api0_def sim_serves_def Let_def)

definition sample_params :: node_params where
  "sample_params = \<lparr>np_RealityDest = ''example.com:443'', np_RealityServerName = ''example.com'',
     np_RealityPrivateKey = ''key'', np_RealityShortID = ''ab'', np_TLSDomain = []\<rparr>"

definition sample_cfg :: "string list \<Rightarrow> json" where
  "sample_cfg names = Build sample_params (map (\<lambda>n. \<lparr>cl_UUID = ''id-'' @ n, cl_Email = n\<rparr>) names)"

definition sample_agent :: agent_cfg where
  "sample_agent = \<lparr>ac_XrayConfig = ''config.json'', ac_CertPath = [], ac_NginxConf = ''nginx.conf'',
     ac_ACMEDomainFile = []\<rparr>"

definition sample_env :: step_env where
  "sample_env = \<lparr>ev_cert = False, ev_write_fails = None,
     ev_nginx = \<lparr>ne_mkdir = True, ne_write = True, ne_running = True\<rparr>, ev_dial = True, ev_persist = True,
     ev_mkdir = True, ev_acme_write = True\<rparr>"

definition sample_node :: "bool list \<Rightarrow> sim node_state" where
  "sample_node fails = \<lparr>ns_live = newLiveState ''baseline.json'', ns_baseline = NoBaseline, ns_config = None,
     ns_nginx = None, ns_acme = None, ns_last = None,
     ns_xray = \<lparr>sx_runs = JNull, sx_tags = [], sx_fails = fails\<rparr>\<rparr>"

text \<open>A hash for the examples: the length of the account list.\<close>

fun sample_sha :: hash_fn where
  "sample_sha (Raw b) = ''x''"
| "sample_sha (Rendered j) = (if j = sample_cfg [''a''] then ''1'' else ''2'')"

lemma sample_parse:
  "list_all (\<lambda>n. n \<noteq> []) names \<Longrightarrow> parseClients (Some (sample_cfg names)) =
     Some (skeleton_of sample_params, [(tagReality, client_set (map (\<lambda>n. \<lparr>cl_UUID = ''id-'' @ n, cl_Email = n\<rparr>) names))])"
  unfolding sample_cfg_def by (subst parse_Build) (auto simp: list_all_iff sample_params_def)

lemma sample_strip [simp]: "stripTLSIfNoCert b (ac_CertPath sample_agent) raw = raw"
  by (simp add: stripTLSIfNoCert_def sample_agent_def)

definition pushed :: "sim xray_api \<Rightarrow> string list \<Rightarrow> sim node_state \<Rightarrow> (apply_err + unit) \<times> sim node_state" where
  "pushed api names st = applyConfig sample_sha api sample_agent sample_env (Some (sample_cfg names)) st"

definition live_of :: "sim node_state \<Rightarrow> json option \<times> tag_clients \<times> string" where
  "live_of st = (lv_skeleton (ns_live st), lv_clients (ns_live st), lv_sha (ns_live st))"

lemma first_push: "\<exists>st. pushed sim_api0 [''a''] (sample_node []) = (Inr (), st) \<and>
    lv_skeleton (ns_live st) = Some (skeleton_of sample_params) \<and> lv_clients (ns_live st) = [(tagReality, [(''a'', ''id-a'')])] \<and>
    lv_path (ns_live st) = ''baseline.json'' \<and> ns_config st = Some (Rendered (sample_cfg [''a''])) \<and>
    ns_xray st = \<lparr>sx_runs = skeleton_of sample_params, sx_tags = [(tagReality, [(''a'', ''id-a'')])], sx_fails = []\<rparr> \<and>
    record_ok sample_sha (ns_baseline st)"
proof -
  have "record_ok sample_sha (Baseline \<lparr>bl_Skeleton = Some (skeleton_of sample_params),
      bl_Clients = Some [(tagReality, [(''a'', ''id-a'')])], bl_ConfigSHA = ''1''\<rparr>)"
    using sample_parse [of "[''a'']"] by (force simp: record_ok_def client_set_def)
  then show ?thesis
    using sample_parse [of "[''a'']"]
    by (simp add: pushed_def applyConfig_def writeConfig_def restartXray_def liveApply_def sample_env_def
        sample_node_def newLiveState_def sim_api0_def set_live_def persist_def client_set_def Let_def)
qed



theorem user_change_needs_no_restart_witness:
  "\<exists>st st'. pushed sim_api0 [''a''] (sample_node []) = (Inr (), st) \<and>
    pushed (sim_api0\<lparr>restart := \<lambda>_ x. (False, x)\<rparr>) [''b''] st = (Inr (), st')"
proof -
  obtain st where st: "pushed sim_api0 [''a''] (sample_node []) = (Inr (), st)"
    and sk: "lv_skeleton (ns_live st) = Some (skeleton_of sample_params)"
    and cl: "lv_clients (ns_live st) = [(tagReality, [(''a'', ''id-a'')])]"
    and x: "ns_xray st = \<lparr>sx_runs = skeleton_of sample_params, sx_tags = [(tagReality, [(''a'', ''id-a'')])], sx_fails = []\<rparr>"
    using first_push by blast
  have base: "baseline_true sim_serves sx_runs (ns_live st) (ns_xray st)"
    by (simp add: baseline_true_def sk cl x sim_serves_def)
  have dist: "keys_distinct (tag_set tag (lv_clients (ns_live st)))" for tag
    by (simp add: cl tag_set_def)
  have parse: "parseClients (Some (sample_cfg [''b''])) =
      Some (skeleton_of sample_params, [(tagReality, client_set [\<lparr>cl_UUID = ''id-b'', cl_Email = ''b''\<rparr>])])"
    using sample_parse [of "[''b'']"] by simp
  have env: "ev_dial sample_env" "ev_write_fails sample_env = None" by (simp_all add: sample_env_def)
  from user_change_needs_no_restart [OF sim0_ok sim0_accepts base dist sample_strip parse sk env] st
  show ?thesis unfolding pushed_def by blast
qed

subsection \<open>A failed push leaves the baseline behind\<close>

text \<open>
  The baseline is not discarded when a live update stops half-way and the restart that should
  repair it fails as well. The next push is then compared with accounts Xray no longer has: here a
  push of \<open>a\<close>, \<open>b\<close>, \<open>c\<close> fails after adding \<open>b\<close>, the push of \<open>a\<close> alone that follows is reported as
  applied without a restart, and Xray still serves \<open>b\<close>.
\<close>
theorem failed_push_leaves_stale_account:
  "\<exists>st. baseline_true sim_serves sx_runs (ns_live st) (ns_xray st) \<and>
    (\<exists>st2 st3. pushed sim_api [''a'', ''b'', ''c''] st = (Inl RestartFailed, st2) \<and>
       pushed sim_api [''a''] st2 = (Inr (), st3) \<and>
       sim_serves (ns_xray st3) tagReality ''b'' = Some ''id-b'')"
proof -
  let ?x = "\<lparr>sx_runs = skeleton_of sample_params, sx_tags = [(tagReality, [(''a'', ''id-a'')])], sx_fails = [False, True, True]\<rparr>"
  obtain st0 :: "sim node_state" where
    sk: "lv_skeleton (ns_live st0) = Some (skeleton_of sample_params)"
    and cl: "lv_clients (ns_live st0) = [(tagReality, [(''a'', ''id-a'')])]"
    using first_push by (elim exE conjE) blast
  define st where "st = st0\<lparr>ns_xray := ?x\<rparr>"
  have base: "baseline_true sim_serves sx_runs (ns_live st) (ns_xray st)"
    by (simp add: st_def baseline_true_def sk cl sim_serves_def tag_set_def)
  define x2 where "x2 = ?x\<lparr>sx_tags := [(tagReality, [(''a'', ''id-a''), (''b'', ''id-b'')])], sx_fails := []\<rparr>"
  have "\<exists>st2. pushed sim_api [''a'', ''b'', ''c''] st = (Inl RestartFailed, st2) \<and>
      ns_live st2 = ns_live st \<and> ns_xray st2 = x2"
    using sample_parse [of "[''a'', ''b'', ''c'']"]
    by (simp add: pushed_def applyConfig_def writeConfig_def liveApply_def restartXray_def st_def sk cl sample_env_def
        sim_api_def sim_call_def sim_set_def addUser_def client_set_def tag_set_def x2_def Let_def)
  then obtain st2 where st2: "pushed sim_api [''a'', ''b'', ''c''] st = (Inl RestartFailed, st2)"
    "ns_live st2 = ns_live st" "ns_xray st2 = x2" by blast
  have "\<exists>st3. pushed sim_api [''a''] st2 = (Inr (), st3) \<and> ns_xray st3 = x2"
    using sample_parse [of "[''a'']"]
    by (simp add: pushed_def applyConfig_def writeConfig_def liveApply_def set_live_def st_def sk cl sample_env_def
        sim_api_def client_set_def tag_set_def st2(2,3) x2_def Let_def)
  then show ?thesis
    using base st2(1) by (auto simp: x2_def sim_serves_def tag_set_def)
qed

end
