(* ===== verification/Codecs.thy ===== *)
theory Codecs
  imports GoStr Base64 "HOL-Library.Word"
begin

unbundle bit_operations_syntax

section \<open>Encodings of random and secret bytes\<close>

text \<open>
  Lower-case hexadecimal (\<^verbatim>\<open>encoding/hex\<close>, \<^verbatim>\<open>%x\<close>), unpadded base32, and the identifiers the panel
  makes out of random bytes. Random bytes are an argument.
\<close>

subsection \<open>Hexadecimal\<close>

definition hex_digit :: "nat \<Rightarrow> char" where
  "hex_digit d = (if d < 10 then char_of (48 + d) else char_of (87 + d))"

definition hex_byte :: "char \<Rightarrow> string" where
  "hex_byte c = [hex_digit (of_char c div 16), hex_digit (of_char c mod 16)]"

definition hexEncode :: "string \<Rightarrow> string" where
  "hexEncode bs = concat (map hex_byte bs)"

definition is_lower_hex :: "char \<Rightarrow> bool" where
  "is_lower_hex c \<longleftrightarrow> 48 \<le> (of_char c :: nat) \<and> (of_char c :: nat) \<le> 57 \<or> 97 \<le> (of_char c :: nat) \<and> (of_char c :: nat) \<le> 102"

lemma hex_digit_lower: "d < 16 \<Longrightarrow> is_lower_hex (hex_digit d)"
  by (auto simp: hex_digit_def is_lower_hex_def)

lemma hexEncode_lower: "c \<in> set (hexEncode bs) \<Longrightarrow> is_lower_hex c"
proof -
  have "of_char x div 16 < (16 :: nat)" for x :: char
    using byte_less [of x] by (simp add: less_mult_imp_div_less)
  then show "c \<in> set (hexEncode bs) \<Longrightarrow> ?thesis"
    by (auto simp: hexEncode_def hex_byte_def hex_digit_lower)
qed

lemma length_hexEncode [simp]: "length (hexEncode bs) = 2 * length bs"
  by (induction bs) (simp_all add: hexEncode_def hex_byte_def)

lemma lower_hex_not: "\<not> is_lower_hex (CHR ''|'')" "\<not> is_lower_hex (CHR '' '')" "\<not> is_lower_hex (CHR '':'')"
  by (simp_all add: is_lower_hex_def)

subsection \<open>Random identifiers\<close>

definition randToken :: "string \<Rightarrow> string" where
  "randToken b = RawURLEncode b"

text \<open>\<open>newUUID\<close>: version and variant bits are set on bytes 6 and 8.\<close>

definition byte_word :: "char \<Rightarrow> 8 word" where
  "byte_word c = word_of_nat (of_char c)"

definition word_byte :: "8 word \<Rightarrow> char" where
  "word_byte w = char_of (unat w)"

definition uuid_bytes :: "string \<Rightarrow> string" where
  "uuid_bytes b = b[6 := word_byte ((byte_word (b ! 6) AND 0x0f) OR 0x40),
                    8 := word_byte ((byte_word (b ! 8) AND 0x3f) OR 0x80)]"

definition newUUID :: "string \<Rightarrow> string" where
  "newUUID b0 =
     (let b = uuid_bytes b0
      in hexEncode (take 4 b) @ ''-'' @ hexEncode (take 2 (drop 4 b)) @ ''-'' @ hexEncode (take 2 (drop 6 b)) @ ''-'' @
         hexEncode (take 2 (drop 8 b)) @ ''-'' @ hexEncode (drop 10 b))"

lemma newUUID_chars: "c \<in> set (newUUID b) \<Longrightarrow> is_lower_hex c \<or> c = CHR ''-''"
  by (auto simp: newUUID_def Let_def dest: hexEncode_lower)

lemma uuid_version: "((w AND 0x0f) OR 0x40 :: 8 word) AND 0xf0 = 0x40"
  by (rule bit_word_eqI) (auto simp: bit_simps numeral_eq_Suc less_Suc_eq bit_numeral_rec)

lemma uuid_variant: "((w AND 0x3f) OR 0x80 :: 8 word) AND 0xc0 = 0x80"
  by (rule bit_word_eqI) (auto simp: bit_simps numeral_eq_Suc less_Suc_eq bit_numeral_rec)

subsection \<open>Base32 without padding\<close>

definition alpha32 :: string where
  "alpha32 = ''ABCDEFGHIJKLMNOPQRSTUVWXYZ234567''"

text \<open>Groups of five bits, most significant first; the last group is filled with zeros.\<close>

definition bits_of :: "nat \<Rightarrow> nat \<Rightarrow> bool list" where
  "bits_of w n = map (\<lambda>i. bit n (w - 1 - i)) [0..<w]"

definition val_of :: "bool list \<Rightarrow> nat" where
  "val_of bs = foldl (\<lambda>n b. 2 * n + of_bool b) 0 bs"

function groups5 :: "bool list \<Rightarrow> bool list list" where
  "groups5 bs = (if bs = [] then [] else take 5 (bs @ replicate 4 False) # groups5 (drop 5 bs))"
  by pat_completeness auto
termination
  by (relation "measure length") auto

declare groups5.simps [simp del]

definition b32encode :: "string \<Rightarrow> string" where
  "b32encode s = map (\<lambda>g. alpha32 ! val_of g) (groups5 (concat (map (\<lambda>c. bits_of 8 (of_char c)) s)))"

fun groups8 :: "bool list \<Rightarrow> bool list list" where
  "groups8 (b0 # b1 # b2 # b3 # b4 # b5 # b6 # b7 # bs) = [b0, b1, b2, b3, b4, b5, b6, b7] # groups8 bs"
| "groups8 bs = []"

text \<open>Go drops newlines first; a stray character or an impossible length is an error.\<close>

definition b32decode :: "string \<Rightarrow> string option" where
  "b32decode s0 =
     (let s = filter (\<lambda>c. c \<noteq> CHR 0x0A \<and> c \<noteq> CHR 0x0D) s0
      in if length s mod 8 \<in> {1, 3, 6} \<or> \<not> list_all (\<lambda>c. c \<in> set alpha32) s then None
         else Some (map (\<lambda>g. char_of (val_of g))
           (groups8 (concat (map (\<lambda>c. bits_of 5 (the (index_in alpha32 c))) s)))))"

subsection \<open>The base32 round trip\<close>

lemma length_bits_of [simp]: "length (bits_of w n) = w"
  by (simp add: bits_of_def)

lemma bits_of_Suc: "bits_of (Suc w) n = bits_of w (n div 2) @ [odd n]"
proof (rule nth_equalityI)
  fix i assume "i < length (bits_of (Suc w) n)"
  then show "bits_of (Suc w) n ! i = (bits_of w (n div 2) @ [odd n]) ! i"
    by (cases "i = w") (auto simp: bits_of_def nth_append bit_Suc [symmetric] Suc_diff_Suc bit_0)
qed simp

lemma val_of_snoc: "val_of (bs @ [b]) = 2 * val_of bs + of_bool b"
  by (simp add: val_of_def)

lemma val_of_bits: "val_of (bits_of w n) = n mod 2 ^ w"
proof (induction w arbitrary: n)
  case 0
  then show ?case by (simp add: bits_of_def val_of_def)
next
  case (Suc w)
  have "n mod 2 ^ Suc w = 2 * (n div 2 mod 2 ^ w) + n mod 2"
    using mod_mult2_eq [of n 2 "2 ^ w"] by simp
  with Suc show ?case by (simp add: bits_of_Suc val_of_snoc odd_iff_mod_2_eq_one of_bool_def)
qed

lemma bits_of_val: "bits_of (length bs) (val_of bs) = bs"
proof (induction bs rule: rev_induct)
  case Nil
  then show ?case by (simp add: bits_of_def)
next
  case (snoc b bs)
  then show ?case by (simp add: bits_of_Suc val_of_snoc)
qed

lemma val_of_less: "val_of bs < 2 ^ length bs"
proof -
  have "val_of bs = val_of bs mod 2 ^ length bs" using val_of_bits [of "length bs" "val_of bs"] by (simp add: bits_of_val)
  also have "\<dots> < 2 ^ length bs" by (rule mod_less_divisor) simp
  finally show ?thesis .
qed

lemma groups5_length: "g \<in> set (groups5 bs) \<Longrightarrow> length g = 5"
proof (induction bs rule: groups5.induct)
  case (1 bs)
  then show ?case by (subst (asm) groups5.simps) (cases bs, auto split: if_splits)
qed

text \<open>The groups spell the bits, with fewer than five zeros behind them.\<close>

lemma groups5_bits:
  "\<exists>p < 5. concat (groups5 bs) = bs @ replicate p False \<and> length (groups5 bs) = (length bs + 4) div 5"
proof (induction bs rule: groups5.induct)
  case (1 bs)
  show ?case
  proof (cases "length bs < 5")
    case True
    then have d: "groups5 (drop 5 bs) = []" by (subst groups5.simps) simp
    show ?thesis
    proof (cases "bs = []")
      case True
      then show ?thesis by (subst (1 2) groups5.simps) (auto intro: exI [of _ 0])
    next
      case False
      then have "length bs \<ge> 1" by (cases bs) auto
      with True False d have "groups5 bs = [bs @ replicate (5 - length bs) False]"
        by (subst groups5.simps) (simp add: take_replicate min_def)
      moreover have "(length bs + 4) div 5 = 1" using True \<open>length bs \<ge> 1\<close> by presburger
      ultimately show ?thesis using True by (intro exI [of _ "5 - length bs"]) (use \<open>length bs \<ge> 1\<close> in auto)
    qed
  next
    case False
    then have "bs \<noteq> []" by auto
    with 1 obtain p where p: "p < 5" "concat (groups5 (drop 5 bs)) = drop 5 bs @ replicate p False"
      "length (groups5 (drop 5 bs)) = (length (drop 5 bs) + 4) div 5" by blast
    have g: "groups5 bs = take 5 bs # groups5 (drop 5 bs)"
      using False \<open>bs \<noteq> []\<close> by (subst groups5.simps) simp
    have "length bs + 4 = (length bs - 5 + 4) + 5" using False by simp
    then have "(length bs + 4) div 5 = Suc ((length bs - 5 + 4) div 5)" by simp
    with g p show ?thesis by (intro exI [of _ p]) (simp flip: append_assoc)
  qed
qed

lemma groups8_bytes:
  "(\<And>g. g \<in> set gs \<Longrightarrow> length g = 8) \<Longrightarrow> length r < 8 \<Longrightarrow> groups8 (concat gs @ r) = gs"
proof (induction gs)
  case Nil
  then show ?case by (cases r rule: groups8.cases) auto
next
  case (Cons g gs)
  then have "length g = 8" by simp
  then obtain b0 b1 b2 b3 b4 b5 b6 b7 where "g = [b0, b1, b2, b3, b4, b5, b6, b7]"
    by (auto simp: length_Suc_conv numeral_eq_Suc)
  with Cons show ?case by simp
qed

lemma alpha32_char:
  assumes "length g = 5"
  shows "index_in alpha32 (alpha32 ! val_of g) = Some (val_of g)" "alpha32 ! val_of g \<in> set alpha32"
    "alpha32 ! val_of g \<noteq> CHR 0x0A" "alpha32 ! val_of g \<noteq> CHR 0x0D"
proof -
  have len: "length alpha32 = 32" and d: "distinct alpha32" and nl: "CHR 0x0A \<notin> set alpha32" "CHR 0x0D \<notin> set alpha32"
    by (simp_all add: alpha32_def)
  have less: "val_of g < length alpha32" using val_of_less [of g] by (simp add: assms len)
  show "index_in alpha32 (alpha32 ! val_of g) = Some (val_of g)" by (rule index_in_nth [OF d less])
  show m: "alpha32 ! val_of g \<in> set alpha32" using less by (rule nth_mem)
  then show "alpha32 ! val_of g \<noteq> CHR 0x0A" "alpha32 ! val_of g \<noteq> CHR 0x0D" using nl by metis+
qed

lemma bits_of_groups:
  "(\<And>g. g \<in> set gs \<Longrightarrow> length g = 5) \<Longrightarrow>
   concat (map (\<lambda>c. bits_of 5 (the (index_in alpha32 c))) (map (\<lambda>g. alpha32 ! val_of g) gs)) = concat gs"
proof (induction gs)
  case (Cons g gs)
  then have "bits_of 5 (val_of g) = g" using bits_of_val [of g] by simp
  with Cons show ?case by (simp add: alpha32_char(1))
qed simp

lemma b32_length: "(n * 8 + 4) div 5 mod 8 \<notin> {1, 3, 6 :: nat}"
proof -
  obtain q r where n: "n = 5 * q + r" "r < 5" by (metis mod_less_divisor mult_div_mod_eq zero_less_numeral)
  have "(n * 8 + 4) div 5 = 8 * q + (r * 8 + 4) div 5" by (simp add: n(1)) 
  then have "(n * 8 + 4) div 5 mod 8 = (r * 8 + 4) div 5 mod 8" by simp
  moreover have "r = 0 \<or> r = 1 \<or> r = 2 \<or> r = 3 \<or> r = 4" using n(2) by arith
  ultimately show ?thesis by auto
qed

lemma b32_roundtrip: "b32decode (b32encode s) = Some s"
proof -
  let ?bs = "concat (map (\<lambda>c. bits_of 8 (of_char c)) s)"
  let ?gs = "groups5 ?bs"
  have len: "length ?bs = length s * 8" by (induction s) auto
  obtain p where p: "p < 5" "concat ?gs = ?bs @ replicate p False" "length ?gs = (length ?bs + 4) div 5"
    using groups5_bits by blast
  have l5: "\<And>g. g \<in> set ?gs \<Longrightarrow> length g = 5" by (rule groups5_length)
  have clean: "filter (\<lambda>c. c \<noteq> CHR 0x0A \<and> c \<noteq> CHR 0x0D) (b32encode s) = b32encode s"
    by (auto simp: b32encode_def filter_id_conv alpha32_char(3,4) [OF l5])
  have valid: "list_all (\<lambda>c. c \<in> set alpha32) (b32encode s)"
    by (auto simp: b32encode_def list_all_iff alpha32_char(2) [OF l5])
  have mod8: "length (b32encode s) mod 8 \<notin> {1, 3, 6}"
    using b32_length [of "length s"] by (simp add: b32encode_def p(3) len)
  have "concat (map (\<lambda>c. bits_of 5 (the (index_in alpha32 c))) (b32encode s)) = ?bs @ replicate p False"
    using bits_of_groups [of ?gs] l5 by (simp add: b32encode_def p(2))
  moreover have "groups8 (?bs @ replicate p False) = map (\<lambda>c. bits_of 8 (of_char c)) s"
    by (rule groups8_bytes) (use p(1) in auto)
  moreover have "char_of (val_of (bits_of 8 (of_char c))) = c" for c :: char
    using val_of_bits [of 8 "of_char c"] byte_less [of c] by simp
  ultimately show ?thesis using clean valid mod8 by (simp add: b32decode_def Let_def comp_def)
qed

end
