(* ===== verification/Url.thy ===== *)
theory Url
  imports GoStr "HOL-Library.List_Lexorder"
begin

section \<open>URL escaping (net/url, as the links use it)\<close>

text \<open>
  \<^verbatim>\<open>url.QueryEscape\<close>, \<^verbatim>\<open>url.PathEscape\<close> and \<^verbatim>\<open>url.Values.Encode\<close>. \<^verbatim>\<open>url.Values\<close> is an association list:
  \<open>Set\<close> replaces, \<open>Encode\<close> sorts by key.
\<close>

definition url_unreserved :: "char \<Rightarrow> bool" where
  "url_unreserved c \<longleftrightarrow>
     65 \<le> (of_char c :: nat) \<and> (of_char c :: nat) \<le> 90 \<or> 97 \<le> (of_char c :: nat) \<and> (of_char c :: nat) \<le> 122 \<or>
     48 \<le> (of_char c :: nat) \<and> (of_char c :: nat) \<le> 57 \<or> c \<in> set ''-_.~''"

definition upper_hex :: "nat \<Rightarrow> char" where
  "upper_hex d = (if d < 10 then char_of (48 + d) else char_of (55 + d))"

definition pct :: "char \<Rightarrow> string" where
  "pct c = [CHR ''%'', upper_hex (of_char c div 16), upper_hex (of_char c mod 16)]"

definition query_char :: "char \<Rightarrow> string" where
  "query_char c = (if url_unreserved c then [c] else if c = CHR '' '' then ''+'' else pct c)"

definition QueryEscape :: "string \<Rightarrow> string" where
  "QueryEscape s = concat (map query_char s)"

definition PathEscape :: "string \<Rightarrow> string" where
  "PathEscape s = concat (map (\<lambda>c. if url_unreserved c \<or> c \<in> set ''$&+=:@'' then [c] else pct c) s)"

type_synonym url_values = "(string \<times> string) list"

definition url_set :: "string \<Rightarrow> string \<Rightarrow> url_values \<Rightarrow> url_values" where
  "url_set k v q = AList.update k v q"

definition Encode :: "url_values \<Rightarrow> string" where
  "Encode q = Join (map (\<lambda>(k, v). QueryEscape k @ ''='' @ QueryEscape v)
     (sort_key (\<lambda>(k, v). map of_char k :: nat list) q)) ''&''"

subsection \<open>What escaped text cannot contain\<close>

lemma upper_hex_safe: "d < 16 \<Longrightarrow> url_unreserved (upper_hex d)"
  by (auto simp: upper_hex_def url_unreserved_def)

lemma QueryEscape_chars: "c \<in> set (QueryEscape s) \<Longrightarrow> url_unreserved c \<or> c = CHR ''%'' \<or> c = CHR ''+''"
proof -
  have b: "of_char x < (256 :: nat)" for x :: char by (metis of_char_mod_256 mod_less_divisor zero_less_numeral)
  have "of_char x div 16 < (16 :: nat)" for x :: char using b [of x] by (simp add: less_mult_imp_div_less)
  then show "c \<in> set (QueryEscape s) \<Longrightarrow> ?thesis"
    by (auto simp: QueryEscape_def query_char_def pct_def upper_hex_safe split: if_splits)
qed

lemma Join_chars: "c \<in> set (Join ss sep) \<Longrightarrow> (\<exists>s \<in> set ss. c \<in> set s) \<or> c \<in> set sep"
  by (induction ss sep rule: Join.induct) auto

lemma Encode_chars: "c \<in> set (Encode q) \<Longrightarrow> url_unreserved c \<or> c \<in> set ''%+=&''"
  by (auto simp: Encode_def dest!: Join_chars QueryEscape_chars)

lemma not_unreserved: "\<not> url_unreserved (CHR 0x0A)" "\<not> url_unreserved (CHR ''#'')" "\<not> url_unreserved (CHR ''?'')"
    "\<not> url_unreserved (CHR ''&'')" "\<not> url_unreserved (CHR ''='')"  "\<not> url_unreserved (CHR ''%'')"  "\<not> url_unreserved (CHR ''+'')"
  by (simp_all add: url_unreserved_def)

subsection \<open>Reading it back\<close>

text \<open>\<^verbatim>\<open>url.QueryUnescape\<close>, which the clients' URL parsers run.\<close>

definition hex_val :: "char \<Rightarrow> nat option" where
  "hex_val c = (let b = of_char c in if 48 \<le> b \<and> b \<le> 57 then Some (b - 48)
     else if 65 \<le> b \<and> b \<le> 70 then Some (b - 55) else if 97 \<le> b \<and> b \<le> 102 then Some (b - 87) else None)"

fun QueryUnescape :: "string \<Rightarrow> string option" where
  "QueryUnescape [] = Some []"
| "QueryUnescape (c # s) =
     (if c = CHR ''%'' then
        (case s of
           a # b # s' \<Rightarrow> (case (hex_val a, hex_val b) of
              (Some x, Some y) \<Rightarrow> map_option ((#) (char_of (16 * x + y))) (QueryUnescape s')
            | _ \<Rightarrow> None)
         | _ \<Rightarrow> None)
      else map_option ((#) (if c = CHR ''+'' then CHR '' '' else c)) (QueryUnescape s))"

lemma hex_val_upper: "d < 16 \<Longrightarrow> hex_val (upper_hex d) = Some d"
  by (auto simp: hex_val_def upper_hex_def Let_def)

lemma Unescape_char: "QueryUnescape (query_char c @ s) = map_option ((#) c) (QueryUnescape s)"
proof -
  have b: "of_char c < (256 :: nat)" by (metis of_char_mod_256 mod_less_divisor zero_less_numeral)
  then have "hex_val (upper_hex (of_char c div 16)) = Some (of_char c div 16)"
    "hex_val (upper_hex (of_char c mod 16)) = Some (of_char c mod 16)"
    by (simp_all add: hex_val_upper less_mult_imp_div_less)
  moreover have "url_unreserved c \<Longrightarrow> c \<noteq> CHR ''%'' \<and> c \<noteq> CHR ''+''" using not_unreserved by auto
  ultimately show ?thesis by (auto simp: query_char_def pct_def)
qed

lemma QueryUnescape_QueryEscape: "QueryUnescape (QueryEscape s) = Some s"
proof (induction s)
  case (Cons c s)
  then have "QueryUnescape (query_char c @ QueryEscape s) = Some (c # s)" by (simp only: Unescape_char option.map)
  then show ?case by (simp add: QueryEscape_def)
qed (simp add: QueryEscape_def)

lemma QueryEscape_inj: "QueryEscape s = QueryEscape t \<Longrightarrow> s = t"
  by (metis QueryUnescape_QueryEscape option.inject)

end
