(* ===== verification/Validate.thy ===== *)
theory Validate
  imports GoStr Models
begin

section \<open>Validation of operator input (internal/panel/validate.go, auth.go)\<close>

text \<open>
  The regular expressions are anchored character classes, so each is a predicate on the bytes. An
  error is the text of its message; \<open>None\<close> is Go's \<^verbatim>\<open>nil\<close>.
\<close>

subsection \<open>Identifiers\<close>

definition char_in :: "char \<Rightarrow> nat \<Rightarrow> nat \<Rightarrow> bool" where
  "char_in c lo hi \<longleftrightarrow> lo \<le> of_char c \<and> of_char c \<le> hi"

definition is_alnum :: "char \<Rightarrow> bool" where
  "is_alnum c \<longleftrightarrow> char_in c 65 90 \<or> char_in c 97 122 \<or> char_in c 48 57"

text \<open>\<^verbatim>\<open>^[A-Za-z0-9._-]{1,64}$\<close>\<close>

definition reUsername :: "string \<Rightarrow> bool" where
  "reUsername s \<longleftrightarrow> 1 \<le> length s \<and> length s \<le> 64 \<and> list_all (\<lambda>c. is_alnum c \<or> c \<in> set ''._-'') s"

text \<open>\<^verbatim>\<open>[A-Za-z0-9]([A-Za-z0-9.-]{0,251}[A-Za-z0-9])?\<close>, and with the optional wildcard in front.\<close>

definition host_body :: "string \<Rightarrow> bool" where
  "host_body s \<longleftrightarrow> s \<noteq> [] \<and> length s \<le> 253 \<and> is_alnum (hd s) \<and> is_alnum (last s) \<and>
     list_all (\<lambda>c. is_alnum c \<or> c \<in> set ''.-'') s"

definition reHostname :: "string \<Rightarrow> bool" where
  "reHostname s \<longleftrightarrow> host_body (if HasPrefix s ''*.'' then drop 2 s else s)"

definition is_hex :: "char \<Rightarrow> bool" where
  "is_hex c \<longleftrightarrow> char_in c 48 57 \<or> char_in c 97 102 \<or> char_in c 65 70"

definition reShortID :: "string \<Rightarrow> bool" where
  "reShortID s \<longleftrightarrow> length s \<le> 16 \<and> list_all is_hex s"

definition reB64Key :: "string \<Rightarrow> bool" where
  "reB64Key s \<longleftrightarrow> length s \<le> 128 \<and> list_all (\<lambda>c. is_alnum c \<or> c \<in> set ''+/_=-'') s"

definition validateUsername :: "string \<Rightarrow> string option" where
  "validateUsername name =
     (if \<not> reUsername name then Some (''username must be 1-64 chars of letters, digits, '.', '_' or '-'' @ [CHR 0x27])
      else None)"

definition validHostname :: "string \<Rightarrow> bool" where
  "validHostname s \<longleftrightarrow> reHostname s"

definition validateDest :: "string \<Rightarrow> string option" where
  "validateDest dest =
     (if dest = [] then None
      else case cut_at '':'' dest of
        None \<Rightarrow> Some ''reality_dest must be host:port''
      | Some (host, port) \<Rightarrow>
          if \<not> validHostname host then Some ''reality_dest must be host:port''
          else case ParseInt64 port of
            None \<Rightarrow> Some ''reality_dest port must be 1-65535''
          | Some p \<Rightarrow> if p < 1 \<or> p > 65535 then Some ''reality_dest port must be 1-65535'' else None)"

definition validateNode :: "node \<Rightarrow> string option" where
  "validateNode n =
     (if n_Address n \<noteq> [] \<and> \<not> validHostname (n_Address n) then Some ''address must be a hostname or IP''
      else if n_TLSDomain n \<noteq> [] \<and> \<not> validHostname (n_TLSDomain n) then Some ''tls_domain must be a hostname''
      else if n_RealityServerName n \<noteq> [] \<and> \<not> validHostname (n_RealityServerName n)
        then Some ''reality_server_name must be a hostname''
      else case validateDest (n_RealityDest n) of Some e \<Rightarrow> Some e
      | None \<Rightarrow>
          if \<not> reShortID (n_RealityShortID n) then Some ''reality_short_id must be up to 16 hex characters''
          else if \<not> reB64Key (n_RealityPrivateKey n) \<or> \<not> reB64Key (n_RealityPublicKey n)
            then Some ''reality keys must be base64''
          else None)"

subsection \<open>Runes\<close>

text \<open>
  Ranging over a string decodes UTF-8; an invalid byte is one \<^verbatim>\<open>U+FFFD\<close>. \<open>decode_rune\<close> is the rune at
  the front of a non-empty string and its width.
\<close>

definition cont :: "char \<Rightarrow> bool" where
  "cont c \<longleftrightarrow> char_in c 128 191"

definition second_ok :: "nat \<Rightarrow> char \<Rightarrow> bool" where
  "second_ok b c = (if b = 0xE0 then char_in c 0xA0 0xBF else if b = 0xED then char_in c 0x80 0x9F
     else if b = 0xF0 then char_in c 0x90 0xBF else if b = 0xF4 then char_in c 0x80 0x8F else cont c)"

definition low6 :: "char \<Rightarrow> nat" where
  "low6 c = of_char c - 128"

definition rune_error :: "nat \<times> nat" where
  "rune_error = (0xFFFD, 1)"

definition decode_rune :: "string \<Rightarrow> nat \<times> nat" where
  "decode_rune s = (case s of [] \<Rightarrow> rune_error | c0 # r0 \<Rightarrow>
     let b = of_char c0 :: nat in
     if b < 0x80 then (b, 1)
     else if b < 0xC2 \<or> b > 0xF4 then rune_error
     else case r0 of [] \<Rightarrow> rune_error | c1 # r1 \<Rightarrow>
       if \<not> second_ok b c1 then rune_error
       else if b < 0xE0 then ((b - 0xC0) * 64 + low6 c1, 2)
       else case r1 of [] \<Rightarrow> rune_error | c2 # r2 \<Rightarrow>
         if \<not> cont c2 then rune_error
         else if b < 0xF0 then (((b - 0xE0) * 64 + low6 c1) * 64 + low6 c2, 3)
         else case r2 of [] \<Rightarrow> rune_error | c3 # r3 \<Rightarrow>
           if \<not> cont c3 then rune_error
           else ((((b - 0xF0) * 64 + low6 c1) * 64 + low6 c2) * 64 + low6 c3, 4))"

lemma decode_rune_width: "0 < snd (decode_rune s)"
  by (simp add: decode_rune_def rune_error_def Let_def split: list.split)

function runes :: "string \<Rightarrow> nat list" where
  "runes [] = []"
| "runes (c # s) = fst (decode_rune (c # s)) # runes (drop (snd (decode_rune (c # s))) (c # s))"
  by pat_completeness auto
termination
proof (relation "measure length")
  show "(drop (snd (decode_rune (c # s))) (c # s), c # s) \<in> measure length" for c s
    using decode_rune_width [of "c # s"] by simp
qed simp

lemma runes_ascii: "list_all (\<lambda>c. of_char c < (128 :: nat)) s \<Longrightarrow> runes s = map of_char s"
  by (induction s) (simp_all add: decode_rune_def Let_def)

subsection \<open>Passwords\<close>

text \<open>The Unicode tables are a parameter for the runes outside ASCII.\<close>

record unicode =
  uni_upper :: "nat \<Rightarrow> bool"
  uni_lower :: "nat \<Rightarrow> bool"
  uni_digit :: "nat \<Rightarrow> bool"
  uni_special :: "nat \<Rightarrow> bool"

definition IsUpper :: "unicode \<Rightarrow> nat \<Rightarrow> bool" where
  "IsUpper un r = (if r < 128 then 65 \<le> r \<and> r \<le> 90 else uni_upper un r)"

definition IsLower :: "unicode \<Rightarrow> nat \<Rightarrow> bool" where
  "IsLower un r = (if r < 128 then 97 \<le> r \<and> r \<le> 122 else uni_lower un r)"

definition IsDigit :: "unicode \<Rightarrow> nat \<Rightarrow> bool" where
  "IsDigit un r = (if r < 128 then 48 \<le> r \<and> r \<le> 57 else uni_digit un r)"

definition IsSpecial :: "unicode \<Rightarrow> nat \<Rightarrow> bool" where
  "IsSpecial un r = (if r < 128 then 33 \<le> r \<and> r \<le> 47 \<or> 58 \<le> r \<and> r \<le> 64 \<or> 91 \<le> r \<and> r \<le> 96 \<or> 123 \<le> r \<and> r \<le> 126
     else uni_special un r)"

record pw_flags =
  hasUpper :: bool
  hasLower :: bool
  hasDigit :: bool
  hasSpecial :: bool

definition see_rune :: "unicode \<Rightarrow> nat \<Rightarrow> pw_flags \<Rightarrow> pw_flags" where
  "see_rune un r f =
     (if IsUpper un r then f\<lparr>hasUpper := True\<rparr>
      else if IsLower un r then f\<lparr>hasLower := True\<rparr>
      else if IsDigit un r then f\<lparr>hasDigit := True\<rparr>
      else if IsSpecial un r then f\<lparr>hasSpecial := True\<rparr>
      else f)"

definition errWeakPassword :: string where
  "errWeakPassword = ''password must be at least 8 characters and include uppercase, lowercase, a digit, and a special character''"

definition validatePasswordStrength :: "unicode \<Rightarrow> string \<Rightarrow> string option" where
  "validatePasswordStrength un pw =
     (if length pw < 8 then Some errWeakPassword
      else let f = fold (see_rune un) (runes pw) \<lparr>hasUpper = False, hasLower = False, hasDigit = False, hasSpecial = False\<rparr>
           in if hasUpper f \<and> hasLower f \<and> hasDigit f \<and> hasSpecial f then None else Some errWeakPassword)"

subsection \<open>What validation buys\<close>

lemma char_in_not: "\<not> char_in c lo hi \<Longrightarrow> of_char c < lo \<or> hi < of_char c"
  by (auto simp: char_in_def)

lemma alnum_bounds: "is_alnum c \<Longrightarrow> 48 \<le> (of_char c :: nat) \<and> (of_char c :: nat) \<le> 122"
  by (auto simp: is_alnum_def char_in_def)

lemma alnum_not: "\<not> is_alnum (CHR ''|'')" "\<not> is_alnum (CHR ''>'')" "\<not> is_alnum (CHR '' '')" "\<not> is_alnum (CHR '':'')"
  "\<not> is_alnum (CHR 0x0A)"
  by (simp_all add: is_alnum_def char_in_def)

lemma username_chars:
  "validateUsername s = None \<Longrightarrow> c \<in> set s \<Longrightarrow> is_alnum c \<or> c \<in> set ''._-''"
  by (auto simp: validateUsername_def reUsername_def list_all_iff split: if_splits)

text \<open>No name breaks out of a session token, a signature line or a statistics key.\<close>

lemma username_clean:
  assumes "validateUsername s = None"
  shows "CHR ''|'' \<notin> set s" "CHR ''>'' \<notin> set s" "CHR '' '' \<notin> set s" "CHR '':'' \<notin> set s" "s \<noteq> []"
proof -
  show "CHR ''|'' \<notin> set s" "CHR ''>'' \<notin> set s" "CHR '' '' \<notin> set s" "CHR '':'' \<notin> set s"
    using username_chars [OF assms] alnum_not by force+
  show "s \<noteq> []" using assms by (auto simp: validateUsername_def reUsername_def split: if_splits)
qed

lemma hostname_chars: "validHostname s \<Longrightarrow> c \<in> set s \<Longrightarrow> is_alnum c \<or> c \<in> set ''.-*''"
proof -
  assume v: "validHostname s" and c: "c \<in> set s"
  have set_s: "set s \<subseteq> {CHR ''*'', CHR ''.''} \<union> set (if HasPrefix s ''*.'' then drop 2 s else s)"
    by (auto simp: HasPrefix_iff)
  have "list_all (\<lambda>c. is_alnum c \<or> c \<in> set ''.-'') (if HasPrefix s ''*.'' then drop 2 s else s)"
    using v by (simp only: validHostname_def reHostname_def host_body_def)
  with c set_s show ?thesis by (auto simp: list_all_iff)
qed

lemma fold_see_rune:
  "fold (see_rune un) rs f = \<lparr>hasUpper = hasUpper f \<or> list_ex (IsUpper un) rs,
     hasLower = hasLower f \<or> list_ex (\<lambda>r. \<not> IsUpper un r \<and> IsLower un r) rs,
     hasDigit = hasDigit f \<or> list_ex (\<lambda>r. \<not> IsUpper un r \<and> \<not> IsLower un r \<and> IsDigit un r) rs,
     hasSpecial = hasSpecial f \<or> list_ex (\<lambda>r. \<not> IsUpper un r \<and> \<not> IsLower un r \<and> \<not> IsDigit un r \<and> IsSpecial un r) rs\<rparr>"
  by (induction rs arbitrary: f) (auto simp: see_rune_def)

end
