(* ===== verification/Scan.thy ===== *)
theory Scan
  imports Validate
begin

section \<open>Pieces of regular expressions\<close>

text \<open>
  The agent's regular expressions are sequences of literals and of classes repeated at least once.
  In each of them the byte that follows a repeated class in the pattern is not in the class, so the
  longest run of the class is the only one a match can use; a submatch is that run.
\<close>

definition eat :: "string \<Rightarrow> string \<Rightarrow> string option" where
  "eat lit s = (if HasPrefix s lit then Some (drop (length lit) s) else None)"

definition span1 :: "(char \<Rightarrow> bool) \<Rightarrow> string \<Rightarrow> (string \<times> string) option" where
  "span1 P s = (if takeWhile P s = [] then None else Some (takeWhile P s, dropWhile P s))"

lemma eat_here [simp]: "eat lit (lit @ s) = Some s"
  by (simp add: eat_def)

lemma eat_self [simp]: "eat lit lit = Some []"
  by (simp add: eat_def HasPrefix_def)

lemma eat_iff: "eat lit s = Some r \<longleftrightarrow> s = lit @ r"
  by (auto simp: eat_def HasPrefix_iff split: if_splits)

lemma eat_code [code, simp]:
  "eat [] s = Some s" "eat (d # p) [] = None"
  "eat (d # p) (c # s) = (if c = d then eat p s else None)"
  by (auto simp: eat_def HasPrefix_def)

lemma span1_iff:
  "span1 P s = Some (a, b) \<longleftrightarrow> s = a @ b \<and> a \<noteq> [] \<and> list_all P a \<and> (b = [] \<or> \<not> P (hd b))"
proof
  assume "span1 P s = Some (a, b)"
  then have ab: "a = takeWhile P s" "b = dropWhile P s" "a \<noteq> []" by (auto simp: span1_def split: if_splits)
  then show "s = a @ b \<and> a \<noteq> [] \<and> list_all P a \<and> (b = [] \<or> \<not> P (hd b))"
    using hd_dropWhile [of P s] by (auto simp: list_all_iff dest: set_takeWhileD)
next
  assume a: "s = a @ b \<and> a \<noteq> [] \<and> list_all P a \<and> (b = [] \<or> \<not> P (hd b))"
  then have "takeWhile P s = a \<and> dropWhile P s = b"
    by (cases b) (auto simp: list_all_iff takeWhile_append dropWhile_append)
  with a show "span1 P s = Some (a, b)" by (simp add: span1_def)
qed

lemma span1_here: "a \<noteq> [] \<Longrightarrow> list_all P a \<Longrightarrow> \<not> P c \<Longrightarrow> span1 P (a @ c # s) = Some (a, c # s)"
  by (simp add: span1_iff)

end
