(* ===== verification/Dockproxy.thy ===== *)
theory Dockproxy
  imports Scan
begin

section \<open>The Docker socket proxy (internal/agent/dockerproxy.go)\<close>

text \<open>
  The one process of a node that holds the Docker socket. Its decision is a function of the method
  and the decoded path; the reverse proxy behind it (\<^verbatim>\<open>httputil\<close>) and the Docker daemon are the
  parameter \<open>forward\<close>, which gets the request unchanged. The refinement of the regular
  expressions to a description of the paths is the property at the end.
\<close>

subsection \<open>The two expressions\<close>

text \<open>\<^verbatim>\<open>/v[0-9]+\.[0-9]+\<close>, the rest of the path.\<close>

definition api_version :: "string \<Rightarrow> string option" where
  "api_version s =
     (case eat ''/v'' s of None \<Rightarrow> None
      | Some s1 \<Rightarrow> (case span1 is_digit s1 of None \<Rightarrow> None
         | Some (major, s2) \<Rightarrow> (case eat ''.'' s2 of None \<Rightarrow> None
            | Some s3 \<Rightarrow> (case span1 is_digit s3 of None \<Rightarrow> None | Some (minor, s4) \<Rightarrow> Some s4))))"

text \<open>\<^verbatim>\<open>^(?:version)?re$\<close>: with the prefix if that matches, else without.\<close>

definition optional_version :: "(string \<Rightarrow> 'm option) \<Rightarrow> string \<Rightarrow> 'm option" where
  "optional_version re s =
     (case api_version s of None \<Rightarrow> re s | Some r \<Rightarrow> (case re r of None \<Rightarrow> re s | Some m \<Rightarrow> Some m))"

definition container_char :: "char \<Rightarrow> bool" where
  "container_char c \<longleftrightarrow> is_alnum c \<or> c \<in> set ''_.-''"

definition container_path :: "string \<Rightarrow> (string \<times> string) option" where
  "container_path s =
     (case eat ''/containers/'' s of None \<Rightarrow> None
      | Some s1 \<Rightarrow> (case span1 container_char s1 of None \<Rightarrow> None
         | Some (name, s2) \<Rightarrow> (if s2 = ''/json'' then Some (name, ''json'')
             else if s2 = ''/restart'' then Some (name, ''restart'') else None)))"

definition reProxyPath :: "string \<Rightarrow> (string \<times> string) option" where
  "reProxyPath = optional_version container_path"

definition reProbe :: "string \<Rightarrow> bool" where
  "reProbe s \<longleftrightarrow> optional_version (\<lambda>r. if r = ''/_ping'' \<or> r = ''/version'' then Some () else None) s \<noteq> None"

subsection \<open>The decision\<close>

record 'r dockerProxy =
  dp_allowed :: "string set"
  dp_rp :: "string \<Rightarrow> string \<Rightarrow> 'r" \<comment> \<open>the reverse proxy, on method and path\<close>

definition allow :: "string set \<Rightarrow> string \<Rightarrow> string \<Rightarrow> bool" where
  "allow allowed method path =
     (if (method = ''GET'' \<or> method = ''HEAD'') \<and> reProbe path then True
      else case reProxyPath path of None \<Rightarrow> False
        | Some (name, oper) \<Rightarrow>
            if name \<notin> allowed then False
            else if oper = ''json'' then method = ''GET'' \<or> method = ''HEAD''
            else if oper = ''restart'' then method = ''POST''
            else False)"

text \<open>\<open>None\<close> is 403 "forbidden".\<close>

definition ServeProxy :: "'r dockerProxy \<Rightarrow> string \<Rightarrow> string \<Rightarrow> 'r option" where
  "ServeProxy p method path = (if \<not> allow (dp_allowed p) method path then None else Some (dp_rp p method path))"

subsection \<open>Start\<close>

definition agent_env :: "(string \<Rightarrow> string) \<Rightarrow> string \<Rightarrow> string \<Rightarrow> string" where
  "agent_env e key def = (if e key \<noteq> [] then e key else def)"

definition allow_list :: "string \<Rightarrow> string set" where
  "allow_list s = set (filter (\<lambda>n. n \<noteq> []) (map TrimSpace (splitc (CHR '','') s)))"

text \<open>The socket the proxy dials, the address it listens on, and the handler.\<close>

definition RunDockerProxy :: "(string \<Rightarrow> string) \<Rightarrow> (string \<Rightarrow> string \<Rightarrow> string \<Rightarrow> 'r) \<Rightarrow> string \<times> string \<times> 'r dockerProxy" where
  "RunDockerProxy e dial =
     (let sock = agent_env e ''DOCKER_SOCKET'' ''/var/run/docker.sock'' in
      (sock, agent_env e ''DOCKERPROXY_LISTEN'' '':2375'',
       \<lparr>dp_allowed = allow_list (agent_env e ''DOCKERPROXY_ALLOW'' ''xray,nginx-edge''), dp_rp = dial sock\<rparr>))"

subsection \<open>The paths the expressions accept\<close>

text \<open>The written form of an optional API version.\<close>

definition version_prefix :: "string \<Rightarrow> bool" where
  "version_prefix v \<longleftrightarrow> v = [] \<or> (\<exists>a b. v = ''/v'' @ a @ ''.'' @ b \<and> a \<noteq> [] \<and> b \<noteq> [] \<and> list_all is_digit a \<and> list_all is_digit b)"

lemma not_digit: "\<not> is_digit (CHR ''.'')" "\<not> is_digit (CHR ''/'')" "\<not> container_char (CHR ''/'')"
  by (simp_all add: is_digit_def container_char_def is_alnum_def char_in_def)

lemma api_version_sound:
  assumes "api_version s = Some r"
  shows "\<exists>v. version_prefix v \<and> s = v @ r"
proof -
  from assms obtain a b where "s = ''/v'' @ a @ ''.'' @ b @ r" "a \<noteq> []" "b \<noteq> []" "list_all is_digit a" "list_all is_digit b"
    by (auto simp: api_version_def eat_iff span1_iff simp del: eat_code split: option.splits)
  then show ?thesis by (intro exI [of _ "''/v'' @ a @ ''.'' @ b"]) (auto simp: version_prefix_def)
qed

lemma api_version_here:
  "a \<noteq> [] \<Longrightarrow> b \<noteq> [] \<Longrightarrow> list_all is_digit a \<Longrightarrow> list_all is_digit b \<Longrightarrow>
   api_version (''/v'' @ a @ ''.'' @ b @ CHR ''/'' # s) = Some (CHR ''/'' # s)"
  by (simp add: api_version_def span1_here not_digit)

lemma optional_version_iff:
  assumes re: "\<And>r m. re r = Some m \<Longrightarrow> (\<exists>t. r = CHR ''/'' # t) \<and> api_version r = None"
  shows "optional_version re s = Some m \<longleftrightarrow> (\<exists>v r. version_prefix v \<and> s = v @ r \<and> re r = Some m)"
proof
  have e: "version_prefix []" by (simp add: version_prefix_def)
  show "optional_version re s = Some m \<Longrightarrow> \<exists>v r. version_prefix v \<and> s = v @ r \<and> re r = Some m"
    using api_version_sound [of s] e by (fastforce simp: optional_version_def split: option.splits)
  assume "\<exists>v r. version_prefix v \<and> s = v @ r \<and> re r = Some m"
  then obtain v r where v: "version_prefix v" "s = v @ r" "re r = Some m" by blast
  obtain t where t: "r = CHR ''/'' # t" "api_version r = None" using re [OF v(3)] by blast
  from v(1) consider "v = []" | a b where "v = ''/v'' @ a @ ''.'' @ b" "a \<noteq> []" "b \<noteq> []" "list_all is_digit a" "list_all is_digit b"
    by (auto simp: version_prefix_def)
  then show "optional_version re s = Some m"
  proof cases
    case 1
    with v t show ?thesis by (simp add: optional_version_def)
  next
    case (2 a b)
    with t v(2) have "api_version s = Some r" using api_version_here [of a b "tl r"] by simp
    with v(3) show ?thesis by (simp add: optional_version_def)
  qed
qed

lemma container_path_iff:
  "container_path r = Some (name, oper) \<longleftrightarrow>
     r = ''/containers/'' @ name @ ''/'' @ oper \<and> name \<noteq> [] \<and> list_all container_char name \<and> oper \<in> {''json'', ''restart''}"
proof
  show "container_path r = Some (name, oper) \<Longrightarrow> r = ''/containers/'' @ name @ ''/'' @ oper \<and> name \<noteq> [] \<and>
      list_all container_char name \<and> oper \<in> {''json'', ''restart''}"
    by (auto simp: container_path_def eat_iff span1_iff simp del: eat_code split: option.splits if_splits)
  assume "r = ''/containers/'' @ name @ ''/'' @ oper \<and> name \<noteq> [] \<and> list_all container_char name \<and> oper \<in> {''json'', ''restart''}"
  then show "container_path r = Some (name, oper)"
    by (auto simp: container_path_def span1_here not_digit)
qed

lemma reProxyPath_iff:
  "reProxyPath s = Some (name, oper) \<longleftrightarrow> (\<exists>v. version_prefix v \<and> s = v @ ''/containers/'' @ name @ ''/'' @ oper) \<and>
     name \<noteq> [] \<and> list_all container_char name \<and> oper \<in> {''json'', ''restart''}"
proof -
  have "(\<exists>t. r = CHR ''/'' # t) \<and> api_version r = None" if "container_path r = Some m" for r m
    using that by (cases m) (auto simp: container_path_iff api_version_def)
  from optional_version_iff [of container_path, OF this] show ?thesis
    by (auto simp: reProxyPath_def container_path_iff)
qed

lemma reProbe_iff: "reProbe s \<longleftrightarrow> (\<exists>v. version_prefix v \<and> s \<in> {v @ ''/_ping'', v @ ''/version''})"
proof -
  let ?re = "\<lambda>r. if r = ''/_ping'' \<or> r = ''/version'' then Some () else None"
  have "(\<exists>t. r = CHR ''/'' # t) \<and> api_version r = None" if "?re r = Some m" for r m
    using that by (auto simp: api_version_def span1_def is_digit_def split: if_splits)
  from optional_version_iff [of ?re, OF this] have "reProbe s \<longleftrightarrow> (\<exists>v r. version_prefix v \<and> s = v @ r \<and> ?re r = Some ())"
    by (simp add: reProbe_def)
  then show ?thesis by (auto split: if_splits)
qed

text \<open>The two cases, with the version in front.\<close>

lemma regroup:
  assumes "jp = sl @ js" "rp = sl @ rs"
  shows "(R \<and> (\<exists>v. V v \<and> path \<in> {p1 v, p2 v})) \<or>
   (\<exists>name oper. ((\<exists>v. V v \<and> path = v @ c @ name @ sl @ oper) \<and> name \<noteq> [] \<and> list_all P name \<and> oper \<in> {js, rs}) \<and> name \<in> A \<and>
      (oper = js \<and> R \<or> oper = rs \<and> W)) \<longleftrightarrow>
   (\<exists>v. V v \<and> (R \<and> path \<in> {p1 v, p2 v} \<or>
      (\<exists>name. name \<in> A \<and> name \<noteq> [] \<and> list_all P name \<and>
         (R \<and> path = v @ c @ name @ jp \<or> W \<and> path = v @ c @ name @ rp))))"
  unfolding assms by blast

text \<open>
  C16. The proxy forwards the two container operations and nothing else. A request reaches the Docker
  socket exactly when it is a read-only version probe, or an inspect (GET, HEAD) or restart (POST)
  of a container on the allow list, written with or without an API version; every other method or
  path, on any container, is refused without the reverse proxy being asked.
\<close>
theorem docker_proxy_confines:
  "ServeProxy p method path =
     (if \<exists>v. version_prefix v \<and>
        (method \<in> {''GET'', ''HEAD''} \<and> path \<in> {v @ ''/_ping'', v @ ''/version''} \<or>
         (\<exists>name. name \<in> dp_allowed p \<and> name \<noteq> [] \<and> list_all container_char name \<and>
            (method \<in> {''GET'', ''HEAD''} \<and> path = v @ ''/containers/'' @ name @ ''/json'' \<or>
             method = ''POST'' \<and> path = v @ ''/containers/'' @ name @ ''/restart'')))
      then Some (dp_rp p method path) else None)"
proof -
  have "allow (dp_allowed p) method path \<longleftrightarrow> (method \<in> {''GET'', ''HEAD''} \<and> reProbe path) \<or>
      (\<exists>name oper. reProxyPath path = Some (name, oper) \<and> name \<in> dp_allowed p \<and>
        (oper = ''json'' \<and> method \<in> {''GET'', ''HEAD''} \<or> oper = ''restart'' \<and> method = ''POST''))"
    by (auto simp: allow_def split: option.splits)
  also have "\<dots> \<longleftrightarrow> (\<exists>v. version_prefix v \<and>
        (method \<in> {''GET'', ''HEAD''} \<and> path \<in> {v @ ''/_ping'', v @ ''/version''} \<or>
         (\<exists>name. name \<in> dp_allowed p \<and> name \<noteq> [] \<and> list_all container_char name \<and>
            (method \<in> {''GET'', ''HEAD''} \<and> path = v @ ''/containers/'' @ name @ ''/json'' \<or>
             method = ''POST'' \<and> path = v @ ''/containers/'' @ name @ ''/restart''))))"
    unfolding reProbe_iff reProxyPath_iff by (rule regroup) simp_all
  finally show ?thesis by (simp add: ServeProxy_def)
qed

text \<open>With nothing configured, the two containers of a node are on the list, and only they.\<close>

lemma default_allow_list: "allow_list ''xray,nginx-edge'' = {''xray'', ''nginx-edge''}"
  by (auto simp: allow_list_def TrimSpace_def trim_by_def is_space_def)

end
