(* ===== verification/Standalone.thy ===== *)
theory Standalone
  imports Apply Codecs Url Dockproxy
begin

section \<open>A node without a panel (internal/agent/standalone.go, localstore.go)\<close>

text \<open>
  The local user file, the commands that edit it, and the configuration built from it. Each command
  is a process of its own: it starts the agent's state from the files, edits the user file and
  applies the result with the same \<open>applyConfig\<close> as a managed node. The user file and everything
  \<open>applyConfig\<close> touches are the state; what a command prints is its result.
\<close>

subsection \<open>The user file\<close>

record local_user =
  lu_Name :: string
  lu_UUID :: string

text \<open>An empty file and one without a list decode to no users, so they are \<open>DbUsers []\<close>.\<close>

datatype db_file = DbMissing | DbUnreadable | DbMalformed | DbUsers "local_user list"

datatype cli_err = DbError | DbWriteFailed | UserExists string | UserUnknown string | NotApplied apply_err | BadCommand

fun loadLocalDB :: "db_file \<Rightarrow> cli_err + local_user list" where
  "loadLocalDB DbMissing = Inr []"
| "loadLocalDB DbUnreadable = Inl DbError"
| "loadLocalDB DbMalformed = Inl DbError"
| "loadLocalDB (DbUsers us) = Inr us"

text \<open>
  The file is overwritten in place: \<open>Some left\<close> is what a write that fails leaves, \<open>None\<close> a write
  that succeeds.
\<close>

record save_env =
  sv_mkdir :: bool
  sv_write_fails :: "db_file option"

definition saveLocalDB :: "save_env \<Rightarrow> local_user list \<Rightarrow> db_file \<Rightarrow> (cli_err + unit) \<times> db_file" where
  "saveLocalDB v us f =
     (if \<not> sv_mkdir v then (Inl DbWriteFailed, f)
      else case sv_write_fails v of Some left \<Rightarrow> (Inl DbWriteFailed, left) | None \<Rightarrow> (Inr (), DbUsers us))"

fun find_local :: "string \<Rightarrow> local_user list \<Rightarrow> nat option" where
  "find_local name [] = None"
| "find_local name (u # us) = (if lu_Name u = name then Some 0 else map_option Suc (find_local name us))"

definition genUUID :: "string \<Rightarrow> string" where
  "genUUID b = newUUID b"

subsection \<open>The node's parameters\<close>

record standaloneEnv =
  se_usersFile :: string
  se_address :: string
  se_tlsDomain :: string
  se_realityDest :: string
  se_realityServerName :: string
  se_realityPrivateKey :: string
  se_realityPublicKey :: string
  se_realityShortID :: string

definition loadStandaloneEnv :: "(string \<Rightarrow> string) \<Rightarrow> standaloneEnv" where
  "loadStandaloneEnv e =
     \<lparr>se_usersFile = agent_env e ''XUANWU_USERS_FILE'' ''/data/users.json'',
      se_address = agent_env e ''ADDRESS'' (agent_env e ''DOMAIN'' []), se_tlsDomain = agent_env e ''DOMAIN'' [],
      se_realityDest = agent_env e ''REALITY_DEST'' [], se_realityServerName = agent_env e ''REALITY_SERVER_NAME'' [],
      se_realityPrivateKey = agent_env e ''REALITY_PRIVATE_KEY'' [], se_realityPublicKey = agent_env e ''REALITY_PUBLIC_KEY'' [],
      se_realityShortID = agent_env e ''REALITY_SHORT_ID'' []\<rparr>"

definition standalone_params :: "standaloneEnv \<Rightarrow> node_params" where
  "standalone_params se =
     \<lparr>np_RealityDest = se_realityDest se, np_RealityServerName = se_realityServerName se,
      np_RealityPrivateKey = se_realityPrivateKey se, np_RealityShortID = se_realityShortID se, np_TLSDomain = se_tlsDomain se\<rparr>"

definition local_client :: "local_user \<Rightarrow> client" where
  "local_client u = \<lparr>cl_UUID = lu_UUID u, cl_Email = lu_Name u\<rparr>"

definition local_config :: "standaloneEnv \<Rightarrow> local_user list \<Rightarrow> json" where
  "local_config se us = Build (standalone_params se) (map local_client us)"

subsection \<open>Share links\<close>

definition share_query :: "string \<Rightarrow> string \<Rightarrow> url_values" where
  "share_query security sni =
     url_set ''fp'' ''chrome'' (url_set ''sni'' sni (url_set ''security'' security
       (url_set ''flow'' ''xtls-rprx-vision'' (url_set ''encryption'' ''none'' []))))"

definition share_link :: "string \<Rightarrow> string \<Rightarrow> url_values \<Rightarrow> string \<Rightarrow> string" where
  "share_link uuid host q name = ''vless://'' @ uuid @ ''@'' @ host @ '':443?'' @ Encode q @ ''#'' @ QueryEscape name"

definition shareLinks :: "standaloneEnv \<Rightarrow> local_user \<Rightarrow> string list" where
  "shareLinks se u =
     (if se_realityPublicKey se \<noteq> [] \<and> se_realityServerName se \<noteq> [] then
        let host = (if se_address se = [] then se_realityServerName se else se_address se);
            q = url_set ''pbk'' (se_realityPublicKey se) (share_query ''reality'' (se_realityServerName se));
            q = (if se_realityShortID se \<noteq> [] then url_set ''sid'' (se_realityShortID se) q else q)
        in [share_link (lu_UUID u) host (url_set ''type'' ''tcp'' q) (lu_Name u @ ''-reality'')]
      else []) @
     (if se_tlsDomain se \<noteq> [] then
        [share_link (lu_UUID u) (se_tlsDomain se) (url_set ''type'' ''tcp'' (share_query ''tls'' (se_tlsDomain se))) (lu_Name u @ ''-tls'')]
      else [])"

subsection \<open>Commands\<close>

record 'x standalone =
  sd_file :: db_file
  sd_node :: "'x node_state"

text \<open>What one command meets: the user file's writes, \<open>applyConfig\<close>'s outcomes, random bytes.\<close>

record cli_env =
  ce_save :: save_env
  ce_step :: step_env
  ce_random :: string

record 'x agent_ctx =
  cx_sha :: hash_fn
  cx_api :: "'x xray_api"
  cx_cfg :: agent_cfg
  cx_baseline :: string
  cx_se :: standaloneEnv

definition applyStandalone :: "'x agent_ctx \<Rightarrow> cli_env \<Rightarrow> 'x standalone \<Rightarrow> (cli_err + unit) \<times> 'x standalone" where
  "applyStandalone x v s =
     (case loadLocalDB (sd_file s) of Inl e \<Rightarrow> (Inl e, s)
      | Inr us \<Rightarrow>
          (case onConfig (cx_sha x) (cx_api x) (cx_cfg x) (ce_step v) (Some (local_config (cx_se x) us)) (se_tlsDomain (cx_se x)) (sd_node s) of
             (Inl e, n) \<Rightarrow> (Inl (NotApplied e), s\<lparr>sd_node := n\<rparr>)
           | (Inr u, n) \<Rightarrow> (Inr (), s\<lparr>sd_node := n\<rparr>)))"

text \<open>Save the edited list, then apply; \<open>out\<close> is printed if both succeed.\<close>

definition save_and_apply :: "'x agent_ctx \<Rightarrow> cli_env \<Rightarrow> local_user list \<Rightarrow> string list \<Rightarrow> 'x standalone
    \<Rightarrow> (cli_err + string list) \<times> 'x standalone" where
  "save_and_apply x v us out s =
     (case saveLocalDB (ce_save v) us (sd_file s) of
        (Inl e, f) \<Rightarrow> (Inl e, s\<lparr>sd_file := f\<rparr>)
      | (Inr u, f) \<Rightarrow>
          (case applyStandalone x v (s\<lparr>sd_file := f\<rparr>) of (Inl e, t) \<Rightarrow> (Inl e, t) | (Inr u, t) \<Rightarrow> (Inr out, t)))"

definition cliAddUser :: "'x agent_ctx \<Rightarrow> cli_env \<Rightarrow> string \<Rightarrow> 'x standalone \<Rightarrow> (cli_err + string list) \<times> 'x standalone" where
  "cliAddUser x v name s =
     (case loadLocalDB (sd_file s) of Inl e \<Rightarrow> (Inl e, s)
      | Inr us \<Rightarrow>
          if find_local name us \<noteq> None then (Inl (UserExists name), s)
          else let u = \<lparr>lu_Name = name, lu_UUID = genUUID (ce_random v)\<rparr> in
            save_and_apply x v (us @ [u]) ((''added user '' @ name) # shareLinks (cx_se x) u) s)"

definition cliRemoveUser :: "'x agent_ctx \<Rightarrow> cli_env \<Rightarrow> string \<Rightarrow> 'x standalone \<Rightarrow> (cli_err + string list) \<times> 'x standalone" where
  "cliRemoveUser x v name s =
     (case loadLocalDB (sd_file s) of Inl e \<Rightarrow> (Inl e, s)
      | Inr us \<Rightarrow>
          (case find_local name us of None \<Rightarrow> (Inl (UserUnknown name), s)
           | Some i \<Rightarrow> save_and_apply x v (take i us @ drop (Suc i) us) [''removed user '' @ name] s))"

text \<open>\<^verbatim>\<open>%-20s\<close> pads to a width in runes.\<close>

definition cliListUsers :: "db_file \<Rightarrow> cli_err + string list" where
  "cliListUsers f =
     (case loadLocalDB f of Inl e \<Rightarrow> Inl e
      | Inr us \<Rightarrow> Inr (map (\<lambda>u. lu_Name u @ replicate (20 - length (runes (lu_Name u))) (CHR '' '') @ '' '' @ lu_UUID u) us))"

definition RunCLI :: "'x agent_ctx \<Rightarrow> cli_env \<Rightarrow> string list \<Rightarrow> 'x standalone \<Rightarrow> (cli_err + string list) \<times> 'x standalone" where
  "RunCLI x v args s =
     (if length args \<ge> 3 \<and> args ! 0 = ''user'' \<and> args ! 1 = ''add'' then cliAddUser x v (args ! 2) s
      else if length args \<ge> 3 \<and> args ! 0 = ''user'' \<and> args ! 1 = ''rm'' then cliRemoveUser x v (args ! 2) s
      else if length args \<ge> 2 \<and> args ! 0 = ''user'' \<and> args ! 1 = ''list'' then (cliListUsers (sd_file s), s)
      else if length args \<ge> 1 \<and> args ! 0 = ''apply'' then
        (case applyStandalone x v s of (Inl e, t) \<Rightarrow> (Inl e, t) | (Inr u, t) \<Rightarrow> (Inr [], t))
      else (Inl BadCommand, s))"

text \<open>
  A process: \<open>ConfigFromEnv\<close>, then the command, or the service, whose loop after the first
  \<open>applyStandalone\<close> only discards counters.
\<close>

definition cli_process :: "'x agent_ctx \<Rightarrow> cli_env \<Rightarrow> string list \<Rightarrow> 'x standalone \<Rightarrow> (cli_err + string list) \<times> 'x standalone" where
  "cli_process x v args s =
     RunCLI x v args (s\<lparr>sd_node := agentStart (cx_sha x) (cx_cfg x) (cx_baseline x) (sd_node s)\<rparr>)"

definition RunStandalone :: "'x agent_ctx \<Rightarrow> cli_env \<Rightarrow> 'x standalone \<Rightarrow> (cli_err + unit) \<times> 'x standalone" where
  "RunStandalone x v s =
     applyStandalone x v (s\<lparr>sd_node := agentStart (cx_sha x) (cx_cfg x) (cx_baseline x) (sd_node s)\<rparr>)"

subsection \<open>The configuration of the user file\<close>

text \<open>Without a certificate the TLS inbound of a generated configuration is left out, and only that.\<close>

lemma strip_Build:
  "stripTLSIfNoCert cert path (Some (Build p cs)) =
     Some (Build (if path = [] \<or> cert then p else p\<lparr>np_TLSDomain := []\<rparr>) cs)"
proof -
  have t: "has_tag tagTLS (tls_inbound cl)" "\<not> has_tag tagTLS (reality_inbound p cl)" "\<not> has_tag tagTLS api_inbound"
    "reality_inbound (p\<lparr>np_TLSDomain := []\<rparr>) cl = reality_inbound p cl" for cl
    by (simp_all add: has_tag_def reality_inbound_def api_inbound_def tls_inbound_def tagTLS_def)
  obtain m where m: "Build p cs = JObj m" "jget ''inbounds'' m = JArr (inbounds_of p (map client_json cs))"
    "\<And>ibs'. JObj (fmupd ''inbounds'' (JArr ibs') m) = config_frame ibs'"
    using config_frame_obj [of "inbounds_of p (map client_json cs)"] by (auto simp: Build_def)
  show ?thesis
    using m t by (auto simp: stripTLSIfNoCert_def Build_def inbounds_of_def)
qed

definition served_params :: "'x agent_ctx \<Rightarrow> cli_env \<Rightarrow> node_params" where
  "served_params x v = (if ac_CertPath (cx_cfg x) = [] \<or> ev_cert (ce_step v) then standalone_params (cx_se x)
     else (standalone_params (cx_se x))\<lparr>np_TLSDomain := []\<rparr>)"

text \<open>A user list as the commands keep it.\<close>

definition local_ok :: "local_user list \<Rightarrow> bool" where
  "local_ok us \<longleftrightarrow> distinct (map lu_Name us) \<and> [] \<notin> set (map lu_Name us)"

definition local_users :: "local_user list \<Rightarrow> (string \<times> string) list" where
  "local_users us = map (\<lambda>u. (lu_Name u, lu_UUID u)) us"

lemma parse_local:
  assumes "local_ok us"
  shows "\<exists>sets. parseClients (Some (Build p (map local_client us))) = Some (skeleton_of p, sets) \<and>
    (if np_TLSDomain p = [] then True else map_of (tag_set tagTLS sets) = map_of (local_users us)) \<and>
    map_of (tag_set tagReality sets) = map_of (local_users us)"
proof -
  have "list_all (\<lambda>c. cl_Email c \<noteq> []) (map local_client us)"
    using assms by (force simp: local_ok_def list_all_iff local_client_def)
  moreover have "map_of (client_set (map local_client us)) = map_of (local_users us)"
    using assms by (subst client_set_map) (simp_all add: local_ok_def local_client_def local_users_def comp_def)
  ultimately show ?thesis by (simp add: parse_Build tag_set_def tagTLS_def tagReality_def)
qed

text \<open>What is true between commands, and what a process that applies successfully leaves.\<close>

definition node_fine :: "hash_fn \<Rightarrow> 'x user_tables \<Rightarrow> ('x \<Rightarrow> json) \<Rightarrow> 'x node_state \<Rightarrow> bool" where
  "node_fine H serves runs n \<longleftrightarrow> baseline_true serves runs (ns_live n) (ns_xray n) \<and> record_ok H (ns_baseline n)"

definition serves_users :: "'x user_tables \<Rightarrow> ('x \<Rightarrow> json) \<Rightarrow> node_params \<Rightarrow> local_user list \<Rightarrow> 'x \<Rightarrow> bool" where
  "serves_users serves runs p us x \<longleftrightarrow> runs x = skeleton_of p \<and>
     (np_TLSDomain p = [] \<or> serves x tagTLS = map_of (local_users us)) \<and> serves x tagReality = map_of (local_users us)"

lemma applyStandalone_serves:
  assumes api: "xray_ok (cx_api x) serves runs" and n: "node_fine (cx_sha x) serves runs (sd_node s)"
    and f: "loadLocalDB (sd_file s) = Inr us" "local_ok us" and ok: "applyStandalone x v s = (Inr u, t)"
  shows "sd_file t = sd_file s \<and> node_fine (cx_sha x) serves runs (sd_node t) \<and> in_sync serves runs (sd_node t) \<and>
    serves_users serves runs (served_params x v) us (ns_xray (sd_node t))"
proof -
  let ?j = "Build (served_params x v) (map local_client us)"
  obtain n' where n': "onConfig (cx_sha x) (cx_api x) (cx_cfg x) (ce_step v) (Some (local_config (cx_se x) us))
      (se_tlsDomain (cx_se x)) (sd_node s) = (Inr (), n')" "t = s\<lparr>sd_node := n'\<rparr>"
    using ok f(1) by (auto simp: applyStandalone_def split: prod.splits sum.splits)
  have raw: "stripTLSIfNoCert (ev_cert (ce_step v)) (ac_CertPath (cx_cfg x)) (Some (local_config (cx_se x) us)) = Some ?j"
    by (simp add: local_config_def strip_Build served_params_def)
  obtain sets where p: "parseClients (Some ?j) = Some (skeleton_of (served_params x v), sets)"
    "if np_TLSDomain (served_params x v) = [] then True else map_of (tag_set tagTLS sets) = map_of (local_users us)"
    "map_of (tag_set tagReality sets) = map_of (local_users us)"
    using parse_local [OF f(2)] by blast
  have st: "baseline_true serves runs (ns_live (sd_node s\<lparr>ns_acme := a\<rparr>)) (ns_xray (sd_node s\<lparr>ns_acme := a\<rparr>))"
    "record_ok (cx_sha x) (ns_baseline (sd_node s\<lparr>ns_acme := a\<rparr>))" for a
    using n by (simp_all add: node_fine_def)
  from applyConfig_sync [OF api st raw p(1) n'(1) [unfolded onConfig_def]] p
  show ?thesis by (auto simp: n'(2) node_fine_def in_sync_def serves_users_def split: if_splits)
qed

lemma find_local_None: "find_local name us = None \<longleftrightarrow> name \<notin> set (map lu_Name us)"
  by (induction us) auto

lemma find_local_Some: "find_local name us = Some i \<Longrightarrow> i < length us \<and> lu_Name (us ! i) = name"
  by (induction us arbitrary: i) (auto split: if_splits)

lemma removed_users:
  "distinct (map lu_Name us) \<Longrightarrow> find_local name us = Some i \<Longrightarrow> take i us @ drop (Suc i) us = filter (\<lambda>u. lu_Name u \<noteq> name) us"
proof (induction us arbitrary: i)
  case (Cons u us)
  show ?case
  proof (cases "lu_Name u = name")
    case True
    with Cons.prems have "filter (\<lambda>u. lu_Name u \<noteq> name) us = us" by (intro filter_True) (force simp: image_iff)
    with True Cons.prems show ?thesis by simp
  next
    case False
    with Cons.prems obtain j where "i = Suc j" "find_local name us = Some j" by auto
    with False Cons show ?thesis by simp
  qed
qed simp

text \<open>The edit a command makes to the user list, as a function of the list alone.\<close>

definition edited_users :: "string list \<Rightarrow> string \<Rightarrow> local_user list \<Rightarrow> local_user list" where
  "edited_users args uuid us =
     (if length args \<ge> 3 \<and> args ! 0 = ''user'' \<and> args ! 1 = ''add'' then us @ [\<lparr>lu_Name = args ! 2, lu_UUID = uuid\<rparr>]
      else if length args \<ge> 3 \<and> args ! 0 = ''user'' \<and> args ! 1 = ''rm'' then filter (\<lambda>u. lu_Name u \<noteq> args ! 2) us
      else us)"

definition applies :: "string list \<Rightarrow> bool" where
  "applies args \<longleftrightarrow> (length args \<ge> 3 \<and> args ! 0 = ''user'' \<and> args ! 1 \<in> {''add'', ''rm''}) \<or> (args \<noteq> [] \<and> args ! 0 = ''apply'')"

lemma save_and_apply_serves:
  assumes "xray_ok (cx_api x) serves runs" "node_fine (cx_sha x) serves runs (sd_node s)" "local_ok us"
    and "save_and_apply x v us out s = (Inr r, t)"
  shows "sd_file t = DbUsers us \<and> node_fine (cx_sha x) serves runs (sd_node t) \<and> in_sync serves runs (sd_node t) \<and>
    serves_users serves runs (served_params x v) us (ns_xray (sd_node t))"
proof -
  obtain u where "applyStandalone x v (s\<lparr>sd_file := DbUsers us\<rparr>) = (Inr u, t)"
    using assms(4) by (auto simp: save_and_apply_def saveLocalDB_def split: if_splits option.splits prod.splits sum.splits)
  from applyStandalone_serves [OF assms(1) _ _ assms(3) this] assms(2) show ?thesis by simp
qed

lemma RunCLI_serves:
  assumes api: "xray_ok (cx_api x) serves runs" and n: "node_fine (cx_sha x) serves runs (sd_node s)"
    and f: "loadLocalDB (sd_file s) = Inr us" "local_ok us" and a: "applies args" "args ! 2 \<noteq> []"
    and ok: "RunCLI x v args s = (Inr out, t)"
  shows "loadLocalDB (sd_file t) = Inr (edited_users args (genUUID (ce_random v)) us) \<and>
    local_ok (edited_users args (genUUID (ce_random v)) us) \<and>
    node_fine (cx_sha x) serves runs (sd_node t) \<and> in_sync serves runs (sd_node t) \<and>
    serves_users serves runs (served_params x v) (edited_users args (genUUID (ce_random v)) us) (ns_xray (sd_node t))"
proof -
  let ?new = "edited_users args (genUUID (ce_random v)) us"
  consider (add) "length args \<ge> 3" "args ! 0 = ''user''" "args ! 1 = ''add''"
    | (rm) "length args \<ge> 3" "args ! 0 = ''user''" "args ! 1 = ''rm''" | (app) "args \<noteq> []" "args ! 0 = ''apply''"
    using a by (auto simp: applies_def)
  then show ?thesis
  proof cases
    case add
    then have run: "cliAddUser x v (args ! 2) s = (Inr out, t)" using ok by (simp add: RunCLI_def)
    then have fresh: "args ! 2 \<notin> set (map lu_Name us)"
      and save: "save_and_apply x v ?new ((''added user '' @ args ! 2) # shareLinks (cx_se x) \<lparr>lu_Name = args ! 2, lu_UUID = genUUID (ce_random v)\<rparr>) s = (Inr out, t)"
      using f(1) add by (auto simp: cliAddUser_def edited_users_def find_local_None Let_def split: if_splits)
    have "local_ok ?new" using fresh f(2) a(2) add by (auto simp: local_ok_def edited_users_def)
    with save_and_apply_serves [OF api n this save] show ?thesis by simp
  next
    case rm
    then have run: "cliRemoveUser x v (args ! 2) s = (Inr out, t)" using ok by (simp add: RunCLI_def)
    then obtain i where "find_local (args ! 2) us = Some i" "save_and_apply x v (take i us @ drop (Suc i) us) [''removed user '' @ args ! 2] s = (Inr out, t)"
      using f(1) by (auto simp: cliRemoveUser_def split: option.splits)
    with rm f(2) have save: "save_and_apply x v ?new [''removed user '' @ args ! 2] s = (Inr out, t)"
      by (simp add: edited_users_def removed_users local_ok_def)
    have "local_ok ?new" using f(2) rm by (auto simp: local_ok_def edited_users_def distinct_map_filter)
    with save_and_apply_serves [OF api n this save] show ?thesis by simp
  next
    case app
    then obtain u where "applyStandalone x v s = (Inr u, t)"
      using ok by (cases args) (auto simp: RunCLI_def split: prod.splits sum.splits)
    with applyStandalone_serves [OF api n f this] app f show ?thesis by (simp add: edited_users_def)
  qed
qed

subsection \<open>A node that is managed by commands\<close>


definition sample_ctx :: "sim agent_ctx" where
  "sample_ctx = \<lparr>cx_sha = sample_sha, cx_api = sim_api0, cx_cfg = sample_agent, cx_baseline = ''baseline.json'',
     cx_se = \<lparr>se_usersFile = ''/data/users.json'', se_address = [], se_tlsDomain = [], se_realityDest = ''example.com:443'', se_realityServerName = ''example.com'',
       se_realityPrivateKey = ''key'', se_realityPublicKey = ''pub'', se_realityShortID = ''ab''\<rparr>\<rparr>"

definition sample_cli :: cli_env where
  "sample_cli = \<lparr>ce_save = \<lparr>sv_mkdir = True, sv_write_fails = None\<rparr>, ce_step = sample_env, ce_random = replicate 16 (CHR 0x00)\<rparr>"

definition sample_local :: "sim standalone" where
  "sample_local = \<lparr>sd_file = DbUsers [\<lparr>lu_Name = ''a'', lu_UUID = ''id-a''\<rparr>],
     sd_node = (sample_node [])\<lparr>ns_config := Some (Rendered (sample_cfg [''a''])),
       ns_xray := \<lparr>sx_runs = skeleton_of sample_params, sx_tags = [(tagReality, [(''a'', ''id-a'')])], sx_fails = []\<rparr>\<rparr>\<rparr>"

lemma sample_local_ok:
  "in_sync sim_serves sx_runs (sd_node sample_local)" "record_ok sample_sha (ns_baseline (sd_node sample_local))"
  "sample_sha b = fileSHA sample_sha (ns_config (sd_node sample_local)) \<Longrightarrow> ns_config (sd_node sample_local) = Some b"
proof -
  show "in_sync sim_serves sx_runs (sd_node sample_local)"
    using sample_parse [of "[''a'']"] by (simp add: in_sync_def sample_local_def sim_serves_def client_set_def)
  show "record_ok sample_sha (ns_baseline (sd_node sample_local))"
    by (simp add: record_ok_def sample_local_def sample_node_def)
  show "sample_sha b = fileSHA sample_sha (ns_config (sd_node sample_local)) \<Longrightarrow> ns_config (sd_node sample_local) = Some b"
    by (cases b) (auto simp: fileSHA_def sample_local_def split: if_splits)
qed

lemma sample_removal:
  "\<exists>t. cli_process sample_ctx sample_cli [''user'', ''rm'', ''a''] sample_local = (Inr [''removed user a''], t)"
proof -
  have p: "standalone_params (cx_se sample_ctx) = sample_params"
    by (simp add: standalone_params_def sample_ctx_def sample_params_def)
  have parse: "parseClients (Some (Build sample_params [])) = Some (skeleton_of sample_params, [(tagReality, client_set [])])"
    by (subst parse_Build) (simp_all add: sample_params_def)
  show ?thesis
    using p parse
    by (simp add: cli_process_def RunCLI_def cliRemoveUser_def save_and_apply_def saveLocalDB_def applyStandalone_def
        onConfig_def applyConfig_def writeConfig_def restartXray_def liveApply_def agentStart_def seed_def newLiveState_def
        local_config_def sample_ctx_def sample_cli_def sample_env_def sample_local_def sample_node_def sim_api0_def
        set_live_def Let_def)
qed


end
