(* ===== verification/Stats.thy ===== *)
theory Stats
  imports Pending Scan
begin

section \<open>Reading Xray's counters (internal/agent/stats.go)\<close>

text \<open>
  The reply of Xray's \<^verbatim>\<open>QueryStats\<close> with reset is a list of named counters, \<open>None\<close> when the dial or
  the call fails. \<open>statsToItems\<close> folds it into one item per account, in a map whose order of
  iteration Go does not fix: the model lists it in the order of first appearance, and what is shown
  of it does not depend on the order.
\<close>

definition bump :: "string \<Rightarrow> int \<Rightarrow> pair \<Rightarrow> pair" where
  "bump dir v a =
     (if dir = ''uplink'' then a\<lparr>p_up := wrap64 (p_up a + v)\<rparr>
      else if dir = ''downlink'' then a\<lparr>p_down := wrap64 (p_down a + v)\<rparr>
      else a)"

definition pair_of :: "string \<Rightarrow> pair_map \<Rightarrow> pair" where
  "pair_of e m = (case map_of m e of None \<Rightarrow> \<lparr>p_up = 0, p_down = 0\<rparr> | Some a \<Rightarrow> a)"

definition add_stat :: "string \<times> int \<Rightarrow> pair_map \<Rightarrow> pair_map" where
  "add_stat s byEmail = (case s of (name, v) \<Rightarrow>
     (case Split name ''>>>'' of
        [kind, email, what, dir] \<Rightarrow>
          if kind \<noteq> ''user'' \<or> what \<noteq> ''traffic'' then byEmail
          else if v = 0 then byEmail
          else AList.update email (bump dir v (pair_of email byEmail)) byEmail
      | _ \<Rightarrow> byEmail))"

definition statsToItems :: "(string \<times> int) list \<Rightarrow> traffic_item list" where
  "statsToItems stats = flight_items (fold add_stat stats [])"

definition collectTraffic :: "(string \<times> int) list option \<Rightarrow> traffic_item list" where
  "collectTraffic reply = (case reply of None \<Rightarrow> [] | Some stats \<Rightarrow> statsToItems stats)"

subsection \<open>The name of a counter\<close>

definition counter_name :: "string \<Rightarrow> string \<Rightarrow> string" where
  "counter_name email dir = ''user>>>'' @ email @ ''>>>traffic>>>'' @ dir"

lemma cut_at_parts: "cut_at sep s = Some (a, b) \<Longrightarrow> s = a @ sep @ b"
proof (induction s arbitrary: a)
  case Nil
  then show ?case by (auto split: if_splits)
next
  case (Cons c s)
  then show ?case by (cases "HasPrefix (c # s) sep") (auto simp: HasPrefix_iff)
qed

lemma Split_step: "sep \<noteq> [] \<Longrightarrow> Split s sep = (case cut_at sep s of None \<Rightarrow> [s] | Some (a, b) \<Rightarrow> a # Split b sep)"
  by (subst Split.simps) simp

lemma Join_Split: "sep \<noteq> [] \<Longrightarrow> Join (Split s sep) sep = s \<and> Split s sep \<noteq> []"
proof (induction s sep rule: Split.induct)
  case (1 s sep)
  show ?case
  proof (cases "cut_at sep s")
    case None
    with 1 show ?thesis by (simp add: Split_step)
  next
    case (Some ab)
    obtain a b where ab: "ab = (a, b)" by (cases ab) auto
    with 1 Some have b: "Join (Split b sep) sep = b" "Split b sep \<noteq> []" by auto
    have "Split s sep = a # Split b sep" using Some ab 1 by (simp add: Split_step)
    moreover have "s = a @ sep @ b" using Some ab cut_at_parts [of sep s a b] by simp
    ultimately show ?thesis using b by (cases "Split b sep") simp_all
  qed
qed

lemma cut_at_before:
  "CHR ''>'' \<notin> set p \<Longrightarrow> cut_at ''>>>'' (p @ ''>>>'' @ s) = Some (p, s)" "CHR ''>'' \<notin> set p \<Longrightarrow> cut_at ''>>>'' p = None"
  by (induction p) (auto simp: HasPrefix_code)

lemma Split_before:
  "CHR ''>'' \<notin> set p \<Longrightarrow> Split (p @ ''>>>'' @ s) ''>>>'' = p # Split s ''>>>''"
  "CHR ''>'' \<notin> set p \<Longrightarrow> Split p ''>>>'' = [p]"
  using cut_at_before(1) [of p s] cut_at_before(2) [of p] Split_step [of "''>>>''" p] Split_step [of "''>>>''" "p @ ''>>>'' @ s"]
  by simp_all

lemma Split_counter:
  assumes "CHR ''>'' \<notin> set e" "CHR ''>'' \<notin> set d"
  shows "Split (counter_name e d) ''>>>'' = [''user'', e, ''traffic'', d]"
proof -
  have n: "counter_name e d = ''user'' @ ''>>>'' @ e @ ''>>>'' @ ''traffic'' @ ''>>>'' @ d"
    by (simp add: counter_name_def)
  have l: "CHR ''>'' \<notin> set ''user''" "CHR ''>'' \<notin> set ''traffic''" by simp_all
  show ?thesis unfolding n Split_before(1) [OF l(1)] Split_before(1) [OF assms(1)] Split_before(1) [OF l(2)]
      Split_before(2) [OF assms(2)] ..
qed

lemma Split_counterD:
  assumes "Split n ''>>>'' = [''user'', e, ''traffic'', d]"
  shows "n = counter_name e d"
proof -
  have "Join (Split n ''>>>'') ''>>>'' = n" using Join_Split [of "''>>>''" n] by simp
  then show ?thesis unfolding assms by (simp add: counter_name_def)
qed

subsection \<open>What the items say\<close>

definition counted :: "string \<Rightarrow> string \<Rightarrow> (string \<times> int) list \<Rightarrow> int" where
  "counted e d stats = sum_list (map snd (filter (\<lambda>(n, v). n = counter_name e d) stats))"

lemma add_stat_counter:
  "Split n ''>>>'' = [''user'', e, ''traffic'', d] \<Longrightarrow>
     add_stat (n, v) m = (if v = 0 then m else AList.update e (bump d v (pair_of e m)) m)"
  by (simp add: add_stat_def)

lemma add_stat_cases:
  obtains "add_stat (n, v) m = m" "v = 0 \<or> (\<forall>e d. Split n ''>>>'' \<noteq> [''user'', e, ''traffic'', d])"
  | e d where "Split n ''>>>'' = [''user'', e, ''traffic'', d]" "v \<noteq> 0" "add_stat (n, v) m = AList.update e (bump d v (pair_of e m)) m"
proof (cases "\<exists>e d. Split n ''>>>'' = [''user'', e, ''traffic'', d]")
  case True
  then obtain e d where "Split n ''>>>'' = [''user'', e, ''traffic'', d]" by blast
  with that add_stat_counter [OF this, of v m] show thesis by (cases "v = 0") auto
next
  case False
  then have "add_stat (n, v) m = m" by (auto simp: add_stat_def split: list.split)
  with that(1) False show thesis by blast
qed

lemma pair_of_update: "pair_of e (AList.update j a m) = (if e = j then a else pair_of e m)"
  by (auto simp: pair_of_def)

lemma add_stat_keys: "keys_distinct m \<Longrightarrow> keys_distinct (add_stat s m)"
  by (cases s, rule add_stat_cases [of "fst s" "snd s" m]) (auto simp: keys_distinct_update)

lemma add_stat_pair:
  assumes "CHR ''>'' \<notin> set e"
  shows "p_up (pair_of e (add_stat (n, v) m)) =
      (if n = counter_name e ''uplink'' \<and> v \<noteq> 0 then wrap64 (p_up (pair_of e m) + v) else p_up (pair_of e m))"
    and "p_down (pair_of e (add_stat (n, v) m)) =
      (if n = counter_name e ''downlink'' \<and> v \<noteq> 0 then wrap64 (p_down (pair_of e m) + v) else p_down (pair_of e m))"
proof -
  have c: "Split (counter_name e d) ''>>>'' = [''user'', e, ''traffic'', d]" if "d = ''uplink'' \<or> d = ''downlink''" for d
    using that by (intro Split_counter [OF assms]) auto
  have "p_up (pair_of e (add_stat (n, v) m)) =
      (if n = counter_name e ''uplink'' \<and> v \<noteq> 0 then wrap64 (p_up (pair_of e m) + v) else p_up (pair_of e m)) \<and>
    p_down (pair_of e (add_stat (n, v) m)) =
      (if n = counter_name e ''downlink'' \<and> v \<noteq> 0 then wrap64 (p_down (pair_of e m) + v) else p_down (pair_of e m))"
  proof (rule add_stat_cases [of n v m])
    assume "add_stat (n, v) m = m" "v = 0 \<or> (\<forall>e d. Split n ''>>>'' \<noteq> [''user'', e, ''traffic'', d])"
    with c show ?thesis by auto
  next
    fix j d
    assume s: "Split n ''>>>'' = [''user'', j, ''traffic'', d]" "v \<noteq> 0"
      "add_stat (n, v) m = AList.update j (bump d v (pair_of j m)) m"
    then show ?thesis using c [of "''uplink''"] c [of "''downlink''"] Split_counterD [OF s(1)]
      by (auto simp: pair_of_update bump_def)
  qed
  then show "p_up (pair_of e (add_stat (n, v) m)) =
      (if n = counter_name e ''uplink'' \<and> v \<noteq> 0 then wrap64 (p_up (pair_of e m) + v) else p_up (pair_of e m))"
    "p_down (pair_of e (add_stat (n, v) m)) =
      (if n = counter_name e ''downlink'' \<and> v \<noteq> 0 then wrap64 (p_down (pair_of e m) + v) else p_down (pair_of e m))" by auto
qed

lemma fold_stat_pair:
  assumes "CHR ''>'' \<notin> set e" "list_all (\<lambda>(n, v). 0 \<le> v) stats"
    and "0 \<le> p_up (pair_of e m)" "p_up (pair_of e m) + counted e ''uplink'' stats < 2 ^ 63"
    and "0 \<le> p_down (pair_of e m)" "p_down (pair_of e m) + counted e ''downlink'' stats < 2 ^ 63"
  shows "p_up (pair_of e (fold add_stat stats m)) = p_up (pair_of e m) + counted e ''uplink'' stats \<and>
    p_down (pair_of e (fold add_stat stats m)) = p_down (pair_of e m) + counted e ''downlink'' stats"
  using assms(2-)
proof (induction stats arbitrary: m)
  case Nil
  then show ?case by (simp add: counted_def)
next
  case (Cons s stats)
  obtain n v where s: "s = (n, v)" by (cases s) auto
  have c: "0 \<le> counted e d stats" for d
    using Cons.prems(1) unfolding counted_def by (intro sum_list_nonneg) (auto simp: list_all_iff)
  have k: "counted e d (s # stats) = (if n = counter_name e d then v else 0) + counted e d stats" for d
    by (simp add: counted_def s)
  let ?m = "add_stat s m"
  have up: "p_up (pair_of e ?m) = p_up (pair_of e m) + (if n = counter_name e ''uplink'' then v else 0)"
    using Cons.prems(1-3) c [of "''uplink''"] k [of "''uplink''"] by (auto simp: s add_stat_pair(1) [OF assms(1)] wrap64_nonneg)
  have down: "p_down (pair_of e ?m) = p_down (pair_of e m) + (if n = counter_name e ''downlink'' then v else 0)"
    using Cons.prems(1,4,5) c [of "''downlink''"] k [of "''downlink''"] by (auto simp: s add_stat_pair(2) [OF assms(1)] wrap64_nonneg)
  have "p_up (pair_of e (fold add_stat stats ?m)) = p_up (pair_of e ?m) + counted e ''uplink'' stats \<and>
    p_down (pair_of e (fold add_stat stats ?m)) = p_down (pair_of e ?m) + counted e ''downlink'' stats"
    by (rule Cons.IH) (use Cons.prems s k in \<open>simp_all add: up [unfolded s] down [unfolded s] split: if_splits\<close>)
  then show ?case by (simp add: up down k)
qed

lemma fold_stat_keys: "keys_distinct m \<Longrightarrow> keys_distinct (fold add_stat stats m)"
  by (induction stats arbitrary: m) (simp_all add: add_stat_keys)

lemma flight_items_of:
  "keys_distinct m \<Longrightarrow> filter (\<lambda>it. ti_email it = e) (flight_items m) =
     (case map_of m e of None \<Rightarrow> [] | Some a \<Rightarrow> [\<lparr>ti_email = e, ti_up = p_up a, ti_down = p_down a\<rparr>])"
proof (induction m)
  case (Cons p m)
  obtain k v where p: "p = (k, v)" by (cases p) auto
  have "map_of m k = None" if "keys_distinct (p # m)" using that by (simp add: p map_of_eq_None_iff)
  with Cons show ?case by (auto simp: p flight_items_def split: option.split)
qed (simp add: flight_items_def)

text \<open>
  C18. A report is exactly what Xray counted. For an account whose name the panel accepts, whatever other
  counters the reply holds and in whatever order, and as long as the sums fit 64 bits, the items
  have at most one entry for it, in every order of Go's map, with the sums of its uplink and
  downlink counters; it has none only when nothing was counted.
\<close>
theorem statistics_exact:
  assumes "validateUsername e = None" "list_all (\<lambda>(n, v). 0 \<le> v) stats"
    and "counted e ''uplink'' stats < 2 ^ 63" "counted e ''downlink'' stats < 2 ^ 63"
    and "mset items = mset (collectTraffic (Some stats))"
  shows "filter (\<lambda>it. ti_email it = e) items \<in>
      {[\<lparr>ti_email = e, ti_up = counted e ''uplink'' stats, ti_down = counted e ''downlink'' stats\<rparr>]} \<union>
      (if counted e ''uplink'' stats = 0 \<and> counted e ''downlink'' stats = 0 then {[]} else {})"
proof -
  let ?m = "fold add_stat stats []"
  have bar: "CHR ''>'' \<notin> set e"
    using assms(1) by (auto simp: validateUsername_def reUsername_def list_all_iff is_alnum_def char_in_def split: if_splits)
  have "mset (filter (\<lambda>it. ti_email it = e) items) = mset (filter (\<lambda>it. ti_email it = e) (flight_items ?m))"
    using assms(5) by (simp add: collectTraffic_def statsToItems_def)
  also have "filter (\<lambda>it. ti_email it = e) (flight_items ?m) =
      (case map_of ?m e of None \<Rightarrow> [] | Some a \<Rightarrow> [\<lparr>ti_email = e, ti_up = p_up a, ti_down = p_down a\<rparr>])"
    by (rule flight_items_of) (simp add: fold_stat_keys)
  finally have f: "filter (\<lambda>it. ti_email it = e) items =
      (case map_of ?m e of None \<Rightarrow> [] | Some a \<Rightarrow> [\<lparr>ti_email = e, ti_up = p_up a, ti_down = p_down a\<rparr>])"
    by (cases "map_of ?m e") (simp_all flip: mset_filter)
  have "p_up (pair_of e ?m) = counted e ''uplink'' stats \<and> p_down (pair_of e ?m) = counted e ''downlink'' stats"
    using fold_stat_pair [OF bar assms(2), of "[]"] assms(3,4) by (simp add: pair_of_def)
  then show ?thesis by (auto simp: f pair_of_def split: option.splits)
qed

theorem statistics_exact_witness:
  "filter (\<lambda>it. ti_email it = ''bob'')
     (rev (collectTraffic (Some [(counter_name ''bob'' ''uplink'', 5), (counter_name ''eve'' ''downlink'', 9), (counter_name ''bob'' ''downlink'', 7)]))) =
   [\<lparr>ti_email = ''bob'', ti_up = 5, ti_down = 7\<rparr>]"
proof -
  let ?s = "[(counter_name ''bob'' ''uplink'', 5), (counter_name ''eve'' ''downlink'', 9), (counter_name ''bob'' ''downlink'', 7)]"
  have c: "counted ''bob'' ''uplink'' ?s = 5" "counted ''bob'' ''downlink'' ?s = 7"
    by (simp_all add: counted_def counter_name_def)
  have "validateUsername ''bob'' = None" by code_simp
  from statistics_exact [OF this, of ?s "rev (collectTraffic (Some ?s))"] c show ?thesis by simp
qed

end
