(* ===== verification/Devices.thy ===== *)
theory Devices
  imports Wire Scan
begin

section \<open>Watching Xray's access log (internal/agent/devices.go)\<close>

text \<open>
  The watcher remembers how far it has read the log and reports, per account and source address,
  how many accepted connections it found since. Its position is explicit, and so is the file the
  position is saved to. A log is its inode and its bytes; the outcome of each system call and the
  local time zone's parser of time stamps belong to the environment of a call.
\<close>

subsection \<open>State\<close>

record accessWatcher =
  aw_path :: string
  aw_state :: string
  aw_offset :: int
  aw_inode :: int
  aw_seeded :: bool

text \<open>The offset file, decoded: \<open>None\<close> when it is missing or not the JSON the watcher writes.\<close>

type_synonym offset_file = "(int \<times> int) option"

definition newAccessWatcher :: "string \<Rightarrow> string \<Rightarrow> offset_file \<Rightarrow> accessWatcher" where
  "newAccessWatcher path state f =
     (let w = \<lparr>aw_path = path, aw_state = state, aw_offset = 0, aw_inode = 0, aw_seeded = False\<rparr> in
      if state = [] then w
      else case f of None \<Rightarrow> w
        | Some (off, ino) \<Rightarrow> w\<lparr>aw_offset := off, aw_inode := ino, aw_seeded := True\<rparr>)"

text \<open>
  \<open>ae_log\<close> is what \<^verbatim>\<open>Stat\<close> sees, \<open>None\<close> its failure; \<open>ae_more\<close> is written between \<^verbatim>\<open>Stat\<close> and the end
  of the reading; \<open>ae_open\<close> and \<open>ae_save\<close> say whether opening the log and saving the position succeed.
\<close>

record access_env =
  ae_now :: int
  ae_log :: "(int \<times> string) option"
  ae_more :: string
  ae_open :: bool
  ae_save :: bool
  ae_time :: "string \<Rightarrow> int option"

definition saveOffset :: "bool \<Rightarrow> accessWatcher \<Rightarrow> offset_file \<Rightarrow> offset_file" where
  "saveOffset ok w f = (if aw_state w = [] then f else if ok then Some (aw_offset w, aw_inode w) else f)"

subsection \<open>A line\<close>

definition nl :: char where "nl = CHR 0x0A"

text \<open>\<^verbatim>\<open>\s\<close> of the expression, without the vertical tab \<open>is_space\<close> has.\<close>

definition re_space :: "char \<Rightarrow> bool" where
  "re_space c \<longleftrightarrow> is_space c \<and> c \<noteq> CHR 0x0B"

text \<open>\<^verbatim>\<open>(\[[0-9a-fA-F:]+\]|[0-9.]+)\<close>, brackets included.\<close>

definition re_addr :: "string \<Rightarrow> (string \<times> string) option" where
  "re_addr s =
     (case eat ''['' s of
        Some s1 \<Rightarrow> (case span1 (\<lambda>c. is_hex c \<or> c = CHR '':'') s1 of None \<Rightarrow> None
          | Some (a, s2) \<Rightarrow> map_option (\<lambda>s3. (''['' @ a @ '']'', s3)) (eat '']'' s2))
      | None \<Rightarrow> span1 (\<lambda>c. is_digit c \<or> c = CHR ''.'') s)"

text \<open>\<^verbatim>\<open>(.+?)\s*$\<close>: the shortest text, of at least one byte, that white space follows to the end.\<close>

definition re_email :: "string \<Rightarrow> string option" where
  "re_email s =
     (if s = [] then None
      else let core = rev (dropWhile re_space (rev s)) in Some (if core = [] then take 1 s else core))"

definition re_inbound :: "string \<Rightarrow> (string \<times> string) option" where
  "re_inbound s =
     (case eat '' ['' s of None \<Rightarrow> None
      | Some s1 \<Rightarrow> (case span1 (\<lambda>c. c \<noteq> CHR '']'' \<and> c \<noteq> CHR '' '') s1 of None \<Rightarrow> None
         | Some (tag, s2) \<Rightarrow> map_option (Pair tag) (eat ''] email: '' (dropWhile (\<lambda>c. c \<noteq> CHR '']'') s2))))"

text \<open>The expression where the search has reached; then the search, from left to right.\<close>

definition access_at :: "string \<Rightarrow> (string \<times> string \<times> string) option" where
  "access_at s =
     (case eat ''from '' s of None \<Rightarrow> None
      | Some s1 \<Rightarrow> (case re_addr s1 of None \<Rightarrow> None
         | Some (addr, s2) \<Rightarrow> (case eat '':'' s2 of None \<Rightarrow> None
            | Some s3 \<Rightarrow> (case span1 is_digit s3 of None \<Rightarrow> None
               | Some (port, s4) \<Rightarrow> (case eat '' accepted '' s4 of None \<Rightarrow> None
                  | Some s5 \<Rightarrow> (case span1 (\<lambda>c. c \<noteq> CHR '' '') s5 of None \<Rightarrow> None
                     | Some (dest, s6) \<Rightarrow> (case re_inbound s6 of None \<Rightarrow> None
                        | Some (tag, s7) \<Rightarrow> map_option (\<lambda>email. (addr, tag, email)) (re_email s7))))))))"

fun accessRe :: "string \<Rightarrow> (string \<times> string \<times> string) option" where
  "accessRe [] = access_at []"
| "accessRe (c # s) = (case access_at (c # s) of Some m \<Rightarrow> Some m | None \<Rightarrow> accessRe s)"

definition inboundKind :: "string \<Rightarrow> string" where
  "inboundKind tag =
     (if Contains tag ''reality'' then ''reality'' else if Contains tag ''tls'' then ''tls'' else tag)"

definition lineTime :: "(string \<Rightarrow> int option) \<Rightarrow> string \<Rightarrow> int \<Rightarrow> int" where
  "lineTime parse line now =
     (if length line < 19 then now
      else case parse (take 19 line) of None \<Rightarrow> now | Some ts \<Rightarrow> if ts \<le> now then ts else now)"

text \<open>What a line counts for: account, address and kind of inbound.\<close>

definition access_entry :: "string \<Rightarrow> (string \<times> string \<times> string) option" where
  "access_entry line =
     (case accessRe line of None \<Rightarrow> None
      | Some (addr, tag, e) \<Rightarrow>
          let email = TrimSpace e in
          if email = [] \<or> email = ''unknown'' then None else Some (email, Trim addr ''[]'', inboundKind tag))"

subsection \<open>Collecting\<close>

text \<open>
  \<^verbatim>\<open>bufio.Scanner\<close>: the text between newlines, an unfinished last line included, without a trailing
  carriage return; it gives up at a line that does not fit its buffer of a mebibyte.
\<close>

definition raw_lines :: "string \<Rightarrow> string list" where
  "raw_lines s = (let ps = splitc nl s in if last ps = [] then butlast ps else ps)"

definition drop_cr :: "string \<Rightarrow> string" where
  "drop_cr l = (if l \<noteq> [] \<and> last l = CHR 0x0D then butlast l else l)"

definition max_line :: nat where "max_line = 1024 * 1024"

definition scanned :: "string \<Rightarrow> string list" where
  "scanned s = map drop_cr (takeWhile (\<lambda>l. length l < max_line) (raw_lines s))"

type_synonym device_map = "((string \<times> string) \<times> device_item) list"

text \<open>A count of lines cannot overflow: the file's size is an \<^verbatim>\<open>int64\<close>.\<close>

definition add_line :: "access_env \<Rightarrow> string \<Rightarrow> device_map \<Rightarrow> device_map" where
  "add_line v line agg =
     (case access_entry line of None \<Rightarrow> agg
      | Some (email, ip, kind) \<Rightarrow>
          let d = (case map_of agg (email, ip) of
                     None \<Rightarrow> \<lparr>di_email = email, di_ip = ip, di_inbound = kind, di_conns = 0, di_last_seen = 0\<rparr>
                   | Some d \<Rightarrow> d);
              ts = lineTime (ae_time v) line (ae_now v)
          in AList.update (email, ip)
               (d\<lparr>di_conns := di_conns d + 1, di_inbound := kind,
                  di_last_seen := (if ts > di_last_seen d then ts else di_last_seen d)\<rparr>) agg)"

definition read_bytes :: "string list \<Rightarrow> int" where
  "read_bytes ls = sum_list (map (\<lambda>l. int (length l) + 1) ls)"

text \<open>
  \<open>collect\<close> ranges over its map in an order Go does not fix; the model has the order of first
  appearance, and what is shown of the items does not depend on it.
\<close>

definition collectDevices :: "access_env \<Rightarrow> accessWatcher \<Rightarrow> offset_file \<Rightarrow> device_item list \<times> accessWatcher \<times> offset_file" where
  "collectDevices v w f =
     (if aw_path w = [] then ([], w, f)
      else case ae_log v of None \<Rightarrow> ([], w, f)
      | Some (ino, bytes) \<Rightarrow>
          if \<not> aw_seeded w then
            let w' = w\<lparr>aw_offset := int (length bytes), aw_inode := ino, aw_seeded := True\<rparr>
            in ([], w', saveOffset (ae_save v) w' f)
          else
            let w1 = (if ino \<noteq> aw_inode w then w\<lparr>aw_offset := 0, aw_inode := ino\<rparr> else w);
                w2 = (if int (length bytes) < aw_offset w1 then w1\<lparr>aw_offset := 0\<rparr> else w1)
            in if int (length bytes) = aw_offset w2 then ([], w2, f)
               else if \<not> ae_open v \<or> aw_offset w2 < 0 then ([], w2, f)
               else
                 let ls = scanned (drop (nat (aw_offset w2)) (bytes @ ae_more v));
                     agg = fold (add_line v) ls [];
                     w3 = w2\<lparr>aw_offset := aw_offset w2 + read_bytes ls\<rparr>
                 in (map snd agg, w3, saveOffset (ae_save v) w3 f))"

subsection \<open>Complete lines\<close>

definition complete :: "string \<Rightarrow> bool" where
  "complete s \<longleftrightarrow> s = [] \<or> last s = nl"

text \<open>Lines the scanner returns as they are.\<close>

definition plain_lines :: "string \<Rightarrow> bool" where
  "plain_lines s \<longleftrightarrow> list_all (\<lambda>l. length l < max_line \<and> (l = [] \<or> last l \<noteq> CHR 0x0D)) (raw_lines s)"

lemma splitc_join: "splitc c (a @ c # b) = splitc c a @ splitc c b"
proof (induction a)
  case (Cons x a)
  obtain p ps where "splitc c a = p # ps" by (cases "splitc c a") auto
  with Cons show ?case by auto
qed simp

lemma raw_lines_complete: "raw_lines (s @ [nl]) = splitc nl s" "raw_lines [] = []"
  using splitc_join [of nl s "[]"] by (simp_all add: raw_lines_def)

lemma completeE:
  assumes "complete s"
  obtains "s = []" | t where "s = t @ [nl]"
  using assms by (cases s rule: rev_cases) (auto simp: complete_def)

lemma raw_lines_append:
  assumes "complete a"
  shows "raw_lines (a @ b) = raw_lines a @ raw_lines b"
proof (rule completeE [OF assms])
  fix t assume t: "a = t @ [nl]"
  show ?thesis using splitc_join [of nl t b] raw_lines_complete(1) [of t]
    by (simp add: t raw_lines_def [of "t @ nl # b"] raw_lines_def [of b] Let_def butlast_append)
qed (simp add: raw_lines_complete)

lemma complete_append: "complete a \<Longrightarrow> complete b \<Longrightarrow> complete (a @ b)"
  by (cases b rule: rev_cases) (auto simp: complete_def)

lemma plain_append: "complete a \<Longrightarrow> plain_lines (a @ b) \<longleftrightarrow> plain_lines a \<and> plain_lines b"
  by (simp add: plain_lines_def raw_lines_append)

lemma scanned_plain: "plain_lines s \<Longrightarrow> scanned s = raw_lines s"
proof -
  assume p: "plain_lines s"
  then have "takeWhile (\<lambda>l. length l < max_line) (raw_lines s) = raw_lines s"
    by (intro takeWhile_eq_all_conv [THEN iffD2]) (auto simp: plain_lines_def list_all_iff)
  moreover have "map drop_cr (raw_lines s) = raw_lines s"
    using p by (intro map_idI) (auto simp: plain_lines_def list_all_iff drop_cr_def)
  ultimately show ?thesis by (simp only: scanned_def)
qed

lemma read_bytes_splitc: "read_bytes (splitc c s) = int (length s) + 1"
proof (induction s)
  case (Cons x s)
  obtain p ps where "splitc c s = p # ps" by (cases "splitc c s") auto
  with Cons show ?case by (simp add: read_bytes_def)
qed (simp add: read_bytes_def)

lemma read_bytes_complete: "complete s \<Longrightarrow> read_bytes (raw_lines s) = int (length s)"
  by (erule completeE) (simp_all add: raw_lines_complete read_bytes_splitc, simp add: read_bytes_def)

text \<open>An unfinished line is counted with the newline it does not have.\<close>

lemma read_bytes_unfinished: "\<not> complete s \<Longrightarrow> read_bytes (raw_lines s) = int (length s) + 1"
proof -
  assume s: "\<not> complete s"
  then have "s \<noteq> []" by (auto simp: complete_def)
  have "last (splitc nl s) \<noteq> []"
  proof
    assume e: "last (splitc nl s) = []"
    have "s = Join (butlast (splitc nl s) @ [[]]) [nl]"
      using Join_splitc [of nl s] e append_butlast_last_id [of "splitc nl s"] by simp
    moreover have "complete (Join (ps @ [[]]) [nl])" for ps
      by (induction ps rule: induct_list012) (auto simp: complete_def)
    ultimately show False using s by metis
  qed
  then show ?thesis by (simp add: raw_lines_def Let_def read_bytes_splitc)
qed

subsection \<open>Counting\<close>

definition hits :: "string \<times> string \<Rightarrow> string list \<Rightarrow> int" where
  "hits k ls = int (length (filter (\<lambda>l. \<exists>kind. access_entry l = Some (fst k, snd k, kind)) ls))"

definition reported :: "string \<times> string \<Rightarrow> device_item list \<Rightarrow> int" where
  "reported k ds = sum_list (map di_conns (filter (\<lambda>d. (di_email d, di_ip d) = k) ds))"

lemma reported_append: "reported k (a @ b) = reported k a + reported k b"
  by (simp add: reported_def)

lemma hits_append: "hits k (a @ b) = hits k a + hits k b"
  by (simp add: hits_def)

definition own_keys :: "device_map \<Rightarrow> bool" where
  "own_keys agg \<longleftrightarrow> keys_distinct agg \<and> list_all (\<lambda>(k, d). (di_email d, di_ip d) = k) agg"

lemma own_keysD: "own_keys agg \<Longrightarrow> map_of agg k = Some d \<Longrightarrow> (di_email d, di_ip d) = k"
  by (auto simp: own_keys_def list_all_iff dest!: map_of_SomeD)

lemma own_keys_update: "own_keys agg \<Longrightarrow> (di_email d, di_ip d) = k \<Longrightarrow> own_keys (AList.update k d agg)"
  using set_alist_update [of k d agg] by (auto simp: own_keys_def keys_distinct_update list_all_iff)

definition conns_of :: "string \<times> string \<Rightarrow> device_map \<Rightarrow> int" where
  "conns_of k agg = (case map_of agg k of None \<Rightarrow> 0 | Some d \<Rightarrow> di_conns d)"

lemma reported_conns:
  "own_keys agg \<Longrightarrow> reported k (map snd agg) = conns_of k agg"
proof (induction agg)
  case Nil
  then show ?case by (simp add: reported_def conns_of_def)
next
  case (Cons p agg)
  obtain j d where p: "p = (j, d)" by (cases p) auto
  with Cons.prems have o: "own_keys agg" "(di_email d, di_ip d) = j" "map_of agg j = None"
    by (auto simp: own_keys_def map_of_eq_None_iff)
  with Cons.IH show ?case by (auto simp: p reported_def conns_of_def)
qed

lemma add_line_counts:
  assumes "own_keys agg"
  shows "own_keys (add_line v l agg) \<and> conns_of k (add_line v l agg) = conns_of k agg + hits k [l]"
proof (cases "access_entry l")
  case None
  with assms show ?thesis by (simp add: add_line_def hits_def)
next
  case (Some x)
  obtain e ip kind where x: "x = (e, ip, kind)" by (cases x) auto
  define d where "d = (case map_of agg (e, ip) of
     None \<Rightarrow> \<lparr>di_email = e, di_ip = ip, di_inbound = kind, di_conns = 0, di_last_seen = 0\<rparr> | Some d \<Rightarrow> d)"
  have d: "(di_email d, di_ip d) = (e, ip)"
    using own_keysD [OF assms, of "(e, ip)"] by (auto simp: d_def split: option.split)
  have c: "di_conns d = conns_of (e, ip) agg" by (simp add: d_def conns_of_def split: option.split)
  define d' where "d' = d\<lparr>di_conns := di_conns d + 1, di_inbound := kind,
     di_last_seen := (if lineTime (ae_time v) l (ae_now v) > di_last_seen d then lineTime (ae_time v) l (ae_now v) else di_last_seen d)\<rparr>"
  have a: "add_line v l agg = AList.update (e, ip) d' agg" by (simp add: add_line_def Some x d_def d'_def Let_def)
  have "own_keys (AList.update (e, ip) d' agg)" using d by (intro own_keys_update assms) (simp add: d'_def)
  moreover have "conns_of k (AList.update (e, ip) d' agg) = conns_of k agg + (if k = (e, ip) then 1 else 0)"
    using c by (simp add: conns_of_def d'_def)
  moreover have "hits k [l] = (if k = (e, ip) then 1 else 0)" using Some x by (cases k) (simp add: hits_def)
  ultimately show ?thesis by (simp add: a)
qed

lemma fold_lines_count:
  "own_keys agg \<Longrightarrow> own_keys (fold (add_line v) ls agg) \<and> conns_of k (fold (add_line v) ls agg) = conns_of k agg + hits k ls"
proof (induction ls arbitrary: agg)
  case (Cons l ls)
  have h: "hits k (l # ls) = hits k [l] + hits k ls" using hits_append [of k "[l]" ls] by simp
  from add_line_counts [OF Cons.prems, of v l] Cons.IH [of "add_line v l agg"] show ?case by (simp add: h)
qed (simp add: hits_def)

lemma aggregate_counts: "reported k (map snd (fold (add_line v) ls [])) = hits k ls"
  using fold_lines_count [of "[]" v ls k] reported_conns [of "fold (add_line v) ls []" k]
  by (simp add: own_keys_def conns_of_def)

subsection \<open>Runs\<close>

text \<open>
  A log that Xray appends complete lines to, the watcher, the offset file and everything reported
  so far. Xray writes between collections and during one; a collection may fail at the log; the
  agent may be started again at any time, from the offset file.
\<close>

record access_run =
  ar_log :: string
  ar_watch :: accessWatcher
  ar_file :: offset_file
  ar_sent :: "device_item list"

definition collect_run :: "access_env \<Rightarrow> access_run \<Rightarrow> access_run" where
  "collect_run v s = (case collectDevices v (ar_watch s) (ar_file s) of (items, w, f) \<Rightarrow>
     s\<lparr>ar_log := ar_log s @ ae_more v, ar_watch := w, ar_file := f, ar_sent := ar_sent s @ items\<rparr>)"

definition sees :: "int \<Rightarrow> string \<Rightarrow> access_env \<Rightarrow> bool" where
  "sees ino bytes v \<longleftrightarrow> ae_save v \<and> complete (ae_more v) \<and> plain_lines (ae_more v) \<and>
     (case ae_log v of None \<Rightarrow> True | Some l \<Rightarrow> l = (ino, bytes))"

inductive access_step :: "int \<Rightarrow> access_run \<Rightarrow> access_run \<Rightarrow> bool" for ino where
  log_lines: "complete a \<Longrightarrow> plain_lines a \<Longrightarrow> access_step ino s (s\<lparr>ar_log := ar_log s @ a\<rparr>)"
| collect_lines: "sees ino (ar_log s) v \<Longrightarrow> access_step ino s (collect_run v s)"
| restart_agent: "access_step ino s (s\<lparr>ar_watch := newAccessWatcher (aw_path (ar_watch s)) (aw_state (ar_watch s)) (ar_file s)\<rparr>)"

text \<open>A position: watching that file, from the end of a complete line, as saved.\<close>

definition watching :: "int \<Rightarrow> nat \<Rightarrow> access_run \<Rightarrow> bool" where
  "watching ino n s \<longleftrightarrow> aw_path (ar_watch s) \<noteq> [] \<and> aw_state (ar_watch s) \<noteq> [] \<and> aw_seeded (ar_watch s) \<and>
     aw_offset (ar_watch s) = int n \<and> aw_inode (ar_watch s) = ino \<and> ar_file s = Some (int n, ino) \<and>
     n \<le> length (ar_log s) \<and> complete (take n (ar_log s)) \<and> complete (ar_log s) \<and> plain_lines (drop n (ar_log s))"

lemma complete_drop: "complete s \<Longrightarrow> complete (drop n s)"
  by (cases "n < length s") (auto simp: complete_def last_drop)

lemma watching_append:
  assumes "watching ino n s" "complete a" "plain_lines a"
  shows "watching ino n (s\<lparr>ar_log := ar_log s @ a\<rparr>)"
  using assms complete_drop [of "ar_log s" n] by (auto simp: watching_def complete_append plain_append)

lemma watching_restart:
  "watching ino n s \<Longrightarrow> s\<lparr>ar_watch := newAccessWatcher (aw_path (ar_watch s)) (aw_state (ar_watch s)) (ar_file s)\<rparr> = s"
  by (auto simp: watching_def newAccessWatcher_def)

text \<open>What a call does from a position: nothing at a failure or when there is nothing new, else it reads to the end.\<close>

lemma collect_skips:
  "aw_path w \<noteq> [] \<Longrightarrow> aw_seeded w \<Longrightarrow> aw_offset w = int n \<Longrightarrow> n \<le> length bytes \<Longrightarrow>
   ae_log v = None \<or> ae_log v = Some (aw_inode w, bytes) \<and> (n = length bytes \<or> \<not> ae_open v) \<Longrightarrow>
   collectDevices v w f = ([], w, f)"
  by (auto simp: collectDevices_def)

lemma collect_reads:
  assumes "aw_path w \<noteq> []" "aw_seeded w" "aw_offset w = int n" "n < length bytes"
    and "ae_log v = Some (aw_inode w, bytes)" "ae_open v"
  shows "collectDevices v w f =
     (let ls = scanned (drop n (bytes @ ae_more v)); w' = w\<lparr>aw_offset := int n + read_bytes ls\<rparr> in
      (map snd (fold (add_line v) ls []), w', saveOffset (ae_save v) w' f))"
  using assms by (simp add: collectDevices_def Let_def)

lemma watching_collect:
  assumes w: "watching ino n s" and v: "sees ino (ar_log s) v"
  obtains "watching ino n (collect_run v s)" "ar_sent (collect_run v s) = ar_sent s" "ar_log (collect_run v s) = ar_log s @ ae_more v"
  | "watching ino (length (ar_log (collect_run v s))) (collect_run v s)" "ar_log (collect_run v s) = ar_log s @ ae_more v"
    "\<And>k. reported k (ar_sent (collect_run v s)) = reported k (ar_sent s) + hits k (raw_lines (drop n (ar_log s @ ae_more v)))"
proof (cases "ae_log v = None \<or> n = length (ar_log s) \<or> \<not> ae_open v")
  case True
  then have "collectDevices v (ar_watch s) (ar_file s) = ([], ar_watch s, ar_file s)"
    by (intro collect_skips [of _ n "ar_log s"]) (use w v in \<open>auto simp: watching_def sees_def split: option.splits\<close>)
  moreover have "watching ino n (s\<lparr>ar_log := ar_log s @ ae_more v\<rparr>)"
    using watching_append [OF w] v by (simp add: sees_def)
  ultimately show thesis by (intro that(1)) (simp_all add: collect_run_def)
next
  case False
  let ?r = "drop n (ar_log s @ ae_more v)" and ?w = "(ar_watch s)\<lparr>aw_offset := int (length (ar_log s @ ae_more v))\<rparr>"
  have n: "n \<le> length (ar_log s)" and r: "?r = drop n (ar_log s) @ ae_more v"
    using w by (simp_all add: watching_def)
  have c: "complete ?r" "plain_lines ?r" "complete (ar_log s @ ae_more v)"
    unfolding r using w v complete_drop [of "ar_log s" n] by (auto simp: watching_def sees_def complete_append plain_append)
  have "int n + read_bytes (raw_lines ?r) = int (length (ar_log s @ ae_more v))"
    unfolding read_bytes_complete [OF c(1)] using n by simp
  then have d: "collectDevices v (ar_watch s) (ar_file s) =
      (map snd (fold (add_line v) (raw_lines ?r) []), ?w, Some (int (length (ar_log s @ ae_more v)), ino))"
    by (subst collect_reads [where n = n and bytes = "ar_log s"])
       (use w v False c in \<open>auto simp: watching_def sees_def Let_def saveOffset_def scanned_plain simp del: drop_append split: option.splits\<close>)
  have cr: "collect_run v s = s\<lparr>ar_log := ar_log s @ ae_more v, ar_watch := ?w, ar_file := Some (int (length (ar_log s @ ae_more v)), ino),
      ar_sent := ar_sent s @ map snd (fold (add_line v) (raw_lines ?r) [])\<rparr>"
    unfolding collect_run_def d prod.case ..
  have "watching ino (length (ar_log (collect_run v s))) (collect_run v s)"
    using w c(3) by (simp add: cr watching_def plain_lines_def raw_lines_complete)
  moreover have "reported k (ar_sent (collect_run v s)) = reported k (ar_sent s) + hits k (raw_lines ?r)" for k
    by (simp add: cr reported_append aggregate_counts del: drop_append)
  ultimately show thesis by (intro that(2)) (simp_all add: cr)
qed

definition accounted :: "int \<Rightarrow> string \<times> string \<Rightarrow> nat \<Rightarrow> access_run \<Rightarrow> bool" where
  "accounted ino k n0 s \<longleftrightarrow> (\<exists>n. watching ino n s \<and> n0 \<le> n \<and> complete (take n0 (ar_log s)) \<and>
     reported k (ar_sent s) + hits k (raw_lines (drop n (ar_log s))) = hits k (raw_lines (drop n0 (ar_log s))))"

lemma take_more: "n \<le> length s \<Longrightarrow> take n (s @ a) = take n s" "n \<le> length s \<Longrightarrow> drop n (s @ a) = drop n s @ a"
  by simp_all

lemma unread_more:
  assumes "complete s" "complete a" "n \<le> length s"
  shows "hits k (raw_lines (drop n (s @ a))) = hits k (raw_lines (drop n s)) + hits k (raw_lines a)"
  unfolding take_more(2) [OF assms(3)] raw_lines_append [OF complete_drop [OF assms(1)]] hits_append ..

lemma accounted_step:
  assumes "access_step ino s t" "accounted ino k n0 s"
  shows "accounted ino k n0 t"
proof -
  from assms(2) obtain n where n: "watching ino n s" "n0 \<le> n" "complete (take n0 (ar_log s))"
    "reported k (ar_sent s) + hits k (raw_lines (drop n (ar_log s))) = hits k (raw_lines (drop n0 (ar_log s)))"
    by (auto simp: accounted_def)
  have b: "n \<le> length (ar_log s)" "n0 \<le> length (ar_log s)" "complete (ar_log s)" using n by (auto simp: watching_def)
  from assms(1) show ?thesis
  proof cases
    case (log_lines a)
    with watching_append [OF n(1) log_lines(2,3)] n b unread_more [OF b(3) log_lines(2) b(1), of k] unread_more [OF b(3) log_lines(2) b(2), of k]
    show ?thesis by (auto simp: accounted_def take_more(1) intro!: exI [of _ n])
  next
    case (collect_lines v)
    then have more: "complete (ae_more v)" by (simp add: sees_def)
    note u = unread_more [OF b(3) more b(1), of k] unread_more [OF b(3) more b(2), of k]
    from n(1) collect_lines(2) show ?thesis
    proof (cases rule: watching_collect)
      case 1
      with n b u collect_lines(1) show ?thesis by (auto simp: accounted_def take_more(1) intro!: exI [of _ n])
    next
      case 2
      have "n0 \<le> length (ar_log (collect_run v s))" using 2(2) b(2) by simp
      with 2 n b u collect_lines(1) show ?thesis
        by (auto simp: accounted_def take_more(1) raw_lines_complete hits_def intro!: exI [of _ "length (ar_log (collect_run v s))"])
    qed
  next
    case restart_agent
    with watching_restart [OF n(1)] assms(2) show ?thesis by simp
  qed
qed

lemma accounted_run: "(access_step ino)\<^sup>*\<^sup>* s t \<Longrightarrow> accounted ino k n0 s \<Longrightarrow> accounted ino k n0 t"
  by (induction rule: rtranclp_induct) (auto intro: accounted_step)


subsection \<open>A log with an unfinished line\<close>

text \<open>
  C39. A line still being written makes the watcher read the whole log again. When a collection meets a
  last line without its newline, it saves a position one byte past the end of the file; if nothing
  is written until the next one, that position looks like a file cut short, and everything in the
  log since its first byte is reported as connections just seen.
\<close>
theorem unfinished_line_repeats:
  assumes "aw_path w \<noteq> []" "aw_seeded w" "aw_offset w = int n" "n < length bytes" "plain_lines bytes"
    and "plain_lines (drop n bytes)" "\<not> complete bytes"
    and "ae_log v = Some (aw_inode w, bytes)" "ae_open v" "ae_more v = []"
    and "ae_log v' = Some (aw_inode w, bytes)" "ae_open v'" "ae_more v' = []"
    and "collectDevices v w f = (items, w', f')"
  shows "reported k (fst (collectDevices v' w' f')) = hits k (raw_lines bytes)"
proof -
  have u: "\<not> complete (drop n bytes)" using assms(4,7) by (auto simp: complete_def last_drop)
  have "w' = w\<lparr>aw_offset := int n + read_bytes (raw_lines (drop n bytes))\<rparr>"
    using assms(14) collect_reads [OF assms(1-4,8,9), of f] by (simp add: assms(10) Let_def scanned_plain [OF assms(6)])
  then have w': "w' = w\<lparr>aw_offset := int (length bytes) + 1\<rparr>"
    using assms(4) by (simp add: read_bytes_unfinished [OF u])
  have "bytes \<noteq> []" using assms(4) by auto
  then show ?thesis
    using assms(1,2,11-13) by (simp add: w' collectDevices_def Let_def scanned_plain [OF assms(5)] aggregate_counts)
qed

subsection \<open>The line Xray writes\<close>

definition access_line :: "string \<Rightarrow> string \<Rightarrow> string \<Rightarrow> string \<Rightarrow> string \<Rightarrow> string \<Rightarrow> string \<Rightarrow> string" where
  "access_line ts addr port dest tag out email =
     ts @ '' from '' @ addr @ '':'' @ port @ '' accepted '' @ dest @ '' ['' @ tag @ '' -> '' @ out @ ''] email: '' @ email"

text \<open>Source addresses as the log has them: IPv4 in dots, or IPv6 in brackets.\<close>

definition source_addr :: "string \<Rightarrow> string \<Rightarrow> bool" where
  "source_addr addr ip \<longleftrightarrow> ip \<noteq> [] \<and>
     (addr = ip \<and> list_all (\<lambda>c. is_digit c \<or> c = CHR ''.'') ip \<or>
      addr = ''['' @ ip @ '']'' \<and> list_all (\<lambda>c. is_hex c \<or> c = CHR '':'') ip)"

lemma re_addr_here:
  "source_addr addr ip \<Longrightarrow> re_addr (addr @ CHR '':'' # s) = Some (addr, CHR '':'' # s)"
proof -
  assume a: "source_addr addr ip"
  have n: "\<not> (is_digit (CHR '':'') \<or> CHR '':'' = CHR ''.'')" "\<not> (is_hex (CHR '']'') \<or> CHR '']'' = CHR '':'')"
    by (simp_all add: is_digit_def is_hex_def char_in_def)
  from a consider "addr = ip" "ip \<noteq> []" "list_all (\<lambda>c. is_digit c \<or> c = CHR ''.'') ip"
    | "addr = ''['' @ ip @ '']''" "ip \<noteq> []" "list_all (\<lambda>c. is_hex c \<or> c = CHR '':'') ip"
    by (auto simp: source_addr_def)
  then show ?thesis
  proof cases
    case 1
    have b: "\<not> is_digit (CHR ''['')" by (simp add: is_digit_def)
    from 1 obtain c t where c: "ip = c # t" "c \<noteq> CHR ''[''" using b by (cases ip) auto
    with 1 n span1_here [of ip "\<lambda>c. is_digit c \<or> c = CHR ''.''" "CHR '':''" s] show ?thesis
      by (simp add: re_addr_def)
  next
    case 2
    with n span1_here [of ip "\<lambda>c. is_hex c \<or> c = CHR '':''" "CHR '']''" "CHR '':'' # s"] show ?thesis
      by (simp add: re_addr_def)
  qed
qed

lemma Trim_addr: "source_addr addr ip \<Longrightarrow> Trim addr ''[]'' = ip"
proof -
  assume a: "source_addr addr ip"
  let ?P = "\<lambda>c. c = CHR ''['' \<or> c = CHR '']''"
  have no: "list_all (\<lambda>c. \<not> ?P c) ip"
    using a by (auto simp: source_addr_def list_all_iff is_digit_def is_hex_def char_in_def)
  have d: "dropWhile ?P (x @ s) = x @ s" if "x \<noteq> []" "list_all (\<lambda>c. \<not> ?P c) x" for x s
    using that by (cases x) auto
  have "ip \<noteq> []" "rev ip \<noteq> []" "list_all (\<lambda>c. \<not> ?P c) (rev ip)" using a no by (auto simp: source_addr_def list_all_iff)
  note x = d [OF this(1) no] d [OF this(2,3)]
  from x [of "[]"] x [of "'']''"] a show ?thesis
    by (auto simp: Trim_def trim_by_def source_addr_def)
qed

lemma re_inbound_here:
  assumes "tag \<noteq> []" "list_all (\<lambda>c. c \<noteq> CHR '']'' \<and> c \<noteq> CHR '' '') tag" "CHR '']'' \<notin> set out"
  shows "re_inbound ('' ['' @ tag @ '' -> '' @ out @ ''] email: '' @ s) = Some (tag, s)"
proof -
  have "dropWhile (\<lambda>c. c \<noteq> CHR '']'') out = []" using assms(3) by (auto simp: dropWhile_eq_Nil_conv)
  then show ?thesis
    using span1_here [OF assms(1,2), of "CHR '' ''" "''-> '' @ out @ ''] email: '' @ s"]
      dropWhile_append3 [of "\<lambda>c. c \<noteq> CHR '']''" "CHR '']''" out]
    by (simp add: re_inbound_def)
qed

lemma re_email_here: "s \<noteq> [] \<Longrightarrow> list_all (\<lambda>c. \<not> is_space c) s \<Longrightarrow> re_email s = Some s"
  by (cases s rule: rev_cases) (simp_all add: re_email_def re_space_def)

lemma accessRe_skip: "CHR ''f'' \<notin> set p \<Longrightarrow> accessRe (p @ s) = accessRe s"
proof (induction p)
  case (Cons c p)
  then have "access_at (c # p @ s) = None" by (auto simp: access_at_def)
  with Cons show ?case by simp
qed simp

lemma access_at_line:
  assumes "source_addr addr ip" "port \<noteq> []" "list_all is_digit port" "dest \<noteq> []" "CHR '' '' \<notin> set dest"
    and "tag \<noteq> []" "list_all (\<lambda>c. c \<noteq> CHR '']'' \<and> c \<noteq> CHR '' '') tag" "CHR '']'' \<notin> set out"
    and "email \<noteq> []" "list_all (\<lambda>c. \<not> is_space c) email"
  shows "access_at (''from '' @ addr @ '':'' @ port @ '' accepted '' @ dest @ '' ['' @ tag @ '' -> '' @ out @ ''] email: '' @ email)
     = Some (addr, tag, email)"
proof -
  have d: "list_all (\<lambda>c. c \<noteq> CHR '' '') dest" using assms(5) by (auto simp: list_all_iff)
  have nd: "\<not> is_digit (CHR '' '')" by (simp add: is_digit_def)
  show ?thesis
    using re_addr_here [OF assms(1)] span1_here [OF assms(2,3) nd] span1_here [OF assms(4) d, of "CHR '' ''"]
      re_inbound_here [OF assms(6-8), of email] re_email_here [OF assms(9,10)]
    by (simp add: access_at_def)
qed

lemma access_entry_line:
  assumes "validateUsername email = None" "email \<noteq> ''unknown''" "source_addr addr ip" "CHR ''f'' \<notin> set ts"
    and "port \<noteq> []" "list_all is_digit port" "dest \<noteq> []" "CHR '' '' \<notin> set dest"
    and "tag \<noteq> []" "list_all (\<lambda>c. c \<noteq> CHR '']'' \<and> c \<noteq> CHR '' '') tag" "CHR '']'' \<notin> set out"
  shows "access_entry (access_line ts addr port dest tag out email) = Some (email, ip, inboundKind tag)"
proof -
  have e: "email \<noteq> []" "list_all (\<lambda>c. \<not> is_space c) email"
    using assms(1) by (auto simp: validateUsername_def reUsername_def list_all_iff is_alnum_def char_in_def is_space_def split: if_splits)
  let ?m = "''from '' @ addr @ '':'' @ port @ '' accepted '' @ dest @ '' ['' @ tag @ '' -> '' @ out @ ''] email: '' @ email"
  have "access_line ts addr port dest tag out email = (ts @ '' '') @ ?m" by (simp add: access_line_def)
  then have "accessRe (access_line ts addr port dest tag out email) = accessRe ?m"
    using accessRe_skip [of "ts @ '' ''" ?m] assms(4) by simp
  also have "\<dots> = Some (addr, tag, email)"
    using access_at_line [OF assms(3,5-11) e] by (simp split: option.split)
  finally show ?thesis
    using assms(2) e by (simp add: access_entry_def TrimSpace_id Trim_addr [OF assms(3)])
qed

text \<open>
  C38. A line of Xray's access log is read as it was written: for an account name the panel accepts, other
  than "unknown", a source address and port, a destination without spaces and an inbound tag, the
  watcher finds that account, that address and the kind of that inbound.
\<close>
theorem access_line_read:
  assumes "validateUsername email = None" "email \<noteq> ''unknown''" "source_addr addr ip" "CHR ''f'' \<notin> set ts"
    and "port \<noteq> []" "list_all is_digit port" "dest \<noteq> []" "CHR '' '' \<notin> set dest"
    and "tag \<noteq> []" "list_all (\<lambda>c. c \<noteq> CHR '']'' \<and> c \<noteq> CHR '' '') tag" "CHR '']'' \<notin> set out"
  shows "access_entry (access_line ts addr port dest tag out email) = Some (email, ip, inboundKind tag)"
  by (rule access_entry_line) (fact assms)+

definition sample_line :: "string \<Rightarrow> string" where
  "sample_line who = access_line ''09:00'' ''1.2.3.4'' ''5678'' ''tcp:a.com:443'' ''vless-reality-vision'' ''direct'' who"

lemma bob_line: "access_entry (sample_line ''bob'') = Some (''bob'', ''1.2.3.4'', ''reality'')" "nl \<notin> set (sample_line ''bob'')"
proof -
  have v: "validateUsername ''bob'' = None" by code_simp
  have "access_entry (sample_line ''bob'') = Some (''bob'', ''1.2.3.4'', inboundKind ''vless-reality-vision'')"
    unfolding sample_line_def by (rule access_entry_line [OF v]) (simp_all add: source_addr_def is_digit_def)
  then show "access_entry (sample_line ''bob'') = Some (''bob'', ''1.2.3.4'', ''reality'')" by (simp add: inboundKind_def HasPrefix_def)
qed (simp add: sample_line_def access_line_def nl_def)

theorem access_line_read_witness: "access_entry (sample_line ''bob'') = Some (''bob'', ''1.2.3.4'', inboundKind ''vless-reality-vision'')"
proof -
  have v: "validateUsername ''bob'' = None" by code_simp
  show ?thesis unfolding sample_line_def by (rule access_line_read [OF v]) (simp_all add: source_addr_def is_digit_def)
qed

subsection \<open>A small log\<close>

definition sample_log :: string where
  "sample_log = sample_line ''bob'' @ [nl]"

definition sample_watcher :: "nat \<Rightarrow> accessWatcher" where
  "sample_watcher n = \<lparr>aw_path = ''log'', aw_state = ''pos'', aw_offset = int n, aw_inode = 7, aw_seeded = True\<rparr>"

definition sample_access :: "string \<Rightarrow> access_env" where
  "sample_access bytes = \<lparr>ae_now = 100, ae_log = Some (7, bytes), ae_more = [], ae_open = True, ae_save = True, ae_time = (\<lambda>s. None)\<rparr>"

definition sample_watch0 :: access_run where
  "sample_watch0 = \<lparr>ar_log = [], ar_watch = sample_watcher 0, ar_file = Some (0, 7), ar_sent = []\<rparr>"

lemma sample_log_lines:
  "raw_lines sample_log = [sample_line ''bob'']" "complete sample_log" "plain_lines sample_log"
  "raw_lines (sample_line ''bob'') = [sample_line ''bob'']" "\<not> complete (sample_line ''bob'')" "plain_lines (sample_line ''bob'')"
proof -
  have s: "splitc nl (sample_line ''bob'') = [sample_line ''bob'']" by (rule splitc_none) (rule bob_line(2))
  have l: "sample_line ''bob'' \<noteq> []" "length (sample_line ''bob'') < max_line" "last (sample_line ''bob'') \<notin> {nl, CHR 0x0D}"
    by (simp_all add: sample_line_def access_line_def max_line_def nl_def)
  show r: "raw_lines sample_log = [sample_line ''bob'']" "raw_lines (sample_line ''bob'') = [sample_line ''bob'']"
    using s l by (simp_all add: sample_log_def raw_lines_complete) (simp add: raw_lines_def)
  show "complete sample_log" "\<not> complete (sample_line ''bob'')" using l by (simp_all add: sample_log_def complete_def)
  show "plain_lines sample_log" "plain_lines (sample_line ''bob'')" using l by (simp_all add: plain_lines_def r)
qed

lemma bob_hit: "hits (''bob'', ''1.2.3.4'') [sample_line ''bob''] = 1"
  by (simp add: hits_def bob_line)

definition sample_end :: access_run where
  "sample_end = collect_run (sample_access sample_log) (sample_watch0\<lparr>ar_log := sample_log\<rparr>)"

lemma sample_end_log: "ar_log sample_end = sample_log"
  by (simp add: sample_end_def collect_run_def sample_access_def split: prod.split)

lemma sample_end_reached: "(access_step 7)\<^sup>*\<^sup>* sample_watch0 sample_end"
proof -
  have "access_step 7 sample_watch0 (sample_watch0\<lparr>ar_log := sample_log\<rparr>)"
    using log_lines [OF sample_log_lines(2,3), of 7 sample_watch0] by (simp add: sample_watch0_def)
  moreover have "access_step 7 (sample_watch0\<lparr>ar_log := sample_log\<rparr>) sample_end"
    unfolding sample_end_def
    by (rule collect_lines) (simp add: sees_def sample_access_def complete_def plain_lines_def raw_lines_complete)
  ultimately show ?thesis by (meson converse_rtranclp_into_rtranclp rtranclp.rtrancl_refl)
qed


theorem unfinished_line_repeats_witness:
  "\<exists>items w' f'. collectDevices (sample_access (sample_line ''bob'')) (sample_watcher 0) (Some (0, 7)) = (items, w', f') \<and>
     reported (''bob'', ''1.2.3.4'') (fst (collectDevices (sample_access (sample_line ''bob'')) w' f')) = 1"
proof -
  obtain items w' f' where c: "collectDevices (sample_access (sample_line ''bob'')) (sample_watcher 0) (Some (0, 7)) = (items, w', f')"
    by (cases "collectDevices (sample_access (sample_line ''bob'')) (sample_watcher 0) (Some (0, 7))") auto
  have "sample_line ''bob'' \<noteq> []" by (simp add: sample_line_def access_line_def)
  then have "reported (''bob'', ''1.2.3.4'') (fst (collectDevices (sample_access (sample_line ''bob'')) w' f')) =
      hits (''bob'', ''1.2.3.4'') (raw_lines (sample_line ''bob''))"
    by (intro unfinished_line_repeats [OF _ _ _ _ _ _ _ _ _ _ _ _ _ c, where n = 0])
       (simp_all add: sample_log_lines sample_watcher_def sample_access_def)
  with c show ?thesis unfolding sample_log_lines bob_hit by blast
qed

end
