(* ===== verification/Float64.thy ===== *)
theory Float64
  imports Complex_Main "HOL-Library.Log_Nat"
begin

section \<open>Binary64 arithmetic on non-negative numbers\<close>

text \<open>
  A \<^verbatim>\<open>float64\<close> operation of Go is the exact operation followed by rounding to 53 significant bits, to
  the nearest and to the even one of two nearest. The numbers the agent computes with are counters
  and their ratios, between \<open>2 ^ -64\<close> and \<open>2 ^ 71\<close>, so that neither a subnormal number nor an
  overflow occurs, and the exponent is not bounded here.
\<close>

definition half_even :: "rat \<Rightarrow> int" where
  "half_even x =
     (let n = \<lfloor>x\<rfloor>; d = x - of_int n in
      if d < 1 / 2 then n else if 1 / 2 < d then n + 1 else if even n then n else n + 1)"

definition magnitude :: "rat \<Rightarrow> int" where
  "magnitude x = (if 1 \<le> x then bitlen \<lfloor>x\<rfloor> else 1 - bitlen (\<lceil>1 / x\<rceil> - 1))"

definition f64 :: "rat \<Rightarrow> rat" where
  "f64 x = (if x \<le> 0 then 0
            else of_int (half_even (x * 2 powi (53 - magnitude x))) * 2 powi (magnitude x - 53))"

lemma half_even_cases: "half_even x = \<lfloor>x\<rfloor> \<or> half_even x = \<lfloor>x\<rfloor> + 1 \<and> of_int \<lfloor>x\<rfloor> < x"
  by (auto simp: half_even_def Let_def)

lemma half_even_le: "x \<le> of_int n \<Longrightarrow> half_even x \<le> n"
  using half_even_cases [of x] by linarith

lemma half_even_ge: "of_int n \<le> x \<Longrightarrow> n \<le> half_even x"
  using half_even_cases [of x] by linarith

lemma half_even_int [simp]: "half_even (of_int n) = n"
  by (simp add: half_even_def)

lemma half_even_mono:
  assumes "x \<le> y"
  shows "half_even x \<le> half_even y"
proof (cases "\<lfloor>x\<rfloor> = \<lfloor>y\<rfloor>")
  case True
  with assms show ?thesis by (auto simp: half_even_def Let_def)
next
  case False
  with assms have "\<lfloor>x\<rfloor> + 1 \<le> \<lfloor>y\<rfloor>" by linarith
  with half_even_cases [of x] half_even_cases [of y] show ?thesis by linarith
qed

lemma powi_nat: "2 powi int k = (2 ^ k :: rat)"
  by simp

lemma powi_lessD: "2 powi a < (2 powi b :: rat) \<Longrightarrow> a < b"
  using power_int_increasing [of b a "2 :: rat"] by (cases "a < b") auto

lemma magnitude_bounds:
  assumes "0 < x"
  shows "2 powi (magnitude x - 1) \<le> x \<and> x < 2 powi magnitude x"
proof (cases "1 \<le> x")
  case True
  then have p: "0 < \<lfloor>x\<rfloor>" by linarith
  define k where "k = nat (bitlen \<lfloor>x\<rfloor> - 1)"
  have "0 < bitlen \<lfloor>x\<rfloor>" using p bitlen_nonneg [of "\<lfloor>x\<rfloor>"] bitlen_eq_zero_iff [of "\<lfloor>x\<rfloor>"] by linarith
  then have k: "magnitude x = int k + 1" "nat (bitlen \<lfloor>x\<rfloor>) = Suc k" using True by (auto simp: magnitude_def k_def)
  have b: "2 ^ k \<le> \<lfloor>x\<rfloor>" "\<lfloor>x\<rfloor> < 2 ^ Suc k"
    using bitlen_bounds [OF p] k(2) by (simp_all add: k_def)
  have "2 ^ k \<le> x" using b(1) by (simp add: le_floor_iff)
  moreover have "x < 2 ^ Suc k" using b(2) by (simp only: floor_less_iff) simp
  moreover have "2 powi magnitude x = (2 ^ Suc k :: rat)" unfolding k(1) using powi_nat [of "Suc k"] by (simp add: algebra_simps)
  ultimately show ?thesis by (simp add: k(1))
next
  case False
  define c where "c = \<lceil>1 / x\<rceil> - 1"
  have "1 < 1 / x" using False assms by simp
  then have p: "0 < c" by (simp add: c_def less_ceiling_iff)
  define k where "k = nat (bitlen c - 1)"
  have "0 < bitlen c" using p bitlen_nonneg [of c] bitlen_eq_zero_iff [of c] by linarith
  then have k: "magnitude x = - int k" "nat (bitlen c) = Suc k"
    using False by (auto simp: magnitude_def k_def c_def)
  have b: "2 ^ k \<le> c" "c < 2 ^ Suc k" using bitlen_bounds [OF p] k(2) by (simp_all add: k_def)
  have "\<lceil>1 / x\<rceil> \<le> 2 ^ Suc k" using b(2) by (simp add: c_def)
  then have "1 / x \<le> 2 ^ Suc k" by (simp only: ceiling_le_iff) simp
  then have "1 / 2 ^ Suc k \<le> x" using assms by (simp add: field_simps)
  moreover have "2 ^ k < \<lceil>1 / x\<rceil>" using b(1) by (simp add: c_def)
  then have "2 ^ k < 1 / x" by (simp only: less_ceiling_iff) simp
  then have "x < 1 / 2 ^ k" using assms by (simp add: field_simps)
  moreover have "2 powi (magnitude x - 1) = (1 / 2 ^ Suc k :: rat)"
  proof -
    have "magnitude x - 1 = - int (Suc k)" unfolding k(1) by simp
    then show ?thesis using power_int_minus_divide [of "2 :: rat" "int (Suc k)"] by (simp only: powi_nat)
  qed
  moreover have "2 powi magnitude x = (1 / 2 ^ k :: rat)"
    using power_int_minus_divide [of "2 :: rat" "int k"] unfolding k(1) powi_nat by simp
  ultimately show ?thesis by simp
qed

lemma scale_back: "x * 2 powi (53 - m) * 2 powi (m - 53) = (x :: rat)"
  by (simp add: power_int_diff)

lemma f64_nonneg: "0 \<le> f64 x"
proof (cases "x \<le> 0")
  case False
  then have "0 \<le> half_even (x * 2 powi (53 - magnitude x))" by (intro half_even_ge) simp
  with False show ?thesis by (simp add: f64_def)
qed (simp add: f64_def)

text \<open>The binade of a number bounds what it is rounded to.\<close>

lemma f64_binade:
  assumes "0 < x"
  shows "f64 x \<le> 2 powi magnitude x" "2 powi (magnitude x - 1) \<le> f64 x"
proof -
  let ?m = "magnitude x" and ?s = "2 powi (53 - magnitude x) :: rat"
  have s: "0 < ?s" "2 powi ?m * ?s = (2 ^ 53 :: rat)" "2 powi (?m - 1) * ?s = (2 ^ 52 :: rat)"
    by (simp_all add: power_int_diff)
  have b: "2 powi (?m - 1) * ?s \<le> x * ?s" "x * ?s \<le> 2 powi ?m * ?s"
    using magnitude_bounds [OF assms] s(1) by (simp_all add: mult_right_mono)
  have h: "half_even (x * ?s) \<le> 2 ^ 53" "2 ^ 52 \<le> half_even (x * ?s)"
    using b unfolding s by (intro half_even_le half_even_ge; simp)+
  have f: "f64 x = of_int (half_even (x * ?s)) * 2 powi (?m - 53)" using assms by (simp add: f64_def)
  have u: "0 \<le> (2 powi (?m - 53) :: rat)" by simp
  have "of_int (half_even (x * ?s)) \<le> (of_int (2 ^ 53) :: rat)" using h(1) by (simp only: of_int_le_iff)
  then have "f64 x \<le> of_int (2 ^ 53) * 2 powi (?m - 53)" unfolding f by (rule mult_right_mono) (rule u)
  then show "f64 x \<le> 2 powi ?m" by (simp add: power_int_diff)
  have "of_int (2 ^ 52) \<le> (of_int (half_even (x * ?s)) :: rat)" using h(2) by (simp only: of_int_le_iff)
  then have "of_int (2 ^ 52) * 2 powi (?m - 53) \<le> f64 x" unfolding f by (rule mult_right_mono) (rule u)
  then show "2 powi (?m - 1) \<le> f64 x" by (simp add: power_int_diff)
qed

lemma f64_mono:
  assumes "x \<le> y"
  shows "f64 x \<le> f64 y"
proof (cases "0 < x")
  case False
  then show ?thesis using f64_nonneg [of y] by (simp add: f64_def)
next
  case True
  with assms have y: "0 < y" by simp
  show ?thesis
  proof (cases "magnitude x = magnitude y")
    case True
    have "half_even (x * 2 powi (53 - magnitude y)) \<le> half_even (y * 2 powi (53 - magnitude y))"
      using assms by (intro half_even_mono mult_right_mono) auto
    with True \<open>0 < x\<close> y show ?thesis by (simp add: f64_def mult_right_mono)
  next
    case False
    have "2 powi (magnitude x - 1) \<le> x" "y < 2 powi magnitude y"
      using magnitude_bounds [OF \<open>0 < x\<close>] magnitude_bounds [OF y] by auto
    with assms have "2 powi (magnitude x - 1) < (2 powi magnitude y :: rat)" by linarith
    then have "magnitude x - 1 < magnitude y" by (rule powi_lessD)
    with False have m: "magnitude x \<le> magnitude y - 1" by simp
    have "f64 x \<le> 2 powi magnitude x" by (rule f64_binade [OF \<open>0 < x\<close>])
    also have "\<dots> \<le> 2 powi (magnitude y - 1)" using m by (intro power_int_increasing) auto
    also have "\<dots> \<le> f64 y" by (rule f64_binade [OF y])
    finally show ?thesis .
  qed
qed

lemma f64_small_int:
  assumes "0 \<le> n" "n < 2 ^ 53"
  shows "f64 (of_int n) = of_int n"
proof (cases "n = 0")
  case False
  with assms have n: "0 < (of_int n :: rat)" by simp
  let ?m = "magnitude (of_int n)"
  have "of_int n < (of_int (2 ^ 53) :: rat)" using assms(2) by (simp only: of_int_less_iff)
  then have "2 powi (?m - 1) < (2 powi 53 :: rat)" using magnitude_bounds [OF n] by simp
  then have "?m - 1 < 53" by (rule powi_lessD)
  then have "2 powi (53 - ?m) = (2 ^ nat (53 - ?m) :: rat)" using powi_nat [of "nat (53 - ?m)"] by simp
  then have e: "of_int n * 2 powi (53 - ?m) = (of_int (n * 2 ^ nat (53 - ?m)) :: rat)" by simp
  have "f64 (of_int n) = of_int (half_even (of_int n * 2 powi (53 - ?m))) * 2 powi (?m - 53)"
    using n by (simp add: f64_def)
  also have "\<dots> = of_int n * 2 powi (53 - ?m) * 2 powi (?m - 53)" unfolding e half_even_int ..
  finally show ?thesis by (simp only: scale_back)
qed (simp add: f64_def)

text \<open>\<^verbatim>\<open>int(float64(a) / float64(b) * 100)\<close>.\<close>

definition f64_percent :: "int \<Rightarrow> int \<Rightarrow> int" where
  "f64_percent a b = \<lfloor>f64 (f64 (f64 (of_int a) / f64 (of_int b)) * 100)\<rfloor>"

lemma f64_percent_bounds:
  assumes "a \<le> b" "0 < b"
  shows "0 \<le> f64_percent a b \<and> f64_percent a b \<le> 100"
proof -
  have b: "0 < f64 (of_int b)"
  proof -
    have "0 < (of_int b :: rat)" using assms by simp
    from f64_binade(2) [OF this] show ?thesis by (rule less_le_trans [rotated]) simp
  qed
  have "f64 (of_int a) \<le> f64 (of_int b)" using assms by (intro f64_mono) simp
  with b have "f64 (f64 (of_int a) / f64 (of_int b)) \<le> f64 1" by (intro f64_mono) simp
  also have "\<dots> = 1" using f64_small_int [of 1] by simp
  finally have "f64 (f64 (f64 (of_int a) / f64 (of_int b)) * 100) \<le> f64 100" by (intro f64_mono) simp
  also have "\<dots> = 100" using f64_small_int [of 100] by simp
  finally show ?thesis using f64_nonneg unfolding f64_percent_def by (simp add: floor_le_iff)
qed

end
