(* ===== verification/Metrics.thy ===== *)
theory Metrics
  imports GoStr Float64 "HOL-Library.Word"
begin

section \<open>The health snapshot of a node (internal/agent/metrics.go)\<close>

text \<open>
  What the agent reads of its host is one record: the files under \<^verbatim>\<open>/proc\<close> (\<open>None\<close> when reading one
  fails), \<^verbatim>\<open>statfs\<close>, the output of \<^verbatim>\<open>docker inspect\<close>, the PEM blocks of the certificate file with their
  parsed dates, the clock, and the values of \<^verbatim>\<open>strconv.ParseFloat\<close>, whose error the code drops. The
  package's variables (previous CPU counters, the cached CPU description and version) are the
  state that a snapshot is taken in. Jiffies are \<^verbatim>\<open>uint64\<close> and so words; byte counts are \<^verbatim>\<open>int64\<close>.
\<close>

subsection \<open>Readings and state\<close>

record host =
  ho_loadavg :: "string option"
  ho_uptime :: "string option"
  ho_stat :: "string option"
  ho_cpuinfo :: "string option"
  ho_meminfo :: "string option"
  ho_statfs :: "string \<Rightarrow> (int \<times> int \<times> int) option" \<comment> \<open>Bsize, Blocks, Bfree\<close>
  ho_image :: "string option"
  ho_cert :: "(string \<times> int option) list option"
  ho_nanos :: int
  ho_float :: "string \<Rightarrow> rat"

record metrics_state =
  ms_start :: int
  ms_cpu :: "(64 word \<times> 64 word) option" \<comment> \<open>total and idle; \<open>None\<close> is not seeded\<close>
  ms_info :: "(int \<times> string) option" \<comment> \<open>\<open>None\<close> until read once\<close>
  ms_xray :: string
  ms_xray_at :: int

record node_metrics =
  nm_LoadAvg :: rat
  nm_MemUsedPct :: int
  nm_XrayVersion :: string
  nm_CertExpiry :: int
  nm_Uptime :: int
  nm_CPUUsedPct :: int
  nm_CPUCores :: int
  nm_CPUModel :: string
  nm_MemTotal :: int
  nm_MemUsed :: int
  nm_DiskTotal :: int
  nm_DiskUsed :: int
  nm_HostUptime :: int

definition lines :: "string \<Rightarrow> string list" where
  "lines s = splitc (CHR 0x0A) s"

subsection \<open>Load, uptime and memory\<close>

definition percent :: "int \<Rightarrow> int \<Rightarrow> int" where
  "percent used tot = (if tot \<le> 0 \<or> used \<le> 0 then 0 else f64_percent used tot)"

definition loadAvg1 :: "host \<Rightarrow> rat" where
  "loadAvg1 h =
     (case ho_loadavg h of None \<Rightarrow> 0
      | Some b \<Rightarrow> (case Fields b of [] \<Rightarrow> 0 | f # fs \<Rightarrow> ho_float h f))"

definition hostUptime :: "host \<Rightarrow> int" where
  "hostUptime h =
     (case ho_uptime h of None \<Rightarrow> 0
      | Some b \<Rightarrow> (case Fields b of [] \<Rightarrow> 0
         | f # fs \<Rightarrow> if ho_float h f < 0 then 0 else \<lfloor>ho_float h f\<rfloor>))"

text \<open>\<^verbatim>\<open>strconv.ParseInt\<close> with its error dropped: zero for a bad text, the limit when out of range.\<close>

definition ParseInt_value :: "string \<Rightarrow> int" where
  "ParseInt_value s =
     (case ParseInt64 s of Some v \<Rightarrow> v
      | None \<Rightarrow> (case s of [] \<Rightarrow> 0
         | c # r \<Rightarrow> if parse_nat (if c = CHR ''-'' \<or> c = CHR ''+'' then r else s) = None then 0
                    else if c = CHR ''-'' then - (2 ^ 63) else 2 ^ 63 - 1))"

definition meminfoBytes :: "string \<Rightarrow> int" where
  "meminfoBytes line = (case Fields line of a # v # fs \<Rightarrow> wrap64 (ParseInt_value v * 1024) | _ \<Rightarrow> 0)"

definition meminfo_line :: "string \<Rightarrow> int \<times> int \<Rightarrow> int \<times> int" where
  "meminfo_line line ta =
     (if HasPrefix line ''MemTotal:'' then (meminfoBytes line, snd ta)
      else if HasPrefix line ''MemAvailable:'' then (fst ta, meminfoBytes line)
      else ta)"

definition parseMemInfo :: "string \<Rightarrow> int \<times> int" where
  "parseMemInfo s = fold meminfo_line (lines s) (0, 0)"

definition memInfo :: "host \<Rightarrow> int \<times> int" where
  "memInfo h =
     (case ho_meminfo h of None \<Rightarrow> (0, 0)
      | Some b \<Rightarrow>
          let (tot, avail) = parseMemInfo b in
          if tot \<le> 0 then (0, 0)
          else let avail = (if avail > tot then tot else avail) in (tot, wrap64 (tot - avail)))"

definition diskPaths :: "string list" where "diskPaths = [''/data'', ''/'']"

fun disk_of :: "(string \<Rightarrow> (int \<times> int \<times> int) option) \<Rightarrow> string list \<Rightarrow> int \<times> int" where
  "disk_of statfs [] = (0, 0)"
| "disk_of statfs (p # ps) =
     (case statfs p of None \<Rightarrow> disk_of statfs ps
      | Some (bs, blocks, bfree) \<Rightarrow>
          if bs \<le> 0 \<or> blocks = 0 then disk_of statfs ps
          else let tot = wrap64 (wrap64 blocks * bs) in (tot, wrap64 (tot - wrap64 (wrap64 bfree * bs))))"

definition diskInfo :: "host \<Rightarrow> int \<times> int" where
  "diskInfo h = disk_of (ho_statfs h) diskPaths"

subsection \<open>The CPU\<close>

definition ParseUint64 :: "string \<Rightarrow> 64 word option" where
  "ParseUint64 s = (case parse_nat s of None \<Rightarrow> None | Some n \<Rightarrow> if n < 2 ^ 64 then Some (word_of_nat n) else None)"

fun cpu_fields :: "nat \<Rightarrow> string list \<Rightarrow> 64 word \<times> 64 word \<Rightarrow> (64 word \<times> 64 word) option" where
  "cpu_fields i [] (tot, idle) = Some (tot, idle)"
| "cpu_fields i (v # vs) (tot, idle) =
     (case ParseUint64 v of None \<Rightarrow> None
      | Some n \<Rightarrow> cpu_fields (Suc i) vs (tot + n, if i = 3 \<or> i = 4 then idle + n else idle))"

fun cpu_lines :: "string list \<Rightarrow> (64 word \<times> 64 word) option" where
  "cpu_lines [] = None"
| "cpu_lines (line # ls) =
     (let f = Fields line in
      if length f < 5 \<or> hd f \<noteq> ''cpu'' then cpu_lines ls else cpu_fields 0 (tl f) (0, 0))"

definition parseCPUStat :: "string \<Rightarrow> (64 word \<times> 64 word) option" where
  "parseCPUStat s = cpu_lines (lines s)"

definition cpu_since :: "(64 word \<times> 64 word) option \<Rightarrow> 64 word \<times> 64 word \<Rightarrow> int" where
  "cpu_since prev now =
     (case prev of None \<Rightarrow> 0
      | Some (prevTotal, prevIdle) \<Rightarrow>
          if fst now \<le> prevTotal \<or> snd now < prevIdle then 0
          else let dTotal = fst now - prevTotal; dIdle = snd now - prevIdle in
            if dIdle \<ge> dTotal then 0 else f64_percent (uint (dTotal - dIdle)) (uint dTotal))"

definition cpuUsedPct :: "host \<Rightarrow> metrics_state \<Rightarrow> int \<times> metrics_state" where
  "cpuUsedPct h st =
     (case ho_stat h of None \<Rightarrow> (0, st)
      | Some b \<Rightarrow> (case parseCPUStat b of None \<Rightarrow> (0, st)
         | Some now \<Rightarrow> (cpu_since (ms_cpu st) now, st\<lparr>ms_cpu := Some now\<rparr>)))"

definition armParts :: "(string \<times> string) list" where
  "armParts = [(''0xd03'', ''Cortex-A53''), (''0xd07'', ''Cortex-A57''), (''0xd08'', ''Cortex-A72''),
     (''0xd09'', ''Cortex-A73''), (''0xd0a'', ''Cortex-A75''), (''0xd0b'', ''Cortex-A76''), (''0xd0c'', ''Neoverse-N1''),
     (''0xd40'', ''Neoverse-V1''), (''0xd49'', ''Neoverse-N2''), (''0xd4f'', ''Neoverse-V2'')]"

definition armModel :: "string \<Rightarrow> string \<Rightarrow> string" where
  "armModel impl part =
     (if \<not> EqualFold impl ''0x41'' then [] else case map_of armParts (ToLower part) of None \<Rightarrow> [] | Some m \<Rightarrow> m)"

record cpu_scan =
  cs_cores :: int
  cs_model :: string
  cs_impl :: string
  cs_part :: string

definition cpuinfo_line :: "string \<Rightarrow> cpu_scan \<Rightarrow> cpu_scan" where
  "cpuinfo_line line s =
     (case cut_at '':'' line of None \<Rightarrow> s
      | Some (k, v) \<Rightarrow>
          let k = TrimSpace k; v = TrimSpace v in
          if k = ''processor'' then s\<lparr>cs_cores := cs_cores s + 1\<rparr>
          else if k = ''model name'' then (if cs_model s = [] then s\<lparr>cs_model := v\<rparr> else s)
          else if k = ''CPU implementer'' then s\<lparr>cs_impl := v\<rparr>
          else if k = ''CPU part'' then s\<lparr>cs_part := v\<rparr>
          else s)"

definition parseCPUInfo :: "string \<Rightarrow> int \<times> string" where
  "parseCPUInfo t =
     (let s = fold cpuinfo_line (lines t) \<lparr>cs_cores = 0, cs_model = [], cs_impl = [], cs_part = []\<rparr> in
      (cs_cores s, if cs_model s = [] then armModel (cs_impl s) (cs_part s) else cs_model s))"

text \<open>\<^verbatim>\<open>sync.Once\<close>: a failed first read is remembered as nothing.\<close>

definition cpuInfo :: "host \<Rightarrow> metrics_state \<Rightarrow> (int \<times> string) \<times> metrics_state" where
  "cpuInfo h st =
     (case ms_info st of Some i \<Rightarrow> (i, st)
      | None \<Rightarrow>
          let i = (case ho_cpuinfo h of None \<Rightarrow> (0, []) | Some b \<Rightarrow> parseCPUInfo b) in (i, st\<lparr>ms_info := Some i\<rparr>))"

subsection \<open>Version and certificate\<close>

text \<open>\<^verbatim>\<open>strings.LastIndexByte\<close>.\<close>

definition LastIndexByte :: "string \<Rightarrow> char \<Rightarrow> int" where
  "LastIndexByte s c = (if c \<in> set s then int (length s) - 1 - int (length (takeWhile (\<lambda>d. d \<noteq> c) (rev s))) else -1)"

definition imageTag :: "string \<Rightarrow> string" where
  "imageTag ref0 =
     (let ref1 = TrimSpace ref0; i = LastIndexByte ref1 (CHR ''@'');
          ref = (if i \<ge> 0 then take (nat i) ref1 else ref1);
          slash = LastIndexByte ref (CHR ''/''); colon = LastIndexByte ref (CHR '':'') in
      if colon \<le> slash then []
      else let tag = drop (nat (colon + 1)) ref in if tag = ''latest'' then [] else tag)"

definition xrayVerTTL :: int where "xrayVerTTL = 3600 * 10 ^ 9"

definition xrayVersion :: "host \<Rightarrow> metrics_state \<Rightarrow> string \<times> metrics_state" where
  "xrayVersion h st =
     (if ms_xray st \<noteq> [] \<and> ho_nanos h - ms_xray_at st < xrayVerTTL then (ms_xray st, st)
      else
        let st' = (case ho_image h of None \<Rightarrow> st
              | Some out \<Rightarrow> let v = imageTag out in
                  if v \<noteq> [] then st\<lparr>ms_xray := v, ms_xray_at := ho_nanos h\<rparr> else st)
        in (ms_xray st', st'))"

fun first_cert :: "(string \<times> int option) list \<Rightarrow> int" where
  "first_cert [] = 0"
| "first_cert ((ty, notAfter) # bs) =
     (if ty \<noteq> ''CERTIFICATE'' then first_cert bs
      else case notAfter of Some t \<Rightarrow> t | None \<Rightarrow> first_cert bs)"

definition certExpiry :: "host \<Rightarrow> string \<Rightarrow> int" where
  "certExpiry h path = (if path = [] then 0 else case ho_cert h of None \<Rightarrow> 0 | Some bs \<Rightarrow> first_cert bs)"

subsection \<open>The snapshot\<close>

text \<open>\<^verbatim>\<open>Duration.Seconds\<close>: whole seconds plus the rest, in \<^verbatim>\<open>float64\<close>.\<close>

definition duration_seconds :: "int \<Rightarrow> rat" where
  "duration_seconds d = f64 (f64 (of_int (d div 10 ^ 9)) + f64 (f64 (of_int (d mod 10 ^ 9)) / 10 ^ 9))"

definition collectMetrics :: "string \<Rightarrow> host \<Rightarrow> metrics_state \<Rightarrow> node_metrics \<times> metrics_state" where
  "collectMetrics certPath h st =
     (let (memTotal, memUsed) = memInfo h;
          (diskTotal, diskUsed) = diskInfo h;
          ((cores, model), st1) = cpuInfo h st;
          (version, st2) = xrayVersion h st1;
          (cpu, st3) = cpuUsedPct h st2
      in (\<lparr>nm_LoadAvg = loadAvg1 h, nm_MemUsedPct = percent memUsed memTotal, nm_XrayVersion = version,
           nm_CertExpiry = certExpiry h certPath, nm_Uptime = \<lfloor>duration_seconds (ho_nanos h - ms_start st)\<rfloor>,
           nm_CPUUsedPct = cpu, nm_CPUCores = cores, nm_CPUModel = model, nm_MemTotal = memTotal,
           nm_MemUsed = memUsed, nm_DiskTotal = diskTotal, nm_DiskUsed = diskUsed, nm_HostUptime = hostUptime h\<rparr>, st3))"

subsection \<open>The numbers make sense\<close>

lemma cpu_since_bounds: "0 \<le> cpu_since prev now \<and> cpu_since prev now \<le> 100"
proof (cases prev)
  case None
  then show ?thesis by (simp add: cpu_since_def)
next
  case (Some p)
  let ?t = "fst now - fst p" and ?i = "snd now - snd p"
  show ?thesis
  proof (cases "fst now \<le> fst p \<or> snd now < snd p \<or> ?i \<ge> ?t")
    case True
    with Some show ?thesis by (auto simp: cpu_since_def Let_def split: prod.split)
  next
    case False
    then have "?i \<le> ?t" by (simp add: not_le less_imp_le)
    then have "uint (?t - ?i) = uint ?t - uint ?i" by (rule uint_minus_simple_alt [THEN iffD1])
    moreover have "0 \<le> uint ?i" "uint ?i < uint ?t" using False by (simp_all add: word_less_alt not_le)
    ultimately have "0 \<le> f64_percent (uint (?t - ?i)) (uint ?t) \<and> f64_percent (uint (?t - ?i)) (uint ?t) \<le> 100"
      by (intro f64_percent_bounds) linarith+
    with Some False show ?thesis by (auto simp: cpu_since_def Let_def split: prod.split)
  qed
qed

lemma meminfo_range: "fst (fold meminfo_line ls ta) < 2 ^ 63" if "fst ta < 2 ^ 63"
  using that
proof (induction ls arbitrary: ta)
  case (Cons l ls)
  have "fst (meminfo_line l ta) < 2 ^ 63"
    using Cons.prems wrap64_range by (auto simp: meminfo_line_def meminfoBytes_def split: list.split)
  then show ?case using Cons.IH by simp
qed simp

lemma memInfo_bounds:
  assumes "\<And>b. ho_meminfo h = Some b \<Longrightarrow> 0 \<le> snd (parseMemInfo b)"
  shows "0 \<le> snd (memInfo h) \<and> snd (memInfo h) \<le> fst (memInfo h)"
proof (cases "ho_meminfo h")
  case (Some b)
  obtain tot avail where p: "parseMemInfo b = (tot, avail)" by fastforce
  with assms Some have "0 \<le> avail" by fastforce
  moreover have "tot < 2 ^ 63" using p meminfo_range [of "(0, 0)" "lines b"] by (simp add: parseMemInfo_def)
  ultimately have "wrap64 (tot - avail) = tot - avail" if "avail \<le> tot" using that by (intro wrap64_nonneg) linarith+
  with Some p \<open>0 \<le> avail\<close> wrap64_nonneg [of 0] show ?thesis by (auto simp: memInfo_def Let_def)
qed (simp add: memInfo_def)

lemma percent_bounds: "used \<le> tot \<Longrightarrow> 0 \<le> percent used tot \<and> percent used tot \<le> 100"
  using f64_percent_bounds [of used tot] by (simp add: percent_def)

lemma cpuUsedPct_bounds: "0 \<le> fst (cpuUsedPct h st) \<and> fst (cpuUsedPct h st) \<le> 100"
  using cpu_since_bounds by (auto simp: cpuUsedPct_def split: option.split)


text \<open>The example of the package's tests, through the whole snapshot.\<close>

definition sample_meminfo :: string where
  "sample_meminfo = ''MemTotal: 12190552 kB'' @ [CHR 0x0A] @ ''MemFree: 1000000 kB'' @ [CHR 0x0A] @ ''MemAvailable: 8533386 kB'' @ [CHR 0x0A]"

definition sample_host :: host where
  "sample_host = \<lparr>ho_loadavg = Some ''1 2 3'', ho_uptime = None, ho_stat = Some ''cpu 100 20 30 700 40 0 10 0 0 0'',
     ho_cpuinfo = None, ho_meminfo = Some sample_meminfo, ho_statfs = (\<lambda>p. None),
     ho_image = Some ''ghcr.io/xtls/xray-core:26.6.27'', ho_cert = None, ho_nanos = 5, ho_float = (\<lambda>s. 1)\<rparr>"

definition no_samples :: metrics_state where
  "no_samples = \<lparr>ms_start = 0, ms_cpu = Some (800, 700), ms_info = None, ms_xray = [], ms_xray_at = 0\<rparr>"

lemma sample_meminfo_read: "parseMemInfo sample_meminfo = (12483125248, 8738187264)"
  by (simp add: parseMemInfo_def sample_meminfo_def lines_def meminfo_line_def HasPrefix_def meminfoBytes_def is_space_def
      ParseInt_value_def ParseInt64_def parse_nat_def digits_val_def digit_val_def is_digit_def wrap64_def)

lemma sample_readings: "percent (12483125248 - 8738187264) 12483125248 = 30"
  by code_simp

lemma sample_tag: "imageTag ''ghcr.io/xtls/xray-core:26.6.27'' = ''26.6.27''"
  by (simp add: imageTag_def LastIndexByte_def TrimSpace_def trim_by_def is_space_def)


text \<open>The float rounding is visible: 29 of 100 is 28 per cent, as in Go.\<close>

lemma percent_rounds_down: "percent 29 100 = 28"
  by code_simp

end
