(* ===== verification/Agent.thy ===== *)
theory Agent
  imports Link Standalone Stats Devices Metrics
begin

section \<open>The agent: start, session and modes (internal/agent/agent.go, cmd/agent/main.go)\<close>

text \<open>
  One record holds what an agent process keeps: its configuration, the traffic buffer with its file,
  the log watcher with its file, the health state, and the node state of \<open>Apply\<close>. A session is a
  sequence of events (a tick of one of the two tickers, or a frame from the panel); an event's
  handler returns the frames it sends and whether the session goes on. Dialing, the tickers and
  signals are I/O. The last part shows that the handlers do to the buffer and the wire what the
  protocol of \<open>Link\<close> allows an agent.
\<close>

subsection \<open>Configuration\<close>

definition envDur :: "(string \<Rightarrow> string) \<Rightarrow> string \<Rightarrow> int \<Rightarrow> int" where
  "envDur e key def = (if e key \<noteq> [] then case ParseInt64 (e key) of Some n \<Rightarrow> wrap64 (n * 10 ^ 9) | None \<Rightarrow> wrap64 (def * 10 ^ 9)
     else wrap64 (def * 10 ^ 9))"

record agent_config =
  cf_PanelURL :: string
  cf_Token :: string
  cf_XrayContainer :: string
  cf_GRPCAddr :: string
  cf_StatsInterval :: int \<comment> \<open>nanoseconds\<close>
  cf_AccessLog :: string
  cf_NginxContainer :: string
  cf_files :: agent_cfg

record 'x agent =
  ag_conf :: agent_config
  ag_buf :: "pendingTraffic \<times> pending_file"
  ag_acc :: "accessWatcher \<times> offset_file"
  ag_met :: metrics_state
  ag_node :: "'x node_state"

text \<open>
  \<open>beside f name\<close> is \<^verbatim>\<open>filepath.Join(filepath.Dir(f), name)\<close>. The files found on disk are the buffer's,
  the watcher's and the node's.
\<close>

definition ConfigFromEnv :: "hash_fn \<Rightarrow> (string \<Rightarrow> string \<Rightarrow> string) \<Rightarrow> (string \<Rightarrow> string) \<Rightarrow> int \<Rightarrow> pending_file \<Rightarrow> offset_file
    \<Rightarrow> 'x node_state \<Rightarrow> 'x agent" where
  "ConfigFromEnv bytesSHA beside e now pf af node =
     (let usersFile = agent_env e ''XUANWU_USERS_FILE'' ''/data/users.json'';
          files = \<lparr>ac_XrayConfig = agent_env e ''XRAY_CONFIG'' ''/etc/xray/config.json'',
            ac_CertPath = agent_env e ''XRAY_CERT'' ''/etc/xray/certs/fullchain.pem'',
            ac_NginxConf = agent_env e ''NGINX_CONF'' ''/data/nginx/nginx.conf'',
            ac_ACMEDomainFile = agent_env e ''ACME_DOMAIN_FILE'' ''/data/acme/domain''\<rparr>;
          acclog = agent_env e ''XRAY_ACCESS_LOG'' ''/var/log/xray/access.log''
      in \<lparr>ag_conf = \<lparr>cf_PanelURL = agent_env e ''PANEL_URL'' [], cf_Token = agent_env e ''NODE_TOKEN'' [],
             cf_XrayContainer = agent_env e ''XRAY_CONTAINER'' ''xray'', cf_GRPCAddr = agent_env e ''XRAY_GRPC'' ''xray:10085'',
             cf_StatsInterval = envDur e ''STATS_INTERVAL'' 60, cf_AccessLog = acclog,
             cf_NginxContainer = agent_env e ''NGINX_CONTAINER'' ''nginx-edge'', cf_files = files\<rparr>,
          ag_buf = (loadPending (beside usersFile ''pending-traffic.json'') pf, pf),
          ag_acc = (newAccessWatcher acclog (beside usersFile ''access-offset.json'') af, af),
          ag_met = \<lparr>ms_start = now, ms_cpu = None, ms_info = None, ms_xray = [], ms_xray_at = 0\<rparr>,
          ag_node = agentStart bytesSHA files (beside usersFile ''xray-baseline.json'') node\<rparr>)"

subsection \<open>Modes\<close>

datatype agent_command = Standalone | Managed | UserCommand "string list" | DockerProxy | Usage

definition agent_command_of :: "string list \<Rightarrow> string \<Rightarrow> agent_command" where
  "agent_command_of args mode =
     (let rest = (if mode = ''standalone'' then Standalone else Managed) in
      case args of [] \<Rightarrow> rest
      | a # as \<Rightarrow>
          if a = ''standalone'' then Standalone
          else if a = ''managed'' then Managed
          else if a = ''user'' \<or> a = ''apply'' then UserCommand args
          else if a = ''dockerproxy'' then DockerProxy
          else if a = ''-h'' \<or> a = ''--help'' \<or> a = ''help'' then Usage
          else rest)"

text \<open>\<^verbatim>\<open>RunManaged\<close> before its loop: \<open>None\<close> is \<^verbatim>\<open>errRequired\<close>.\<close>

definition RunManaged :: "nginx_env \<Rightarrow> 'x agent \<Rightarrow> 'x agent option" where
  "RunManaged v ag =
     (if cf_PanelURL (ag_conf ag) = [] \<or> cf_Token (ag_conf ag) = [] then None
      else let n = ag_node ag in
        Some (ag\<lparr>ag_node := n\<lparr>ns_nginx := fst (applyNginx v (ac_NginxConf (cf_files (ag_conf ag))) [] (ns_nginx n))\<rparr>\<rparr>))"

text \<open>The wait before the session after one that waited \<open>b\<close> nanoseconds.\<close>

definition next_backoff :: "int \<Rightarrow> int" where
  "next_backoff b = (if b < 30 * 10 ^ 9 then b * 2 else b)"

text \<open>A parsed URL: scheme, path and what the agent keeps as it is; \<open>parse\<close> and \<open>render\<close> are \<^verbatim>\<open>net/url\<close>'s.\<close>

record 'u go_url =
  gu_Scheme :: string
  gu_Path :: string
  gu_rest :: 'u

definition wsURL :: "(string \<Rightarrow> 'u go_url option) \<Rightarrow> ('u go_url \<Rightarrow> string) \<Rightarrow> string \<Rightarrow> string option" where
  "wsURL parse render panel =
     (case parse panel of None \<Rightarrow> None
      | Some u \<Rightarrow> Some (render (u\<lparr>gu_Scheme := (if gu_Scheme u = ''https'' then ''wss'' else ''ws''),
          gu_Path := TrimRight (gu_Path u) ''/'' @ ''/api/node/ws''\<rparr>)))"

subsection \<open>The session\<close>

type_synonym agent_msg = "(json, node_metrics) msg"

definition register_frame :: "string \<Rightarrow> string \<Rightarrow> agent_msg" where
  "register_frame token version = (zero_msg TypeRegister)\<lparr>m_token := token, m_version := version\<rparr>"

definition traffic_frame :: "int \<Rightarrow> traffic_item list \<Rightarrow> agent_msg" where
  "traffic_frame seq items = (zero_msg TypeTraffic)\<lparr>m_seq := seq, m_items := items\<rparr>"

text \<open>
  What one event meets: whether each of its (at most two) sends succeeds, whether the buffer's
  file is written, and the readings it takes.
\<close>

record event_env =
  ee_send1 :: bool
  ee_send2 :: bool
  ee_write :: bool

text \<open>After the dial: register, then the batch left over from the last session.\<close>

definition session_open :: "string \<Rightarrow> event_env \<Rightarrow> 'x agent \<Rightarrow> agent_msg list \<times> bool \<times> 'x agent" where
  "session_open version v ag =
     (let reg = register_frame (cf_Token (ag_conf ag)) version in
      if \<not> ee_send1 v then ([], False, ag)
      else
        let ((seq, items, ok), buf) = batch (ee_write v) (fst (ag_buf ag)) (snd (ag_buf ag)); ag = ag\<lparr>ag_buf := buf\<rparr> in
        if ok then if ee_send2 v then ([reg, traffic_frame seq items], True, ag) else ([reg], False, ag)
        else ([reg], True, ag))"

definition heartbeat_tick :: "event_env \<Rightarrow> host \<Rightarrow> 'x agent \<Rightarrow> agent_msg list \<times> bool \<times> 'x agent" where
  "heartbeat_tick v h ag =
     (let (m, st) = collectMetrics (ac_CertPath (cf_files (ag_conf ag))) h (ag_met ag); ag = ag\<lparr>ag_met := st\<rparr> in
      if ee_send1 v then ([(zero_msg TypeHeartbeat)\<lparr>m_metrics := Some m\<rparr>], True, ag) else ([], False, ag))"

definition stats_tick :: "event_env \<Rightarrow> (string \<times> int) list option \<Rightarrow> access_env \<Rightarrow> 'x agent \<Rightarrow> agent_msg list \<times> bool \<times> 'x agent" where
  "stats_tick v counters alog ag =
     (let (p, f) = collect (ee_write v) (collectTraffic counters) (fst (ag_buf ag)) (snd (ag_buf ag));
          ((seq, items, ok), buf) = batch (ee_write v) p f;
          ag = ag\<lparr>ag_buf := buf\<rparr>
      in if ok \<and> \<not> ee_send1 v then ([], False, ag)
         else
           let sent = (if ok then [traffic_frame seq items] else []);
               (devs, acc) = collectDevices alog (fst (ag_acc ag)) (snd (ag_acc ag));
               ag = ag\<lparr>ag_acc := acc\<rparr>
           in if devs \<noteq> [] then
                if ee_send2 v then (sent @ [(zero_msg TypeDevices)\<lparr>m_devices := devs\<rparr>], True, ag) else (sent, False, ag)
              else (sent, True, ag))"

text \<open>A frame from the panel; an error of \<open>applyConfig\<close> is only logged, other types are ignored.\<close>

definition on_frame :: "hash_fn \<Rightarrow> 'x xray_api \<Rightarrow> event_env \<Rightarrow> step_env \<Rightarrow> agent_msg \<Rightarrow> 'x agent \<Rightarrow> 'x agent" where
  "on_frame bytesSHA api v sv m ag =
     (if m_type m = TypeConfig then
        ag\<lparr>ag_node := snd (onConfig bytesSHA api (cf_files (ag_conf ag)) sv (m_config m) (m_tls_domain m) (ag_node ag))\<rparr>
      else if m_type m = TypeAck then ag\<lparr>ag_buf := ack (ee_write v) (m_seq m) (fst (ag_buf ag)) (snd (ag_buf ag))\<rparr>
      else ag)"

subsection \<open>Waiting between sessions\<close>

lemma backoff_bound: "0 < b \<Longrightarrow> b < 60 * 10 ^ 9 \<Longrightarrow> 0 < next_backoff b \<and> next_backoff b < 60 * 10 ^ 9"
  by (simp add: next_backoff_def)

lemma backoff_reaches: "(next_backoff ^^ 5) (10 ^ 9) = 32 * 10 ^ 9 \<and> next_backoff (32 * 10 ^ 9) = 32 * 10 ^ 9"
  by (simp add: next_backoff_def numeral_eq_Suc)

subsection \<open>The defaults fit together\<close>

text \<open>With nothing configured, the containers the agent restarts are the ones the Docker proxy lets it restart.\<close>

lemma defaults_fit:
  "{cf_XrayContainer (ag_conf (ConfigFromEnv H b (\<lambda>_. []) t pf af n)), cf_NginxContainer (ag_conf (ConfigFromEnv H b (\<lambda>_. []) t pf af n))} =
     dp_allowed (snd (snd (RunDockerProxy (\<lambda>_. []) dial)))"
  by (simp add: ConfigFromEnv_def RunDockerProxy_def Let_def agent_env_def default_allow_list)

subsection \<open>The session and the protocol\<close>

definition reports :: "agent_msg list \<Rightarrow> (int \<times> traffic_item list) list" where
  "reports ms = map (\<lambda>m. (m_seq m, m_items m)) (filter (\<lambda>m. m_type m = TypeTraffic) ms)"

lemma reports_simps [simp]:
  "reports [] = []" "reports (traffic_frame s its # ms) = (s, its) # reports ms"
  "reports (register_frame t v # ms) = reports ms" "reports [(zero_msg TypeDevices)\<lparr>m_devices := ds\<rparr>] = []"
  by (simp_all add: reports_def traffic_frame_def register_frame_def)

text \<open>
  What an agent's event does to a link: it ends in the agent's new buffer, with the reports sent on
  the wire and the collected items on record.
\<close>

definition link_follows :: "(string \<Rightarrow> string) \<Rightarrow> int \<Rightarrow> link \<Rightarrow> traffic_item list \<Rightarrow> agent_msg list \<times> bool \<times> 'x agent \<Rightarrow> bool" where
  "link_follows H n l its r \<longleftrightarrow> (case r of (sent, alive, ag) \<Rightarrow>
     \<exists>l'. (link_step H n)\<^sup>*\<^sup>* l l' \<and> lk_buf l' = ag_buf ag \<and> lk_wire l' = lk_wire l @ reports sent \<and>
       lk_app l' = lk_app l \<and> lk_conn l' = lk_conn l \<and> lk_up l' = alive \<and> lk_coll l' = lk_coll l @ its)"

text \<open>\<open>Send\<close> or \<open>SendFails\<close> is what a batch followed by its send amounts to.\<close>

lemma flush_steps:
  assumes "pt_Seq (fst (lk_buf l)) < 2 ^ 63 - 1" "lk_up l" "pend_send (lk_buf l) = ((s, its, ok), b)"
    and "pend_inv (lk_buf l)"
  shows "\<exists>l'. (link_step H n)\<^sup>*\<^sup>* l l' \<and> lk_buf l' = b \<and> lk_wire l' = lk_wire l @ (if ok \<and> sent then [(s, its)] else []) \<and>
    lk_app l' = lk_app l \<and> lk_conn l' = lk_conn l \<and> lk_up l' = (ok \<longrightarrow> sent) \<and> lk_coll l' = lk_coll l"
proof (cases ok)
  case True
  with assms(3) have b: "pend_send (lk_buf l) = ((s, its, True), b)" by simp
  show ?thesis
  proof (cases sent)
    case True
    with r_into_rtranclp [of "link_step H n", OF Send [OF assms(2,1) b refl]] \<open>ok\<close> assms(2) show ?thesis by fastforce
  next
    case False
    with r_into_rtranclp [of "link_step H n", OF SendFails [OF assms(1) b]] \<open>ok\<close> show ?thesis by fastforce
  qed
next
  case False
  with assms(3,4) have "b = lk_buf l" using buf.send_nothing [of "lk_buf l" s its b] by simp
  with False assms(2) show ?thesis by (intro exI [of _ l]) simp
qed

lemma open_follows:
  assumes "lk_buf l = ag_buf ag" "lk_up l" "pend_inv (ag_buf ag)" "ee_write v" "pt_Seq (fst (ag_buf ag)) < 2 ^ 63 - 1"
  shows "link_follows H n l [] (session_open version v ag)"
proof (cases "ee_send1 v")
  case False
  have "link_step H n l (l\<lparr>lk_up := False\<rparr>)" by (rule AgentDrop)
  with False assms show ?thesis
    by (auto simp: link_follows_def session_open_def intro!: exI [of _ "l\<lparr>lk_up := False\<rparr>"])
next
  case True
  obtain s its ok b where r: "pend_send (ag_buf ag) = ((s, its, ok), b)" by (metis prod_cases3 prod.exhaust)
  have f: "pt_Seq (fst (lk_buf l)) < 2 ^ 63 - 1" "pend_send (lk_buf l) = ((s, its, ok), b)" "pend_inv (lk_buf l)"
    using assms r by simp_all
  from flush_steps [OF f(1) assms(2) f(2,3), of H n "ee_send2 v"] True r assms(4) show ?thesis
    by (cases ok; cases "ee_send2 v") (auto simp: link_follows_def session_open_def pend_send_def)
qed

lemma heartbeat_follows:
  assumes "lk_buf l = ag_buf ag" "lk_up l"
  shows "link_follows H n l [] (heartbeat_tick v h ag)"
proof (cases "ee_send1 v")
  case False
  have "link_step H n l (l\<lparr>lk_up := False\<rparr>)" by (rule AgentDrop)
  with False assms show ?thesis
    by (auto simp: link_follows_def heartbeat_tick_def split: prod.split intro!: exI [of _ "l\<lparr>lk_up := False\<rparr>"])
next
  case True
  with assms show ?thesis
    by (auto simp: link_follows_def heartbeat_tick_def reports_def split: prod.split intro!: exI [of _ l])
qed

text \<open>The tick without its device report.\<close>

lemma tick_parts:
  assumes "ee_write v" "pend_send (pend_coll (collectTraffic counters) (ag_buf ag)) = ((s, its, ok), b)"
  obtains (lost) "ok \<and> \<not> ee_send1 v" "stats_tick v counters alog ag = ([], False, ag\<lparr>ag_buf := b\<rparr>)"
  | (kept) more alive ag' where "\<not> (ok \<and> \<not> ee_send1 v)" "reports more = []" "ag_buf ag' = b"
      "stats_tick v counters alog ag = ((if ok then [traffic_frame s its] else []) @ more, alive, ag')"
proof -
  obtain p f where pf: "collect True (collectTraffic counters) (fst (ag_buf ag)) (snd (ag_buf ag)) = (p, f)" by fastforce
  obtain devs acc where d: "collectDevices alog (fst (ag_acc ag)) (snd (ag_acc ag)) = (devs, acc)" by (metis prod.exhaust)
  have b: "batch True p f = ((s, its, ok), b)" using assms(2) pf by (simp add: pend_send_def pend_coll_def)
  let ?ag = "ag\<lparr>ag_buf := b, ag_acc := acc\<rparr>" and ?dev = "(zero_msg TypeDevices)\<lparr>m_devices := devs\<rparr> :: agent_msg"
  show thesis
  proof (cases "ok \<and> \<not> ee_send1 v")
    case True
    with lost assms(1) pf b show thesis by (simp add: stats_tick_def)
  next
    case False
    then have "stats_tick v counters alog ag = ((if ok then [traffic_frame s its] else []) @
        (if devs \<noteq> [] \<and> ee_send2 v then [?dev] else []), devs = [] \<or> ee_send2 v, ?ag)"
      using assms(1) pf b d by (auto simp: stats_tick_def Let_def)
    from kept [OF False _ _ this] show thesis by simp
  qed
qed

lemma reports_append: "reports (a @ b) = reports a @ reports b"
  by (simp add: reports_def)

lemma tick_follows:
  assumes "lk_buf l = ag_buf ag" "lk_up l" "pend_inv (ag_buf ag)" "ee_write v" "pt_Seq (fst (ag_buf ag)) < 2 ^ 63 - 1"
    and "items_nonneg (collectTraffic counters)"
    and "\<forall>e. map_bytes e (pt_Pend (fst (ag_buf ag))) + items_bytes e (collectTraffic counters) < 2 ^ 63"
  shows "link_follows H n l (collectTraffic counters) (stats_tick v counters alog ag)"
proof -
  let ?its = "collectTraffic counters" and ?c = "pend_coll (collectTraffic counters) (ag_buf ag)"
  define l1 where "l1 = l\<lparr>lk_buf := ?c, lk_coll := lk_coll l @ ?its\<rparr>"
  have step: "link_step H n l l1" unfolding l1_def using Collect [OF assms(6), of l H n] assms(1,7) by simp
  have c: "pend_inv ?c" "pt_Seq (fst ?c) = pt_Seq (fst (ag_buf ag))"
    using buf.coll [OF assms(3,6)] assms(7) by auto
  obtain s its ok b where r: "pend_send ?c = ((s, its, ok), b)" by (metis prod_cases3 prod.exhaust)
  have f: "pt_Seq (fst (lk_buf l1)) < 2 ^ 63 - 1" "lk_up l1" "pend_send (lk_buf l1) = ((s, its, ok), b)" "pend_inv (lk_buf l1)"
    using c r assms(2,5) by (simp_all add: l1_def)
  note flush = flush_steps [OF f, of H n]
  show ?thesis
  proof (cases rule: tick_parts [OF assms(4) r, where alog = alog])
    case 1
    then have ok by simp
    from flush [of False] obtain l2 where l2: "(link_step H n)\<^sup>*\<^sup>* l1 l2" "lk_buf l2 = b" "lk_wire l2 = lk_wire l1"
      "lk_app l2 = lk_app l1" "lk_conn l2 = lk_conn l1" "\<not> lk_up l2" "lk_coll l2 = lk_coll l1" using \<open>ok\<close> by auto
    have "(link_step H n)\<^sup>*\<^sup>* l l2" using step l2(1) by (rule converse_rtranclp_into_rtranclp)
    with 1 l2 show ?thesis by (auto simp: link_follows_def l1_def)
  next
    case (2 more alive ag')
    from flush [of True] obtain l2 where l2: "(link_step H n)\<^sup>*\<^sup>* l1 l2" "lk_buf l2 = b" "lk_wire l2 = lk_wire l1 @ (if ok then [(s, its)] else [])"
      "lk_app l2 = lk_app l1" "lk_conn l2 = lk_conn l1" "lk_up l2" "lk_coll l2 = lk_coll l1" by auto
    have run: "(link_step H n)\<^sup>*\<^sup>* l l2" using step l2(1) by (rule converse_rtranclp_into_rtranclp)
    define l3 where "l3 = (if alive then l2 else l2\<lparr>lk_up := False\<rparr>)"
    have "(link_step H n)\<^sup>*\<^sup>* l l3"
      using run AgentDrop [of H n l2] by (auto simp: l3_def intro: rtranclp.rtrancl_into_rtrancl)
    moreover have "lk_buf l3 = b" "lk_wire l3 = lk_wire l @ (if ok then [(s, its)] else [])" "lk_app l3 = lk_app l"
      "lk_conn l3 = lk_conn l" "lk_up l3 = alive" "lk_coll l3 = lk_coll l @ ?its"
      using l2 by (auto simp: l3_def l1_def)
    ultimately show ?thesis using 2 by (auto simp: link_follows_def reports_append)
  qed
qed


definition sample_agent_proc :: "sim agent" where
  "sample_agent_proc = ConfigFromEnv sample_sha (\<lambda>f name. name) (\<lambda>_. []) 0 Missing None (sample_node [])"

definition sample_event :: event_env where
  "sample_event = \<lparr>ee_send1 = True, ee_send2 = True, ee_write = True\<rparr>"


end
