(* ===== verification/Evolve.thy ===== *)
theory Evolve
  imports StoreOps Traffic
begin

section \<open>What a computation may do to the store\<close>

text \<open>
  \<open>evolves A s s'\<close>: from \<open>s\<close>, store calls that satisfy \<open>A\<close> (and reads, which only use up engine faults)
  lead to \<open>s'\<close>. A handler confined to \<open>A\<close> keeps whatever every call in \<open>A\<close> keeps, so each handler needs
  one lemma naming its calls and each invariant one lemma per call. The rules in \<open>evolving\<close> follow the
  shape of the code.
\<close>

inductive evolves :: "(store_op \<Rightarrow> bool) \<Rightarrow> store \<Rightarrow> store \<Rightarrow> bool" for A where
  ev_refl: "evolves A s s"
| ev_op: "evolves A s s' \<Longrightarrow> A x \<Longrightarrow> evolves A s (store_step x s')"
| ev_fault: "evolves A s s' \<Longrightarrow> evolves A s (s'\<lparr>faults := fs\<rparr>)"

lemma evolves_trans: "evolves A t u \<Longrightarrow> evolves A s t \<Longrightarrow> evolves A s u"
  by (induction rule: evolves.induct) (auto intro: evolves.intros)

lemma evolves_mono: "evolves A s t \<Longrightarrow> (\<And>x. A x \<Longrightarrow> B x) \<Longrightarrow> evolves B s t"
  by (induction rule: evolves.induct) (auto intro: evolves.intros)

lemma evolves_keeps:
  "evolves A s t \<Longrightarrow> P (tables s) \<Longrightarrow> (\<And>x s. A x \<Longrightarrow> P (tables s) \<Longrightarrow> P (tables (store_step x s))) \<Longrightarrow> P (tables t)"
  by (induction rule: evolves.induct) auto

lemma evolves_none: "evolves A s t \<Longrightarrow> (\<And>x. \<not> A x) \<Longrightarrow> tables t = tables s"
  by (induction rule: evolves.induct) auto

lemma evolves_run: "(\<And>x. x \<in> set xs \<Longrightarrow> A x) \<Longrightarrow> evolves A s (store_run xs s)"
proof (induction xs rule: rev_induct)
  case (snoc x xs)
  then have "evolves A s (store_run xs s)" by simp
  with snoc.prems show ?case by (auto simp: store_run_def intro: ev_op)
qed (simp add: ev_refl)

text \<open>Every run of calls with engine faults in between is a run of the store: nothing else changes it.\<close>

lemma evolves_integrity: "evolves A s t \<Longrightarrow> db_ok (tables s) \<Longrightarrow> db_ok (tables t)"
  by (erule evolves_keeps) (auto intro: store_step_ok)

subsection \<open>The statements of a store call\<close>

text \<open>
  \<open>writes c x\<close> are the statements the call \<open>x\<close> may run. What every one of them keeps, the call keeps,
  whichever statements the engine fails; an invariant of the tables is proved statement by
  statement.
\<close>

definition upd_seq :: "int \<Rightarrow> int \<Rightarrow> db \<Rightarrow> sql_err + db" where
  "upd_seq i q = upd_node i (\<lambda>n. n\<lparr>nr_traffic_seq := q\<rparr>)"

fun writes :: "crypter \<Rightarrow> store_op \<Rightarrow> (db \<Rightarrow> sql_err + db) set" where
  "writes c (OSetNodeTrafficSeq n q) = {upd_seq n q}"
| "writes c (OSetSetting k v) = {put_setting k v}"
| "writes c (OSetSecretSetting nc k v) = {put_setting k (encrypt c nc v)}"
| "writes c (OEncryptExisting n1 n2 n3) =
     (\<Union>i v. {upd_private_key i v, upd_totp_secret i v, upd_telegram_token v})"
| "writes c (OEnsureAdmin u h) = {insert_admin u h}"
| "writes c (OBumpAdminSessionEpoch u) = {upd_admin u (\<lambda>a. a\<lparr>ar_session_epoch := ar_session_epoch a + 1\<rparr>)}"
| "writes c (OBumpUserSessionEpoch i) = {upd_user i (\<lambda>u. u\<lparr>ur_session_epoch := ur_session_epoch u + 1\<rparr>)}"
| "writes c (OSetAdminTOTP nc u t e) = {upd_admin u (\<lambda>a. a\<lparr>ar_totp_secret := encrypt c nc t, ar_totp_enabled := e\<rparr>)}"
| "writes c (OCreateAdmin u h) = {insert_admin u h}"
| "writes c (ODeleteAdmin u) = {\<lambda>d. Inr (d\<lparr>admins := del_where (\<lambda>a. ar_username a = u) (admins d)\<rparr>)}"
| "writes c (OSetAdminPassword u h) =
     {upd_admin u (\<lambda>a. a\<lparr>ar_password_hash := h, ar_session_epoch := ar_session_epoch a + 1\<rparr>)}"
| "writes c (OUpsertDevice u n ip inb k seen) = {put_device u n ip inb k seen}"
| "writes c (OPurgeDevices t) = {\<lambda>d. Inr (d\<lparr>user_devices := del_where (\<lambda>r. dv_last_seen r < t) (user_devices d)\<rparr>)}"
| "writes c (OAddAudit now a b e) = {insert_audit now a b e}"
| "writes c (OCreateNode nc now n) = {\<lambda>d. map_sum id snd (insert_node c nc now n d)}"
| "writes c (OUpdateNode nc n) = {upd_node (n_ID n) (\<lambda>r. r\<lparr>nr_name := n_Name n, nr_address := n_Address n,
        nr_remark := n_Remark n, nr_reality_dest := n_RealityDest n,
        nr_reality_server_name := n_RealityServerName n,
        nr_reality_private_key := encrypt c nc (n_RealityPrivateKey n),
        nr_reality_public_key := n_RealityPublicKey n,
        nr_reality_short_id := n_RealityShortID n, nr_tls_domain := n_TLSDomain n\<rparr>)}"
| "writes c (ODeleteNode i) =
     {\<lambda>d. Inr (d\<lparr>user_nodes := del_where (\<lambda>r. snd r = i) (user_nodes d)\<rparr>),
      \<lambda>d. Inr (d\<lparr>node_traffic := del_where (\<lambda>r. tr_node r = i) (node_traffic d)\<rparr>),
      \<lambda>d. Inr (d\<lparr>node_traffic_daily := del_where (\<lambda>r. dy_owner r = i) (node_traffic_daily d)\<rparr>),
      \<lambda>d. Inr (d\<lparr>user_devices := del_where (\<lambda>r. dv_node r = i) (user_devices d)\<rparr>),
      \<lambda>d. Inr (d\<lparr>nodes := del_where (\<lambda>r. nr_id r = i) (nodes d)\<rparr>)}"
| "writes c (OSetNodeAgentVersion i v) = {upd_node i (\<lambda>n. n\<lparr>nr_agent_version := v\<rparr>)}"
| "writes c (OTouchNode now i) = {upd_node i (\<lambda>n. n\<lparr>nr_last_seen := now\<rparr>)}"
| "writes c (OCreateUser now u) = {\<lambda>d. map_sum id snd (insert_user now u d)}"
| "writes c (OUpdateUser u) = {upd_user (ID u) (\<lambda>r. r\<lparr>ur_data_limit := DataLimit u, ur_expire_at := ExpireAt u,
     ur_enabled := Enabled u, ur_reset_day := ResetDay u, ur_note := Note u\<rparr>)}"
| "writes c (OSetUserSubToken i t) = {upd_sub_token i t}"
| "writes c (OSetUserUUID i v) = {upd_user i (\<lambda>u. u\<lparr>ur_uuid := v\<rparr>)}"
| "writes c (OSetUserLastReset i ts) = {upd_user i (\<lambda>u. u\<lparr>ur_last_reset := ts\<rparr>)}"
| "writes c (ODeleteUser i) =
     {\<lambda>d. Inr (d\<lparr>user_nodes := del_where (\<lambda>r. fst r = i) (user_nodes d)\<rparr>),
      \<lambda>d. Inr (d\<lparr>node_traffic := del_where (\<lambda>r. tr_user r = i) (node_traffic d)\<rparr>),
      \<lambda>d. Inr (d\<lparr>user_devices := del_where (\<lambda>r. dv_user r = i) (user_devices d)\<rparr>),
      \<lambda>d. Inr (d\<lparr>users := del_where (\<lambda>r. ur_id r = i) (users d)\<rparr>)}"
| "writes c (OSetUserNodes i ns) =
     insert (\<lambda>d. Inr (d\<lparr>user_nodes := del_where (\<lambda>r. fst r = i) (user_nodes d)\<rparr>)) (insert_or_ignore i ` set ns)"
| "writes c (OAddTraffic now u n up dn) =
     {upd_user u (\<lambda>r. r\<lparr>ur_data_used := ur_data_used r + wrap64 (up + dn)\<rparr>), add_node_traffic now u n up dn,
      \<lambda>d. Inr (d\<lparr>traffic_daily := add_daily u (utc_day now) up dn (traffic_daily d)\<rparr>),
      \<lambda>d. Inr (d\<lparr>node_traffic_daily := add_daily n (utc_day now) up dn (node_traffic_daily d)\<rparr>)}"
| "writes c (OSetUserPortalPassword i h mc) =
     {upd_user i (\<lambda>u. u\<lparr>ur_portal_password_hash := h, ur_must_change_pw := mc\<rparr>)}"
| "writes c (OChangeUserPortalPassword i h) =
     {upd_user i (\<lambda>u. u\<lparr>ur_portal_password_hash := h, ur_must_change_pw := False, ur_session_epoch := ur_session_epoch u + 1\<rparr>)}"
| "writes c (OResetUserTraffic i) =
     {upd_user i (\<lambda>u. u\<lparr>ur_data_used := 0\<rparr>),
      \<lambda>d. Inr (d\<lparr>node_traffic := del_where (\<lambda>r. tr_user r = i) (node_traffic d)\<rparr>)}"

lemma exec_at: "keeps_stmt P st \<Longrightarrow> P (tables s) \<Longrightarrow> P (tables (snd (exec st s)))"
  using exec_keeps keeps_at by blast

lemma tx_at: "(\<forall>st \<in> set sts. keeps_stmt P st) \<Longrightarrow> P (tables s) \<Longrightarrow> P (tables (snd (tx sts s)))"
  using tx_keeps keeps_at by (metis list_all_iff)

lemma exec_res_at: "keeps_stmt P (\<lambda>d. map_sum id snd (st d)) \<Longrightarrow> P (tables s) \<Longrightarrow> P (tables (snd (exec_res st s)))"
proof -
  assume k: "keeps_stmt P (\<lambda>d. map_sum id snd (st d))" and "P (tables s)"
  have "P d'" if "P d" "st d = Inr (x, d')" for d x d' using keeps_stmtD [OF k that(1)] that(2) by simp
  then have "keeps P (exec_res st)" by (rule exec_res_keeps)
  then show ?thesis using \<open>P (tables s)\<close> by (rule keeps_at)
qed

lemma EnsureAdmin_at: "keeps_stmt P (insert_admin u h) \<Longrightarrow> P (tables s) \<Longrightarrow> P (tables (snd (EnsureAdmin u h s)))"
proof -
  assume k: "keeps_stmt P (insert_admin u h)" and P: "P (tables s)"
  obtain r s' where q: "query (\<lambda>d. map_sum id ar_id (find_row (\<lambda>a. ar_username a = u) (admins d))) s = (r, s')"
    by fastforce
  with P have "P (tables s')" by (simp add: query_tables)
  with exec_at [OF k, of s'] q show ?thesis by (auto simp: EnsureAdmin_def split: sum.splits sql_err.splits)
qed

lemmas ops_at = SetNodeTrafficSeq_def SetSetting_def SetSecretSetting_def BumpAdminSessionEpoch_def BumpUserSessionEpoch_def
  SetAdminTOTP_def CreateAdmin_def DeleteAdmin_def SetAdminPassword_def UpsertDevice_def AddAudit_def CreateNode_def
  UpdateNode_def DeleteNode_def SetNodeAgentVersion_def TouchNode_def CreateUser_def UpdateUser_def SetUserSubToken_def
  SetUserUUID_def SetUserLastReset_def DeleteUser_def SetUserNodes_def AddTraffic_def SetUserPortalPassword_def
  ChangeUserPortalPassword_def ResetUserTraffic_def add_used_def Let_def

lemma store_step_keeps:
  "(\<forall>st \<in> writes (crypt s) x. keeps_stmt P st) \<Longrightarrow> P (tables s) \<Longrightarrow> P (tables (store_step x s))"
proof (cases x)
  assume st: "\<forall>st \<in> writes (crypt s) x. keeps_stmt P st" and P: "P (tables s)"
  {
    case (OEncryptExisting n1 n2 n3)
    have "keeps P (encryptExisting n1 n2 n3)"
      by (rule encryptExisting_keeps) (use st in \<open>auto simp: OEncryptExisting\<close>)
    then show ?thesis using P by (simp add: OEncryptExisting keeps_at)
  next
    case (OEnsureAdmin u h)
    then show ?thesis using st P by (simp add: EnsureAdmin_at)
  next
    case (OPurgeDevices t)
    have "keeps_stmt P (\<lambda>d. map_sum id snd (let keep = del_where (\<lambda>r. dv_last_seen r < t) (user_devices d)
       in Inr (length (user_devices d) - length keep, d\<lparr>user_devices := keep\<rparr>)))"
      using st by (simp add: OPurgeDevices Let_def)
    from exec_res_at [OF this P] show ?thesis by (simp add: OPurgeDevices PurgeDevices_def)
  next
    case (OSetNodeTrafficSeq n q)
    then show ?thesis using st P by (simp add: ops_at exec_at upd_seq_def upd_node_def [abs_def])
  }
qed (hypsubst, simp only: store_step.simps writes.simps ops_at,
    (rule exec_at tx_at exec_res_at), simp, assumption)+

lemma evolves_keeps_writes:
  assumes "evolves A s t" "P (tables s)" "\<And>c x st. A x \<Longrightarrow> st \<in> writes c x \<Longrightarrow> keeps_stmt P st"
  shows "P (tables t)"
  using assms(1,2)
proof (rule evolves_keeps)
  fix x and s :: store assume "A x" "P (tables s)"
  then show "P (tables (store_step x s))" using assms(3) by (blast intro: store_step_keeps)
qed

text \<open>Which calls write which tables.\<close>

fun admin_op :: "store_op \<Rightarrow> bool" where
  "admin_op (OEncryptExisting _ _ _) = True"
| "admin_op (OEnsureAdmin _ _) = True"
| "admin_op (OBumpAdminSessionEpoch _) = True"
| "admin_op (OSetAdminTOTP _ _ _ _) = True"
| "admin_op (OCreateAdmin _ _) = True"
| "admin_op (ODeleteAdmin _) = True"
| "admin_op (OSetAdminPassword _ _) = True"
| "admin_op _ = False"

lemma map_sum_eq_Inr: "map_sum f g x = Inr y \<longleftrightarrow> (\<exists>z. x = Inr z \<and> y = g z)"
  by (cases x) auto

lemmas stmt_defs = put_setting_def upd_seq_def upd_user_def put_device_def insert_audit_def upd_node_def upd_sub_token_def
  add_node_traffic_def insert_or_ignore_def insert_node_def insert_user_def upd_private_key_def upd_telegram_token_def

lemma other_op_admins: "\<not> admin_op x \<Longrightarrow> st \<in> writes c x \<Longrightarrow> st d = Inr d' \<Longrightarrow> admins d' = admins d"
  by (cases x) (auto simp: stmt_defs map_sum_eq_Inr split: if_splits)

subsection \<open>Store methods\<close>

definition sql_evolves :: "(store_op \<Rightarrow> bool) \<Rightarrow> 'a sql \<Rightarrow> bool" where
  "sql_evolves A m \<longleftrightarrow> (\<forall>s. evolves A s (snd (m s)))"

named_theorems evolving \<open>rules for what a computation may do to the store\<close>

lemma sql_evolvesI: "(\<And>s. evolves A s (snd (m s))) \<Longrightarrow> sql_evolves A m"
  by (simp add: sql_evolves_def)

lemma next_fault_evolves: "evolves A s (snd (next_fault s))"
  using ev_fault [OF ev_refl, of A s "tl (faults s)"]
  by (auto simp: next_fault_def ev_refl split: list.split)

lemma query_evolves [evolving]: "sql_evolves A (query q)"
  by (rule sql_evolvesI) (use next_fault_evolves in \<open>auto simp: query_def split_beta\<close>)

lemma sql_return_evolves [evolving]: "sql_evolves A (sql_return x)"
  by (rule sql_evolvesI) (simp add: sql_return_def ev_refl)

lemma sql_bind_evolves [evolving]: "sql_evolves A m \<Longrightarrow> (\<And>x. sql_evolves A (f x)) \<Longrightarrow> sql_evolves A (sql_bind m f)"
proof (rule sql_evolvesI)
  fix s assume m: "sql_evolves A m" and f: "\<And>x. sql_evolves A (f x)"
  obtain r s' where r: "m s = (r, s')" by fastforce
  with m have "evolves A s s'" unfolding sql_evolves_def by (metis snd_conv)
  then show "evolves A s (snd (sql_bind m f s))"
    using f r by (auto simp: sql_bind_def sql_evolves_def split: sum.split intro: evolves_trans)
qed

lemma sql_mapM_evolves [evolving]: "(\<And>x. sql_evolves A (f x)) \<Longrightarrow> sql_evolves A (sql_mapM f xs)"
  by (induction xs) (simp_all add: sql_return_evolves sql_bind_evolves)

lemma state_query_evolves: "(\<And>s. \<exists>q. m s = query q s) \<Longrightarrow> sql_evolves A m"
  by (rule sql_evolvesI) (metis query_evolves sql_evolves_def)

lemma reads_evolve [evolving]:
  "sql_evolves A (NodeTrafficSeq i)" "sql_evolves A (GetSetting k)" "sql_evolves A (GetAdmin u)"
  "sql_evolves A ListAdmins" "sql_evolves A CountAdmins" "sql_evolves A (ListUserDevices i)"
  "sql_evolves A (DeviceCounts since)" "sql_evolves A (NodeClientCounts since)" "sql_evolves A (ListAudit l)"
  "sql_evolves A (ListNodes now)" "sql_evolves A (GetNode now i)" "sql_evolves A (GetNodeByToken now t)"
  "sql_evolves A (userNodeIDs i)" "sql_evolves A (GetUserByName u)" "sql_evolves A (UsersForNode i)"
  unfolding NodeTrafficSeq_def GetSetting_def ListAdmins_def CountAdmins_def ListUserDevices_def DeviceCounts_def
    NodeClientCounts_def ListAudit_def Let_def userNodeIDs_def GetUserByName_def UsersForNode_def
  by ((rule query_evolves) | (rule state_query_evolves, auto simp: GetAdmin_def ListNodes_def GetNode_def GetNodeByToken_def))+

lemma composite_reads_evolve [evolving]:
  "sql_evolves A ListUsers" "sql_evolves A (GetUser i)" "sql_evolves A (GetUserBySubToken t)"
  unfolding ListUsers_def GetUser_def GetUserBySubToken_def by (intro evolving)+

lemma reports_evolve [evolving]:
  "sql_evolves A (TrafficHistory now i d)" "sql_evolves A (FleetDaily now d)" "sql_evolves A (NodeDaily now i d)"
  "sql_evolves A (PeriodTotals now)" "sql_evolves A (RecentDailyAvg now d)" "sql_evolves A NodeTrafficTotals"
  "sql_evolves A UserTrafficTotals" "sql_evolves A (UserTrafficByNode i)"
  unfolding TrafficHistory_def FleetDaily_def NodeDaily_def PeriodTotals_def RecentDailyAvg_def NodeTrafficTotals_def
    UserTrafficTotals_def UserTrafficByNode_def Let_def
  by (intro evolving)+

lemma step_evolves: "A x \<Longrightarrow> (\<And>s. snd (m s) = store_step x s) \<Longrightarrow> sql_evolves A m"
  by (rule sql_evolvesI) (auto intro: ev_op [OF ev_refl])

lemma writes_evolve [evolving]:
  "A (OSetNodeTrafficSeq n q) \<Longrightarrow> sql_evolves A (SetNodeTrafficSeq n q)"
  "A (OSetSetting k v) \<Longrightarrow> sql_evolves A (SetSetting k v)"
  "A (OSetSecretSetting nc k v) \<Longrightarrow> sql_evolves A (SetSecretSetting nc k v)"
  "A (OEncryptExisting n1 n2 n3) \<Longrightarrow> sql_evolves A (encryptExisting n1 n2 n3)"
  "A (OEnsureAdmin u h) \<Longrightarrow> sql_evolves A (EnsureAdmin u h)"
  "A (OBumpAdminSessionEpoch u) \<Longrightarrow> sql_evolves A (BumpAdminSessionEpoch u)"
  "A (OBumpUserSessionEpoch i) \<Longrightarrow> sql_evolves A (BumpUserSessionEpoch i)"
  "A (OSetAdminTOTP nc u t e) \<Longrightarrow> sql_evolves A (SetAdminTOTP nc u t e)"
  "A (OCreateAdmin u h) \<Longrightarrow> sql_evolves A (CreateAdmin u h)"
  "A (ODeleteAdmin u) \<Longrightarrow> sql_evolves A (DeleteAdmin u)"
  "A (OSetAdminPassword u h) \<Longrightarrow> sql_evolves A (SetAdminPassword u h)"
  "A (OAddAudit now a b c) \<Longrightarrow> sql_evolves A (AddAudit now a b c)"
  "A (OCreateNode nc now nd) \<Longrightarrow> sql_evolves A (CreateNode nc now nd)"
  "A (OUpdateNode nc nd) \<Longrightarrow> sql_evolves A (UpdateNode nc nd)"
  "A (ODeleteNode i) \<Longrightarrow> sql_evolves A (DeleteNode i)"
  "A (OCreateUser now usr) \<Longrightarrow> sql_evolves A (CreateUser now usr)"
  "A (OUpdateUser usr) \<Longrightarrow> sql_evolves A (UpdateUser usr)"
  "A (OSetUserSubToken i t) \<Longrightarrow> sql_evolves A (SetUserSubToken i t)"
  "A (OSetUserUUID i v) \<Longrightarrow> sql_evolves A (SetUserUUID i v)"
  "A (ODeleteUser i) \<Longrightarrow> sql_evolves A (DeleteUser i)"
  "A (OSetUserNodes i ns) \<Longrightarrow> sql_evolves A (SetUserNodes i ns)"
  "A (OSetUserPortalPassword i h mc) \<Longrightarrow> sql_evolves A (SetUserPortalPassword i h mc)"
  "A (OChangeUserPortalPassword i h) \<Longrightarrow> sql_evolves A (ChangeUserPortalPassword i h)"
  "A (OResetUserTraffic i) \<Longrightarrow> sql_evolves A (ResetUserTraffic i)"
  by (erule step_evolves, simp)+

subsection \<open>Functions of the process\<close>

lemma on_store_evolves: "sql_evolves A m \<Longrightarrow> on_store m a = (r, a') \<Longrightarrow> evolves A (a_store a) (a_store a')"
  by (auto simp: on_store_def sql_evolves_def split: prod.splits) (metis snd_conv)

lemma do_store_evolves [evolving]: "sql_evolves A m \<Longrightarrow> evolves A (a_store a) (a_store (do_store m a))"
  by (simp add: do_store_def) (metis on_store_evolves prod.collapse)

lemma fold_evolves: "(\<And>x a. evolves A (a_store a) (a_store (f x a))) \<Longrightarrow> evolves A (a_store a) (a_store (fold f xs a))"
  by (induction xs arbitrary: a) (auto intro: ev_refl evolves_trans)

lemma trySend_store: "a_store (snd (trySend c m a)) = a_store a"
  by (auto simp: trySend_def split: option.split)

lemma PushConfig_evolves: "evolves A (a_store a) (a_store (snd (PushConfig now i a)))"
proof -
  obtain r b where b: "on_store (GetNode now i) a = (r, b)" by fastforce
  obtain q c where c: "on_store (UsersForNode i) b = (q, c)" by fastforce
  have ab: "evolves A (a_store a) (a_store b)" by (rule on_store_evolves [OF reads_evolve(11) b])
  moreover have "evolves A (a_store b) (a_store c)" by (rule on_store_evolves [OF reads_evolve(15) c])
  ultimately have "evolves A (a_store a) (a_store c)" by (metis evolves_trans)
  with ab b c show ?thesis by (auto simp: PushConfig_def trySend_store ev_refl split: option.split sum.split)
qed

lemma syncs_evolve [evolving]:
  "evolves A (a_store a) (a_store (syncNode H now i a))" "evolves A (a_store a) (a_store (forceSyncNode H now i a))"
proof -
  obtain r b where b: "on_store (UsersForNode i) a = (r, b)" by fastforce
  obtain sent c where c: "PushConfig now i b = (sent, c)" by fastforce
  from b have ab: "evolves A (a_store a) (a_store b)" by (rule on_store_evolves [OF reads_evolve(15)])
  moreover have "evolves A (a_store b) (a_store c)" using PushConfig_evolves [of A b now i] c by simp
  ultimately have ac: "evolves A (a_store a) (a_store c)" by (metis evolves_trans)
  show "evolves A (a_store a) (a_store (syncNode H now i a))" "evolves A (a_store a) (a_store (forceSyncNode H now i a))"
    using ab ac b c by (auto simp: syncNode_def forceSyncNode_def Let_def split: sum.split)
qed

lemma syncNodes_evolve [evolving]: "evolves A (a_store a) (a_store (fold (syncNode H now) ids a))"
  by (rule fold_evolves) (rule syncs_evolve)

lemma notifyAdmins_evolves [evolving]: "evolves A (a_store a) (a_store (notifyAdmins txt a))"
  by (simp add: notifyAdmins_def ev_refl)

end
