(* ===== verification/Limiter.thy ===== *)
theory Limiter
  imports Prelude
begin

section \<open>The login throttle (internal/panel/auth.go: limiter)\<close>

text \<open>
  A fixed-window failure counter per key. Go's map from keys to entries is an association list;
  instants and the window have one unit. The specification counts failures per key with no map to
  clean up; the implementation is shown to refine it, and the number of wrong guesses a guarded key
  admits is bounded from the specification alone.
\<close>

subsection \<open>The implementation\<close>

record lim_entry =
  le_count :: int
  le_reset :: int

record limiter =
  lim_entries :: "(string \<times> lim_entry) list"
  lim_max :: int
  lim_window :: int

definition newLimiter :: "int \<Rightarrow> int \<Rightarrow> limiter" where
  "newLimiter mx window = \<lparr>lim_entries = [], lim_max = mx, lim_window = window\<rparr>"

definition blocked :: "int \<Rightarrow> string \<Rightarrow> limiter \<Rightarrow> bool \<times> limiter" where
  "blocked now key l =
     (case map_of (lim_entries l) key of
        None \<Rightarrow> (False, l)
      | Some e \<Rightarrow>
          if now > le_reset e then (False, l\<lparr>lim_entries := AList.delete key (lim_entries l)\<rparr>)
          else (le_count e \<ge> lim_max l, l))"

definition sweep :: "int \<Rightarrow> (string \<times> lim_entry) list \<Rightarrow> (string \<times> lim_entry) list" where
  "sweep now es = (if length es > 4096 then filter (\<lambda>(k, v). \<not> now > le_reset v) es else es)"

definition fail :: "int \<Rightarrow> string \<Rightarrow> limiter \<Rightarrow> limiter" where
  "fail now key l =
     (let e = (case map_of (lim_entries l) key of
                 None \<Rightarrow> \<lparr>le_count = 0, le_reset = now + lim_window l\<rparr>
               | Some e \<Rightarrow> if now > le_reset e then \<lparr>le_count = 0, le_reset = now + lim_window l\<rparr> else e)
      in l\<lparr>lim_entries := sweep now (AList.update key (e\<lparr>le_count := le_count e + 1\<rparr>) (lim_entries l))\<rparr>)"

definition lim_clear :: "string \<Rightarrow> limiter \<Rightarrow> limiter" where
  "lim_clear key l = l\<lparr>lim_entries := AList.delete key (lim_entries l)\<rparr>"

subsection \<open>The specification\<close>

text \<open>Per key, the end of the window of the last failures and how many fell into it.\<close>

type_synonym windows = "string \<Rightarrow> (int \<times> int) option"

definition spec_blocked :: "int \<Rightarrow> int \<Rightarrow> string \<Rightarrow> windows \<Rightarrow> bool" where
  "spec_blocked mx now key w = (case w key of None \<Rightarrow> False | Some (r, c) \<Rightarrow> now \<le> r \<and> mx \<le> c)"

definition spec_fail :: "int \<Rightarrow> int \<Rightarrow> string \<Rightarrow> windows \<Rightarrow> windows" where
  "spec_fail window now key w =
     w(key := Some (case w key of None \<Rightarrow> (now + window, 1)
                    | Some (r, c) \<Rightarrow> if r < now then (now + window, 1) else (r, c + 1)))"

definition spec_clear :: "string \<Rightarrow> windows \<Rightarrow> windows" where
  "spec_clear key w = w(key := None)"

subsection \<open>Refinement\<close>

text \<open>
  From instant \<open>now\<close> on, the map shows what the specification does, except that windows that have
  ended may be missing.
\<close>

definition shows_windows :: "int \<Rightarrow> limiter \<Rightarrow> windows \<Rightarrow> bool" where
  "shows_windows now l w \<longleftrightarrow> keys_distinct (lim_entries l) \<and>
     (\<forall>k r c. map_of (lim_entries l) k = None \<longrightarrow> w k = Some (r, c) \<longrightarrow> r < now) \<and>
     (\<forall>k e. map_of (lim_entries l) k = Some e \<longrightarrow> w k = Some (le_reset e, le_count e))"

lemma showsD:
  assumes "shows_windows now l w"
  shows "map_of (lim_entries l) k = None \<Longrightarrow> w k = Some (r, c) \<Longrightarrow> r < now"
    "map_of (lim_entries l) k = Some e \<Longrightarrow> w k = Some (le_reset e, le_count e)"
    "keys_distinct (lim_entries l)"
  using assms unfolding shows_windows_def by blast+

lemma showsI:
  assumes "keys_distinct (lim_entries l)"
    and "\<And>k r c. map_of (lim_entries l) k = None \<Longrightarrow> w k = Some (r, c) \<Longrightarrow> r < now"
    and "\<And>k e. map_of (lim_entries l) k = Some e \<Longrightarrow> w k = Some (le_reset e, le_count e)"
  shows "shows_windows now l w"
  using assms unfolding shows_windows_def by blast

lemma shows_later: "shows_windows now l w \<Longrightarrow> now \<le> later \<Longrightarrow> shows_windows later l w"
  by (rule showsI) (auto dest: showsD)

lemma shows_empty: "shows_windows now (newLimiter mx window) (\<lambda>_. None)"
  by (simp add: shows_windows_def newLimiter_def)

lemma blocked_refines:
  assumes "shows_windows now l w"
  shows "fst (blocked now k l) = spec_blocked (lim_max l) now k w" "shows_windows now (snd (blocked now k l)) w"
proof -
  show "fst (blocked now k l) = spec_blocked (lim_max l) now k w"
  proof (cases "map_of (lim_entries l) k")
    case None
    with showsD(1) [OF assms None] show ?thesis by (auto simp: blocked_def spec_blocked_def split: option.split)
  next
    case (Some e)
    with showsD(2) [OF assms Some] show ?thesis by (auto simp: blocked_def spec_blocked_def)
  qed
  show "shows_windows now (snd (blocked now k l)) w"
  proof (rule showsI)
    show "keys_distinct (lim_entries (snd (blocked now k l)))"
      using showsD(3) [OF assms] by (auto simp: blocked_def keys_distinct_delete split: option.split)
    fix j r c e
    show "r < now" if "map_of (lim_entries (snd (blocked now k l))) j = None" "w j = Some (r, c)"
      using that showsD(1,2) [OF assms, of j]
      by (cases "map_of (lim_entries l) j") (auto simp: blocked_def delete_conv' split: option.splits if_splits)
    show "w j = Some (le_reset e, le_count e)" if "map_of (lim_entries (snd (blocked now k l))) j = Some e"
      using that showsD(2) [OF assms, of j] by (auto simp: blocked_def delete_conv' restrict_map_def split: option.splits if_splits)
  qed
qed

lemma map_of_filter_distinct:
  "keys_distinct es \<Longrightarrow> map_of (filter (\<lambda>(k, v). P v) es) k =
     (case map_of es k of None \<Rightarrow> None | Some e \<Rightarrow> if P e then Some e else None)"
proof (induction es)
  case (Cons p es)
  then show ?case
    by (cases p) (force simp: image_iff dest: map_of_SomeD split: option.split)
qed simp

lemma map_of_sweep:
  "keys_distinct es \<Longrightarrow> map_of (sweep now es) k =
     (case map_of es k of None \<Rightarrow> None | Some e \<Rightarrow> if length es > 4096 \<and> now > le_reset e then None else Some e)"
  by (simp add: sweep_def map_of_filter_distinct split: option.split)

lemma sweep_distinct: "keys_distinct es \<Longrightarrow> keys_distinct (sweep now es)"
  by (simp add: sweep_def distinct_map_filter)

lemma fail_refines:
  assumes s: "shows_windows now l w" and pos: "0 \<le> lim_window l"
  shows "shows_windows now (fail now k l) (spec_fail (lim_window l) now k w)"
proof -
  let ?e = "case map_of (lim_entries l) k of None \<Rightarrow> \<lparr>le_count = 0, le_reset = now + lim_window l\<rparr>
      | Some e \<Rightarrow> if now > le_reset e then \<lparr>le_count = 0, le_reset = now + lim_window l\<rparr> else e"
  let ?n = "?e\<lparr>le_count := le_count ?e + 1\<rparr>"
  have d: "keys_distinct (AList.update k ?n (lim_entries l))"
    by (rule keys_distinct_update) (rule showsD(3) [OF s])
  have new: "spec_fail (lim_window l) now k w k = Some (le_reset ?n, le_count ?n)"
    using showsD(1,2) [OF s, of k] by (fastforce simp: spec_fail_def split: option.splits)
  have live: "\<not> now > le_reset ?n" using pos by (auto split: option.splits)
  have entries: "lim_entries (fail now k l) = sweep now (AList.update k ?n (lim_entries l))"
    by (simp add: fail_def Let_def)
  show ?thesis
  proof (rule showsI)
    show "keys_distinct (lim_entries (fail now k l))" unfolding entries by (rule sweep_distinct [OF d])
    fix j r c e
    show "r < now" if "map_of (lim_entries (fail now k l)) j = None" "spec_fail (lim_window l) now k w j = Some (r, c)"
    proof (cases "j = k")
      case True
      with that(1) live show ?thesis by (simp add: entries map_of_sweep [OF d] split: if_splits)
    next
      case False
      then have w: "w j = Some (r, c)" using that(2) by (simp add: spec_fail_def)
      show ?thesis
      proof (cases "map_of (lim_entries l) j")
        case None
        with showsD(1) [OF s] w show ?thesis by blast
      next
        case (Some f)
        with that(1) False have "now > le_reset f" by (simp add: entries map_of_sweep [OF d] split: if_splits)
        with showsD(2) [OF s Some] w show ?thesis by simp
      qed
    qed
    show "spec_fail (lim_window l) now k w j = Some (le_reset e, le_count e)" if "map_of (lim_entries (fail now k l)) j = Some e"
    proof (cases "j = k")
      case True
      with that have "e = ?n" by (simp add: entries map_of_sweep [OF d] split: if_splits)
      with new True show ?thesis by simp
    next
      case False
      with that have "map_of (lim_entries l) j = Some e"
        by (auto simp: entries map_of_sweep [OF d] split: if_splits option.splits)
      with showsD(2) [OF s] False show ?thesis by (simp add: spec_fail_def)
    qed
  qed
qed

lemma clear_refines: "shows_windows now l w \<Longrightarrow> shows_windows now (lim_clear k l) (spec_clear k w)"
  by (rule showsI) (auto simp: lim_clear_def spec_clear_def keys_distinct_delete delete_conv' restrict_map_def
      dest: showsD split: if_splits)

subsection \<open>Guessing\<close>

text \<open>
  A history of calls, each with its instant. It is \<open>guarded\<close> for a key when instants do not go back,
  the key's counter is not cleared, and a failure of the key is recorded only when the check at
  that instant let the attempt through, which is how the login handlers use the throttle.
\<close>

datatype lim_op = LBlocked string | LFail string | LClear string

fun lim_do :: "int \<Rightarrow> lim_op \<Rightarrow> limiter \<Rightarrow> limiter" where
  "lim_do now (LBlocked k) l = snd (blocked now k l)"
| "lim_do now (LFail k) l = fail now k l"
| "lim_do now (LClear k) l = lim_clear k l"

fun guarded :: "string \<Rightarrow> int \<Rightarrow> (int \<times> lim_op) list \<Rightarrow> limiter \<Rightarrow> bool" where
  "guarded k t [] l = True"
| "guarded k t ((now, a) # es) l \<longleftrightarrow>
     t \<le> now \<and> a \<noteq> LClear k \<and> (a = LFail k \<longrightarrow> \<not> fst (blocked now k l)) \<and> guarded k now es (lim_do now a l)"

definition failures :: "string \<Rightarrow> (int \<times> lim_op) list \<Rightarrow> int" where
  "failures k es = int (length (filter (\<lambda>(t, a). a = LFail k) es))"

definition last_instant :: "int \<Rightarrow> (int \<times> lim_op) list \<Rightarrow> int" where
  "last_instant t es = (if es = [] then t else fst (last es))"

text \<open>What the specification knows of a key after \<open>n\<close> failures, the first no earlier than \<open>t0\<close>.\<close>

definition paced :: "int \<Rightarrow> int \<Rightarrow> int \<Rightarrow> int \<Rightarrow> (int \<times> int) option \<Rightarrow> int \<Rightarrow> bool" where
  "paced mx window t0 now x n =
     (case x of None \<Rightarrow> n = 0
      | Some (r, c) \<Rightarrow> c \<le> mx \<and> r \<le> now + window \<and> n \<le> mx * ((r - t0) div window - 1) + c)"

lemma paced_later: "paced mx window t0 now x n \<Longrightarrow> now \<le> later \<Longrightarrow> paced mx window t0 later x n"
  by (auto simp: paced_def split: option.splits)

lemma div_step: "0 < window \<Longrightarrow> (x + window) div window = x div window + (1 :: int)"
  by (rule div_add_self2) simp

lemma paced_fail:
  assumes pos: "0 < window" "1 \<le> mx" and t: "t0 \<le> now" and p: "paced mx window t0 now (w k) n"
    and free: "\<not> spec_blocked mx now k w"
  shows "paced mx window t0 now (spec_fail window now k w k) (n + 1)"
proof (cases "w k")
  case None
  have "0 \<le> (now - t0) div window" using t pos by (simp add: pos_imp_zdiv_nonneg_iff)
  moreover have "(now + window - t0) div window = (now - t0) div window + 1"
    using div_step [OF pos(1), of "now - t0"] by (simp add: algebra_simps)
  ultimately show ?thesis using None p pos by (simp add: paced_def spec_fail_def)
next
  case (Some x)
  obtain r c where x: "x = (r, c)" by (cases x) auto
  with Some p have p: "c \<le> mx" "r \<le> now + window" "n \<le> mx * ((r - t0) div window - 1) + c"
    by (auto simp: paced_def)
  show ?thesis
  proof (cases "r < now")
    case True
    have "(r - t0) div window \<le> (now - t0) div window" using True pos by (intro zdiv_mono1) auto
    then have "mx * ((r - t0) div window) \<le> mx * ((now - t0) div window)" using pos by (intro mult_left_mono) auto
    moreover have "(now + window - t0) div window = (now - t0) div window + 1"
      using div_step [OF pos(1), of "now - t0"] by (simp add: algebra_simps)
    ultimately have "n + 1 \<le> mx * ((now + window - t0) div window - 1) + 1"
      using p(1,3) by (simp only: right_diff_distrib distrib_left mult_1_right)
    then show ?thesis using Some x True pos by (simp add: paced_def spec_fail_def)
  next
    case False
    with free Some x p show ?thesis by (simp add: paced_def spec_fail_def spec_blocked_def)
  qed
qed

lemma guarded_paced:
  "guarded k t es l \<Longrightarrow> 0 < lim_window l \<Longrightarrow> 1 \<le> lim_max l \<Longrightarrow> t0 \<le> t \<Longrightarrow> shows_windows t l w \<Longrightarrow>
   paced (lim_max l) (lim_window l) t0 t (w k) n \<Longrightarrow>
   \<exists>w'. paced (lim_max l) (lim_window l) t0 (last_instant t es) (w' k) (n + failures k es)"
proof (induction es arbitrary: t l w n)
  case Nil
  then show ?case by (auto simp: failures_def last_instant_def)
next
  case (Cons e es)
  obtain now a where e: "e = (now, a)" by (cases e) auto
  with Cons.prems have g: "t \<le> now" "a \<noteq> LClear k" "a = LFail k \<longrightarrow> \<not> fst (blocked now k l)" "guarded k now es (lim_do now a l)"
    by auto
  have s: "shows_windows now l w" by (rule shows_later [OF Cons.prems(5) g(1)])
  have p: "paced (lim_max l) (lim_window l) t0 now (w k) n" by (rule paced_later [OF Cons.prems(6) g(1)])
  have cfg: "lim_max (lim_do now a l) = lim_max l" "lim_window (lim_do now a l) = lim_window l"
    by (cases a; simp add: blocked_def fail_def lim_clear_def Let_def split: option.split)+
  have "\<exists>w1. shows_windows now (lim_do now a l) w1 \<and>
      paced (lim_max l) (lim_window l) t0 now (w1 k) (n + (if a = LFail k then 1 else 0))"
  proof (cases a)
    case (LBlocked j)
    with blocked_refines(2) [OF s, of j] p show ?thesis by auto
  next
    case (LFail j)
    have r: "shows_windows now (lim_do now a l) (spec_fail (lim_window l) now j w)"
      using fail_refines [OF s, of j] Cons.prems(2) by (simp add: LFail)
    show ?thesis
    proof (cases "j = k")
      case True
      then have "\<not> spec_blocked (lim_max l) now k w" using g(3) LFail blocked_refines(1) [OF s, of k] by simp
      with paced_fail [of "lim_window l" "lim_max l" t0 now w k n] Cons.prems(2-4) g(1) p r LFail True
      show ?thesis by auto
    next
      case False
      with r p LFail show ?thesis by (intro exI [of _ "spec_fail (lim_window l) now j w"]) (simp add: spec_fail_def)
    qed
  next
    case (LClear j)
    with clear_refines [OF s, of j] g(2) p show ?thesis
      by (intro exI [of _ "spec_clear j w"]) (auto simp: spec_clear_def)
  qed
  then obtain w1 where w1: "shows_windows now (lim_do now a l) w1"
    "paced (lim_max l) (lim_window l) t0 now (w1 k) (n + (if a = LFail k then 1 else 0))" by blast
  have "last_instant t (e # es) = last_instant now es" by (simp add: last_instant_def e)
  moreover have "failures k (e # es) = (if a = LFail k then 1 else 0) + failures k es" by (simp add: failures_def e)
  ultimately show ?case
    using Cons.IH [OF g(4), unfolded cfg, OF Cons.prems(2,3) _ w1] Cons.prems(4) g(1) by (simp add: add.assoc)
qed

lemma guarded_instants: "guarded k t es l \<Longrightarrow> t \<le> last_instant t es"
  by (induction k t es l rule: guarded.induct) (auto simp: last_instant_def split: if_splits)

lemma paced_bound:
  assumes "paced mx window t0 T x n" "0 < window" "1 \<le> mx" "t0 \<le> T"
  shows "n \<le> mx * ((T - t0) div window + 1)"
proof -
  have pos: "0 \<le> (T - t0) div window" using assms(2,4) by (simp add: pos_imp_zdiv_nonneg_iff)
  from assms(1) consider "n = 0" | r c where "c \<le> mx" "r \<le> T + window" "n \<le> mx * ((r - t0) div window - 1) + c"
    by (auto simp: paced_def split: option.splits)
  then show ?thesis
  proof cases
    case 1
    with pos assms(3) show ?thesis by simp
  next
    case 2
    have "(r - t0) div window \<le> (T - t0 + window) div window" using 2(2) assms(2) by (intro zdiv_mono1) auto
    then have "(r - t0) div window - 1 \<le> (T - t0) div window" using div_step [OF assms(2), of "T - t0"] by simp
    then have "mx * ((r - t0) div window - 1) \<le> mx * ((T - t0) div window)" using assms(3) by (intro mult_left_mono) auto
    with 2 show ?thesis by (simp add: distrib_left)
  qed
qed

text \<open>The throttle bounds guessing. However calls for a key are mixed with calls for any number of other
  keys (and with the sweep that keeps the map small), if each failure of the key is preceded by a
  check that let it through, the number of failures from an instant on is at most the allowance for
  every window begun since: \<open>max\<close> per window, without a way to get more by waiting for an edge.\<close>

lemma guess_bound:
  assumes "guarded k t0 es (newLimiter mx window)" and "0 < window" and "1 \<le> mx"
  shows "failures k es \<le> mx * ((last_instant t0 es - t0) div window + 1)"
proof -
  have "paced mx window t0 t0 None 0" by (simp add: paced_def)
  with guarded_paced [OF assms(1), of t0 "\<lambda>_. None" 0] assms(2,3) obtain w' where
    "paced mx window t0 (last_instant t0 es) (w' k) (failures k es)"
    using shows_empty by (auto simp: newLimiter_def)
  from paced_bound [OF this assms(2,3) guarded_instants [OF assms(1)]] show ?thesis .
qed

text \<open>Two failures fit into a window of 300; a third attempt is refused until the window has ended.\<close>

lemma two_fit:
  "failures ''u'' [(0, LFail ''u''), (10, LFail ''u''), (20, LBlocked ''u''), (301, LFail ''u'')] \<le> 2 * (301 div 300 + 1) \<and>
   fst (blocked 20 ''u'' (lim_do 10 (LFail ''u'') (lim_do 0 (LFail ''u'') (newLimiter 2 300))))"
proof -
  have "guarded ''u'' 0 [(0, LFail ''u''), (10, LFail ''u''), (20, LBlocked ''u''), (301, LFail ''u'')] (newLimiter 2 300)"
    by code_simp
  from guess_bound [OF this] have "failures ''u'' [(0, LFail ''u''), (10, LFail ''u''), (20, LBlocked ''u''), (301, LFail ''u'')] \<le> 2 * (301 div 300 + 1)"
    by (simp add: last_instant_def)
  then show ?thesis by (intro conjI) (assumption, code_simp)
qed

end
