(* ===== verification/Http.thy ===== *)
theory Http
  imports Evolve Limiter Validate Codecs
begin

section \<open>The panel's HTTP layer: process, requests, responses (internal/panel/app.go, api.go, settings.go)\<close>

text \<open>
  \<open>panel\<close> is the \<^verbatim>\<open>App\<close> with what the handlers use beside the hub's state: the configuration, the login
  throttle, the settings editable at run time and the running bot. A handler is a function from the
  panel to a response and the panel after it. What a handler asks of its surroundings (the clock,
  randomness, HMAC, bcrypt, SHA-256, the Unicode tables, the texts of database errors) is one
  record \<open>world\<close>; a request is served at one instant. A body is the decoded struct, \<open>None\<close> where
  \<^verbatim>\<open>json.Decode\<close> fails; a pointer field of a body is an option.
\<close>

subsection \<open>Surroundings\<close>

record world =
  w_nanos :: int
  w_hmac :: "string \<Rightarrow> string \<Rightarrow> string" \<comment> \<open>HMAC-SHA256 of key and message\<close>
  w_hmac1 :: "string \<Rightarrow> string \<Rightarrow> string" \<comment> \<open>HMAC-SHA1\<close>
  w_sha :: "string \<Rightarrow> string" \<comment> \<open>SHA-256, in hexadecimal\<close>
  w_compare :: "string \<Rightarrow> string \<Rightarrow> bool" \<comment> \<open>bcrypt, hash and password\<close>
  w_bcrypt :: "string \<Rightarrow> string + string" \<comment> \<open>an error text, or the hash\<close>
  w_err :: "sql_err \<Rightarrow> string"
  w_unicode :: unicode
  w_draw :: "nat \<Rightarrow> nat \<Rightarrow> string" \<comment> \<open>the i-th draw of n random bytes\<close>
  w_qr :: "string \<Rightarrow> bool" \<comment> \<open>whether the QR encoder accepts a text\<close>
  w_range :: "int list \<Rightarrow> int list" \<comment> \<open>the order in which Go ranges over a map with these keys\<close>
  w_float :: "string \<Rightarrow> rat option" \<comment> \<open>strconv.ParseFloat\<close>
  w_x25519 :: "string \<Rightarrow> string + string" \<comment> \<open>an error text, or scalar times base point\<close>

definition w_now :: "world \<Rightarrow> int" where
  "w_now w = w_nanos w div 10 ^ 9"

subsection \<open>The process\<close>

record config =
  Listen :: string
  DBPath :: string
  JWTSecret :: string
  AdminUser :: string
  AdminPass :: string
  PublicURL :: string
  CookieSecure :: bool
  AllowWeakPass :: bool
  BackupDir :: string
  BackupKeep :: int
  TelegramToken :: string
  TelegramAdms :: "int list"

record live_settings =
  ls_publicURL :: string
  ls_cookieSecure :: string
  ls_backupKeep :: int
  ls_clashTemplate :: string

record panel =
  pn_cfg :: config
  pn_app :: app
  pn_lim :: limiter
  pn_set :: live_settings
  pn_bot :: "string option" \<comment> \<open>the token the bot loop runs with\<close>

definition publicURL :: "panel \<Rightarrow> string" where
  "publicURL p = ls_publicURL (pn_set p)"

definition clashTemplate :: "panel \<Rightarrow> string" where
  "clashTemplate p = ls_clashTemplate (pn_set p)"

definition backupKeep :: "panel \<Rightarrow> int" where
  "backupKeep p = ls_backupKeep (pn_set p)"

text \<open>The tri-state mode of the cookies' Secure flag.\<close>

definition cookieSecure :: "panel \<Rightarrow> bool" where
  "cookieSecure p =
     (if ls_cookieSecure (pn_set p) = ''on'' then True
      else if ls_cookieSecure (pn_set p) = ''off'' then False
      else HasPrefix (ToLower (publicURL p)) ''https://'')"

subsection \<open>Requests\<close>

record request =
  rq_cookies :: "(string \<times> string) list"
  rq_remote :: string
  rq_path :: "(string \<times> string) list"
  rq_query :: "(string \<times> string) list"

definition Cookie :: "request \<Rightarrow> string \<Rightarrow> string option" where
  "Cookie r name = map_of (rq_cookies r) name"

definition PathValue :: "request \<Rightarrow> string \<Rightarrow> string" where
  "PathValue r k = (case map_of (rq_path r) k of None \<Rightarrow> [] | Some v \<Rightarrow> v)"

definition Query :: "request \<Rightarrow> string \<Rightarrow> string" where
  "Query r k = (case map_of (rq_query r) k of None \<Rightarrow> [] | Some v \<Rightarrow> v)"

definition pathID :: "request \<Rightarrow> int option" where
  "pathID r = ParseInt64 (PathValue r ''id'')"

text \<open>\<^verbatim>\<open>net.SplitHostPort\<close>, the host part; \<open>None\<close> is its error.\<close>

definition last_index :: "string \<Rightarrow> char \<Rightarrow> nat option" where
  "last_index s c = map_option (\<lambda>i. length s - 1 - i) (index_in (rev s) c)"

definition SplitHost :: "string \<Rightarrow> string option" where
  "SplitHost hp =
     (case last_index hp (CHR '':'') of
        None \<Rightarrow> None
      | Some i \<Rightarrow>
          if hd hp = CHR ''['' then
            (case index_in hp (CHR '']'') of
               None \<Rightarrow> None
             | Some e \<Rightarrow>
                 if e + 1 \<noteq> i \<or> CHR ''['' \<in> set (drop 1 hp) \<or> CHR '']'' \<in> set (drop (e + 1) hp) then None
                 else Some (take (e - 1) (drop 1 hp)))
          else if CHR '':'' \<in> set (take i hp) \<or> CHR ''['' \<in> set hp \<or> CHR '']'' \<in> set hp then None
          else Some (take i hp))"

definition clientIP :: "request \<Rightarrow> string" where
  "clientIP r = (case SplitHost (rq_remote r) of None \<Rightarrow> rq_remote r | Some host \<Rightarrow> host)"

text \<open>The \<^verbatim>\<open>days\<close> parameter of the traffic charts.\<close>

definition query_days :: "request \<Rightarrow> int" where
  "query_days r =
     (let q = Query r ''days'' in
      if q \<noteq> [] then case ParseInt64 q of Some n \<Rightarrow> if n > 0 \<and> n \<le> 365 then n else 30 | None \<Rightarrow> 30
      else 30)"

lemma query_days_bounds: "1 \<le> query_days r \<and> query_days r \<le> 365"
  by (auto simp: query_days_def Let_def split: option.split)

subsection \<open>Responses\<close>

datatype body = JsonBody json | TextBody string | PngBody string | SnapshotBody db

record http_cookie =
  ck_Name :: string
  ck_Value :: string
  ck_HttpOnly :: bool
  ck_Secure :: bool
  ck_MaxAge :: int

record response =
  rs_code :: int
  rs_header :: "(string \<times> string) list"
  rs_cookies :: "http_cookie list"
  rs_body :: body

type_synonym handler = "panel \<Rightarrow> response \<times> panel"

definition writeJSON :: "int \<Rightarrow> json \<Rightarrow> response" where
  "writeJSON code v = \<lparr>rs_code = code, rs_header = [(''Content-Type'', ''application/json'')], rs_cookies = [],
     rs_body = JsonBody v\<rparr>"

definition writeErr :: "int \<Rightarrow> string \<Rightarrow> response" where
  "writeErr code msg = writeJSON code (jobj [(''error'', JStr msg)])"

definition httpError :: "string \<Rightarrow> int \<Rightarrow> response" where
  "httpError msg code = \<lparr>rs_code = code, rs_header = [(''Content-Type'', ''text/plain; charset=utf-8'')],
     rs_cookies = [], rs_body = TextBody (msg @ [CHR 0x0A])\<rparr>"

definition png :: "string \<Rightarrow> response" where
  "png target = \<lparr>rs_code = 200, rs_header = [(''Content-Type'', ''image/png''), (''Cache-Control'', ''no-store'')],
     rs_cookies = [], rs_body = PngBody target\<rparr>"

definition with_cookie :: "http_cookie \<Rightarrow> response \<Rightarrow> response" where
  "with_cookie c r = r\<lparr>rs_cookies := rs_cookies r @ [c]\<rparr>"

definition session_cookie :: "string \<Rightarrow> string \<Rightarrow> int \<Rightarrow> panel \<Rightarrow> http_cookie" where
  "session_cookie name v age p =
     \<lparr>ck_Name = name, ck_Value = v, ck_HttpOnly = True, ck_Secure = cookieSecure p, ck_MaxAge = age\<rparr>"

definition ok_json :: json where
  "ok_json = jobj [(''ok'', JBool True)]"

subsection \<open>Calls from a handler\<close>

text \<open>A store call and what follows its error and its result; a store call whose error is dropped.\<close>

definition db_case :: "'a sql \<Rightarrow> (sql_err \<Rightarrow> panel \<Rightarrow> 'b \<times> panel) \<Rightarrow> ('a \<Rightarrow> panel \<Rightarrow> 'b \<times> panel) \<Rightarrow> panel \<Rightarrow> 'b \<times> panel" where
  "db_case m bad good p =
     (case on_store m (pn_app p) of
        (Inl e, a) \<Rightarrow> bad e (p\<lparr>pn_app := a\<rparr>)
      | (Inr x, a) \<Rightarrow> good x (p\<lparr>pn_app := a\<rparr>))"

definition db_do :: "'a sql \<Rightarrow> panel \<Rightarrow> panel" where
  "db_do m p = p\<lparr>pn_app := do_store m (pn_app p)\<rparr>"

definition on_app :: "(app \<Rightarrow> app) \<Rightarrow> panel \<Rightarrow> panel" where
  "on_app f p = p\<lparr>pn_app := f (pn_app p)\<rparr>"

definition on_lim :: "(limiter \<Rightarrow> limiter) \<Rightarrow> panel \<Rightarrow> panel" where
  "on_lim f p = p\<lparr>pn_lim := f (pn_lim p)\<rparr>"

text \<open>\<^verbatim>\<open>a.loginLimiter.blocked(key)\<close> and \<^verbatim>\<open>.fail(key)\<close>.\<close>

definition lim_blocked :: "world \<Rightarrow> string \<Rightarrow> panel \<Rightarrow> bool \<times> panel" where
  "lim_blocked w key p = (let (b, l) = blocked (w_nanos w) key (pn_lim p) in (b, p\<lparr>pn_lim := l\<rparr>))"

definition lim_fail :: "world \<Rightarrow> string \<Rightarrow> panel \<Rightarrow> panel" where
  "lim_fail w key = on_lim (fail (w_nanos w) key)"

definition lim_reset :: "string \<Rightarrow> panel \<Rightarrow> panel" where
  "lim_reset key = on_lim (lim_clear key)"

definition reply :: "response \<Rightarrow> handler" where
  "reply r p = (r, p)"

text \<open>\<^verbatim>\<open>writeErr(w, 500, err.Error())\<close>.\<close>

definition fail500 :: "world \<Rightarrow> sql_err \<Rightarrow> handler" where
  "fail500 w e = reply (writeErr 500 (w_err w e))"

definition sync_nodes :: "world \<Rightarrow> int list \<Rightarrow> panel \<Rightarrow> panel" where
  "sync_nodes w ids = on_app (fold (syncNode (w_sha w) (w_now w)) ids)"

text \<open>
  A step that yields a value for the rest, a step that only changes the panel, and a look at the
  panel as it is.
\<close>

definition ask :: "(panel \<Rightarrow> 'a \<times> panel) \<Rightarrow> ('a \<Rightarrow> panel \<Rightarrow> 'b \<times> panel) \<Rightarrow> panel \<Rightarrow> 'b \<times> panel" where
  "ask f g p = (let (x, q) = f p in g x q)"

definition seq :: "(panel \<Rightarrow> panel) \<Rightarrow> (panel \<Rightarrow> 'b \<times> panel) \<Rightarrow> panel \<Rightarrow> 'b \<times> panel" where
  "seq f g p = g (f p)"

definition peek :: "(panel \<Rightarrow> panel \<Rightarrow> 'b \<times> panel) \<Rightarrow> panel \<Rightarrow> 'b \<times> panel" where
  "peek h p = h p p"

definition give :: "'a \<Rightarrow> panel \<Rightarrow> 'a \<times> panel" where
  "give x p = (x, p)"

subsection \<open>Confinement of handlers\<close>

abbreviation db_of :: "panel \<Rightarrow> store" where
  "db_of p \<equiv> a_store (pn_app p)"

definition confined :: "(store_op \<Rightarrow> bool) \<Rightarrow> (panel \<Rightarrow> 'b \<times> panel) \<Rightarrow> bool" where
  "confined A h \<longleftrightarrow> (\<forall>p. evolves A (db_of p) (db_of (snd (h p))))"

definition confined_upd :: "(store_op \<Rightarrow> bool) \<Rightarrow> (panel \<Rightarrow> panel) \<Rightarrow> bool" where
  "confined_upd A f \<longleftrightarrow> (\<forall>p. evolves A (db_of p) (db_of (f p)))"

lemma confinedI: "(\<And>p. evolves A (db_of p) (db_of (snd (h p)))) \<Longrightarrow> confined A h"
  by (simp add: confined_def)

lemma confinedD: "confined A h \<Longrightarrow> evolves A (db_of p) (db_of (snd (h p)))"
  by (simp add: confined_def)

lemma confined_weaken: "confined A h \<Longrightarrow> (\<And>x. A x \<Longrightarrow> B x) \<Longrightarrow> confined B h"
  by (metis confined_def evolves_mono)

lemma confined_same: "(\<And>p. db_of (snd (h p)) = db_of p) \<Longrightarrow> confined A h"
  by (simp add: confined_def ev_refl)

lemma reply_confined [evolving]: "confined A (reply r)" "confined A (give x)"
  by (simp_all add: confined_same reply_def give_def)

lemma fail500_confined [evolving]: "confined A (fail500 w e)"
  by (simp add: fail500_def reply_confined)

lemma db_case_confined [evolving]:
  assumes "sql_evolves A m" "\<And>e. confined A (bad e)" "\<And>x. confined A (good x)"
  shows "confined A (db_case m bad good)"
proof (rule confinedI)
  fix p :: panel
  obtain r a where r: "on_store m (pn_app p) = (r, a)" by fastforce
  with assms(1) have "evolves A (db_of p) (a_store a)" by (rule on_store_evolves)
  moreover have "evolves A (a_store a) (db_of (snd (bad e (p\<lparr>pn_app := a\<rparr>))))"
    "evolves A (a_store a) (db_of (snd (good x (p\<lparr>pn_app := a\<rparr>))))" for e x
    using confinedD [OF assms(2), of "p\<lparr>pn_app := a\<rparr>"] confinedD [OF assms(3), of "p\<lparr>pn_app := a\<rparr>"] by auto
  ultimately show "evolves A (db_of p) (db_of (snd (db_case m bad good p)))"
    using r by (auto simp: db_case_def split: sum.split intro: evolves_trans)
qed

lemma ask_confined [evolving]: "confined A f \<Longrightarrow> (\<And>x. confined A (g x)) \<Longrightarrow> confined A (ask f g)"
  by (rule confinedI) (auto simp: ask_def confined_def split: prod.split intro: evolves_trans, metis evolves_trans snd_conv)

lemma seq_confined [evolving]: "confined_upd A f \<Longrightarrow> confined A g \<Longrightarrow> confined A (seq f g)"
  by (simp add: confined_def confined_upd_def seq_def) (metis evolves_trans)

lemma upd_confined [evolving]:
  "sql_evolves A m \<Longrightarrow> confined_upd A (db_do m)" "confined_upd A (sync_nodes w ids)" "confined_upd A (on_lim g)"
  "confined_upd A (lim_fail w key)" "confined_upd A (lim_reset key)" "confined A (lim_blocked w key)"
  "confined_upd A (pn_set_update s)" "confined_upd A (pn_bot_update b)"
  "(\<And>a. evolves A (a_store a) (a_store (k a))) \<Longrightarrow> confined_upd A (on_app k)"
  by (simp_all add: confined_upd_def db_do_def do_store_evolves sync_nodes_def on_app_def syncNodes_evolve on_lim_def
      ev_refl lim_fail_def lim_reset_def lim_blocked_def confined_def split_beta)

lemma cond_confined [evolving]:
  "(c \<Longrightarrow> confined A h) \<Longrightarrow> (\<not> c \<Longrightarrow> confined A k) \<Longrightarrow> confined A (if c then h else k)"
  "(c \<Longrightarrow> confined_upd A u) \<Longrightarrow> (\<not> c \<Longrightarrow> confined_upd A v) \<Longrightarrow> confined_upd A (if c then u else v)"
  by auto

lemma option_confined [evolving]:
  "(x = None \<Longrightarrow> confined A h) \<Longrightarrow> (\<And>y. x = Some y \<Longrightarrow> confined A (k y)) \<Longrightarrow> confined A (case x of None \<Rightarrow> h | Some y \<Rightarrow> k y)"
  by (cases x) auto

lemma sum_confined [evolving]:
  "(\<And>e. x = Inl e \<Longrightarrow> confined A (h e)) \<Longrightarrow> (\<And>y. x = Inr y \<Longrightarrow> confined A (k y)) \<Longrightarrow>
   confined A (case x of Inl e \<Rightarrow> h e | Inr y \<Rightarrow> k y)"
  by (cases x) auto

lemma prod_confined [evolving]: "(\<And>a b. x = (a, b) \<Longrightarrow> confined A (h a b)) \<Longrightarrow> confined A (case x of (a, b) \<Rightarrow> h a b)"
  by (cases x) auto

lemma let_confined [evolving]: "confined A (h v) \<Longrightarrow> confined A (let x = v in h x)"
  by simp

lemma peek_confined [evolving]: "(\<And>q. confined A (h q)) \<Longrightarrow> confined A (peek h)"
  by (simp add: confined_def peek_def)

subsection \<open>JSON of the data types (the struct tags)\<close>

text \<open>A nil slice is \<^verbatim>\<open>null\<close>; \<^verbatim>\<open>omitempty\<close> drops a zero.\<close>

definition jslice :: "json list \<Rightarrow> json" where
  "jslice xs = (if xs = [] then JNull else JArr xs)"

definition user_json :: "user \<Rightarrow> json" where
  "user_json u = jobj (
     [(''id'', JNum (ID u)), (''username'', JStr (Username u)), (''uuid'', JStr (UUID u)),
      (''sub_token'', JStr (SubToken u)), (''data_limit'', JNum (DataLimit u)), (''data_used'', JNum (DataUsed u)),
      (''expire_at'', JNum (ExpireAt u)), (''enabled'', JBool (Enabled u)), (''created_at'', JNum (CreatedAt u))] @
     (if NodeIDs u = [] then [] else [(''node_ids'', JArr (map JNum (NodeIDs u)))]) @
     [(''has_portal_password'', JBool (HasPortalPassword u)), (''reset_day'', JNum (ResetDay u))] @
     (if LastReset u = 0 then [] else [(''last_reset'', JNum (LastReset u))]) @
     [(''must_change_pw'', JBool (MustChangePW u)), (''device_count'', JNum (DeviceCount u))] @
     (if EtaDays u = 0 then [] else [(''eta_days'', JNum (EtaDays u))]) @
     [(''note'', JStr (Note u))])"

definition node_json :: "node \<Rightarrow> json" where
  "node_json n = jobj
     [(''id'', JNum (n_ID n)), (''name'', JStr (n_Name n)), (''token'', JStr (n_Token n)),
      (''address'', JStr (n_Address n)), (''remark'', JStr (n_Remark n)), (''last_seen'', JNum (n_LastSeen n)),
      (''online'', JBool (n_Online n)), (''created_at'', JNum (n_CreatedAt n)),
      (''reality_dest'', JStr (n_RealityDest n)), (''reality_server_name'', JStr (n_RealityServerName n)),
      (''reality_private_key'', JStr (n_RealityPrivateKey n)), (''reality_public_key'', JStr (n_RealityPublicKey n)),
      (''reality_short_id'', JStr (n_RealityShortID n)), (''tls_domain'', JStr (n_TLSDomain n)),
      (''agent_version'', JStr (n_AgentVersion n))]"

definition daily_json :: "daily \<Rightarrow> json" where
  "daily_json d = jobj [(''day'', JStr (dt_Day d)), (''up'', JNum (dt_Up d)), (''down'', JNum (dt_Down d))]"

definition split_json :: "split_bytes \<Rightarrow> json" where
  "split_json t = jobj [(''up'', JNum (ts_Up t)), (''down'', JNum (ts_Down t))]"

definition usage_json :: "node_usage \<Rightarrow> json" where
  "usage_json u = jobj [(''node_id'', JNum (nu_NodeID u)), (''up'', JNum (nu_Up u)), (''down'', JNum (nu_Down u)),
     (''users'', JNum (nu_Users u))]"

definition device_json :: "device \<Rightarrow> json" where
  "device_json d = jobj [(''ip'', JStr (d_IP d)), (''inbound'', JStr (d_Inbound d)), (''conns'', JNum (d_Conns d)),
     (''node_id'', JNum (d_NodeID d)), (''first_seen'', JNum (d_FirstSeen d)), (''last_seen'', JNum (d_LastSeen d))]"

definition audit_json :: "audit_row \<Rightarrow> json" where
  "audit_json r = jobj [(''id'', JNum (au_id r)), (''ts'', JNum (au_ts r)), (''actor'', JStr (au_actor r)),
     (''action'', JStr (au_action r)), (''detail'', JStr (au_detail r))]"

text \<open>Surroundings for the examples: the MAC is the message itself.\<close>

definition plain_world :: world where
  "plain_world = \<lparr>w_nanos = 1000 * 10 ^ 9, w_hmac = (\<lambda>k m. m), w_hmac1 = (\<lambda>k m. k @ m), w_sha = id,
     w_compare = (\<lambda>h pw. h = ''#'' @ pw), w_bcrypt = (\<lambda>pw. if length pw > 72 then Inl ''too long'' else Inr (''#'' @ pw)),
     w_err = (\<lambda>e. ''sql''),
     w_unicode = \<lparr>uni_upper = (\<lambda>r. False), uni_lower = (\<lambda>r. False), uni_digit = (\<lambda>r. False), uni_special = (\<lambda>r. False)\<rparr>,
     w_draw = (\<lambda>i n. replicate n (char_of (65 + i))), w_qr = (\<lambda>s. True),
     w_range = id, w_float = (\<lambda>s. map_option of_int (ParseInt64 s)), w_x25519 = (\<lambda>k. Inr (rev k))\<rparr>"

end
