(* ===== verification/Auth.thy ===== *)
theory Auth
  imports Http
begin

section \<open>Sessions (internal/panel/auth.go, twofa.go, admins.go, portal.go)\<close>

text \<open>
  Signed tokens and the checks a handler makes of them: \<open>requireAuth\<close> in front of the admin handlers,
  \<open>currentAdmin\<close> and \<open>portalUser\<close> inside. The first lemmas are the format's: what \<open>signSession\<close> writes,
  \<open>verifySession\<close> reads back, and nothing else with the same signature.
\<close>

subsection \<open>Tokens\<close>

abbreviation bar :: char where
  "bar \<equiv> CHR ''|''"

definition roleAdmin :: string where "roleAdmin = ''admin''"
definition roleUser :: string where "roleUser = ''user''"

definition hmacHex :: "world \<Rightarrow> string \<Rightarrow> string \<Rightarrow> string" where
  "hmacHex w secret msg = hexEncode (w_hmac w secret msg)"

definition session_payload :: "string \<Rightarrow> string \<Rightarrow> int \<Rightarrow> int \<Rightarrow> string" where
  "session_payload role subject epoch exp = Join [role, subject, FormatInt epoch, FormatInt exp] [bar]"

definition signSession :: "world \<Rightarrow> string \<Rightarrow> string \<Rightarrow> string \<Rightarrow> int \<Rightarrow> int \<Rightarrow> string" where
  "signSession w secret role subject epoch ttl =
     (let exp = w_now w + ttl; payload = session_payload role subject epoch exp; sig = hmacHex w secret payload
      in RawURLEncode (payload @ [bar] @ sig))"

definition verifySession :: "world \<Rightarrow> string \<Rightarrow> string \<Rightarrow> (string \<times> string \<times> int) option" where
  "verifySession w secret token =
     (case RawURLDecode token of None \<Rightarrow> None
      | Some raw \<Rightarrow> (case splitc bar raw of
          [role, subject, epochStr, expStr, sig] \<Rightarrow>
            if sig \<noteq> hmacHex w secret (Join [role, subject, epochStr, expStr] [bar]) then None
            else (case ParseInt64 epochStr of None \<Rightarrow> None
              | Some epoch \<Rightarrow> (case ParseInt64 expStr of None \<Rightarrow> None
                | Some exp \<Rightarrow> if w_now w \<ge> exp then None else Some (role, subject, epoch)))
        | _ \<Rightarrow> None))"

subsection \<open>Who is asking\<close>

definition sessionCookie :: string where "sessionCookie = ''xuanwu_session''"
definition portalCookie :: string where "portalCookie = ''xuanwu_portal''"

definition session_secret :: "panel \<Rightarrow> string" where
  "session_secret p = JWTSecret (pn_cfg p)"

definition unauthorized :: response where
  "unauthorized = httpError ''unauthorized'' 401"

definition requireAuth :: "world \<Rightarrow> request \<Rightarrow> handler \<Rightarrow> handler" where
  "requireAuth w r nxt = peek (\<lambda>p.
     case Cookie r sessionCookie of None \<Rightarrow> reply unauthorized
     | Some c \<Rightarrow> (case verifySession w (session_secret p) c of None \<Rightarrow> reply unauthorized
       | Some (role, name, epoch) \<Rightarrow>
           if role \<noteq> roleAdmin then reply unauthorized
           else db_case (GetAdmin name)
             (\<lambda>e. reply unauthorized)
             (\<lambda>adm. if adm_SessionEpoch adm \<noteq> epoch then reply unauthorized else nxt)))"

definition currentAdmin :: "world \<Rightarrow> request \<Rightarrow> panel \<Rightarrow> admin option \<times> panel" where
  "currentAdmin w r = peek (\<lambda>p.
     case Cookie r sessionCookie of None \<Rightarrow> give None
     | Some c \<Rightarrow> (case verifySession w (session_secret p) c of None \<Rightarrow> give None
       | Some (role, name, epoch) \<Rightarrow>
           if role \<noteq> roleAdmin then give None
           else db_case (GetAdmin name)
             (\<lambda>e. give None)
             (\<lambda>adm. give (if adm_SessionEpoch adm \<noteq> epoch then None else Some adm))))"

definition audit :: "world \<Rightarrow> request \<Rightarrow> string \<Rightarrow> string \<Rightarrow> panel \<Rightarrow> panel" where
  "audit w r action detail p =
     (let (who, p) = currentAdmin w r p;
          actor = (case who of None \<Rightarrow> ''?'' | Some adm \<Rightarrow> adm_Username adm)
      in db_do (AddAudit (w_now w) actor action detail) p)"

definition portalUser :: "world \<Rightarrow> request \<Rightarrow> panel \<Rightarrow> user option \<times> panel" where
  "portalUser w r = peek (\<lambda>p.
     case Cookie r portalCookie of None \<Rightarrow> give None
     | Some c \<Rightarrow> (case verifySession w (session_secret p) c of None \<Rightarrow> give None
       | Some (role, subject, epoch) \<Rightarrow>
           if role \<noteq> roleUser then give None
           else case ParseInt64 subject of None \<Rightarrow> give None
             | Some i \<Rightarrow> db_case (GetUser i)
                 (\<lambda>e. give None)
                 (\<lambda>u. give (if SessionEpoch u \<noteq> epoch then None else Some u))))"

lemma requireAuth_confined [evolving]: "confined A nxt \<Longrightarrow> confined A (requireAuth w r nxt)"
  unfolding requireAuth_def by (intro evolving)

lemma session_confined [evolving]: "confined A (currentAdmin w r)" "confined A (portalUser w r)"
  unfolding currentAdmin_def portalUser_def by (intro evolving)+

lemma audit_confined [evolving]: "(\<And>actor. A (OAddAudit (w_now w) actor action detail)) \<Longrightarrow> confined_upd A (audit w r action detail)"
proof -
  assume A: "\<And>actor. A (OAddAudit (w_now w) actor action detail)"
  show ?thesis unfolding confined_upd_def
  proof
    fix p :: panel
    obtain who q where q: "currentAdmin w r p = (who, q)" by fastforce
    then have "evolves A (db_of p) (db_of q)" using confinedD [OF session_confined(1), of A p w r] by simp
    moreover have "evolves A (db_of q) (db_of (db_do (AddAudit (w_now w) actor action detail) q))" for actor
      by (simp add: db_do_def) (intro evolving A)
    ultimately show "evolves A (db_of p) (db_of (audit w r action detail p))"
      using q by (auto simp: audit_def Let_def intro: evolves_trans)
  qed
qed

text \<open>Past \<open>requireAuth\<close> is an administrator whose account has the token's epoch.\<close>

lemma requireAuth_cases:
  obtains "fst (requireAuth w r nxt p) = unauthorized" "tables (db_of (snd (requireAuth w r nxt p))) = tables (db_of p)"
  | c name epoch adm where "Cookie r sessionCookie = Some c"
      "verifySession w (session_secret p) c = Some (roleAdmin, name, epoch)"
      "adm \<in> set (admins (tables (db_of p)))" "ar_username adm = name" "ar_session_epoch adm = epoch"
proof (cases "Cookie r sessionCookie")
  case None
  then show thesis using that(1) by (simp add: requireAuth_def peek_def reply_def)
next
  case (Some c)
  show thesis
  proof (cases "verifySession w (session_secret p) c")
    case None
    with Some show thesis using that(1) by (simp add: requireAuth_def peek_def reply_def)
  next
    case (Some t)
    obtain role name epoch where t: "t = (role, name, epoch)" by (cases t) auto
    note go = \<open>Cookie r sessionCookie = Some c\<close> Some t
    show thesis
    proof (cases "role = roleAdmin")
      case False
      with go show thesis using that(1) by (simp add: requireAuth_def peek_def reply_def)
    next
      case True
      obtain x s where m: "GetAdmin name (db_of p) = (x, s)" by fastforce
      then have tab: "tables s = tables (db_of p)" unfolding GetAdmin_def using query_tables by blast
      show thesis
      proof (cases x)
        case (Inl e)
        with go True m tab show thesis
          using that(1) by (simp add: requireAuth_def peek_def reply_def db_case_def on_store_def)
      next
        case (Inr a)
        from m Inr obtain row where row: "List.find (\<lambda>a. ar_username a = name) (admins (tables (db_of p))) = Some row"
          "adm_SessionEpoch a = ar_session_epoch row"
          by (auto simp: GetAdmin_def query_def next_fault_def find_row_def admin_of_row_def split: list.splits if_splits option.splits)
        show thesis
        proof (cases "adm_SessionEpoch a = epoch")
          case False
          with go True m tab Inr show thesis
            using that(1) by (simp add: requireAuth_def peek_def reply_def db_case_def on_store_def)
        next
          case True
          from row(1) have "row \<in> set (admins (tables (db_of p)))" "ar_username row = name"
            by (auto simp: find_Some_iff)
          with True row(2) go t \<open>role = roleAdmin\<close> show thesis using that(2) by simp
        qed
      qed
    qed
  qed
qed

subsection \<open>The token format\<close>

lemma bar_not_digit: "\<not> is_digit bar"
  by (simp add: is_digit_def)

lemma bar_FormatInt [simp]: "bar \<notin> set (FormatInt i)"
  using FormatInt_chars [of bar i] bar_not_digit by auto

lemma bar_hmacHex [simp]: "bar \<notin> set (hmacHex w secret m)"
  using hexEncode_lower lower_hex_not(1) by (auto simp: hmacHex_def)

lemma role_bar [simp]: "bar \<notin> set roleAdmin" "bar \<notin> set roleUser"
  by (simp_all add: roleAdmin_def roleUser_def)

lemma roles_differ [simp]: "roleAdmin \<noteq> roleUser" "roleUser \<noteq> roleAdmin"
  by (simp_all add: roleAdmin_def roleUser_def)

lemma split_payload:
  assumes "bar \<notin> set role" "bar \<notin> set subject" "bar \<notin> set sig"
  shows "splitc bar (session_payload role subject epoch exp @ [bar] @ sig) =
    [role, subject, FormatInt epoch, FormatInt exp, sig]"
proof -
  have "session_payload role subject epoch exp @ [bar] @ sig =
      Join [role, subject, FormatInt epoch, FormatInt exp, sig] [bar]"
    by (simp add: session_payload_def)
  with assms show ?thesis by (simp only:) (rule splitc_Join; auto)
qed

text \<open>An accepted token is a payload with its signature behind it.\<close>

lemma verifySession_raw:
  assumes "verifySession w secret tok = Some (role, subject, epoch)"
  obtains epochStr expStr exp where
    "RawURLDecode tok = Some (Join [role, subject, epochStr, expStr] [bar] @ [bar] @
       hmacHex w secret (Join [role, subject, epochStr, expStr] [bar]))"
    "ParseInt64 epochStr = Some epoch" "ParseInt64 expStr = Some exp" "w_now w < exp"
    "splitc bar (Join [role, subject, epochStr, expStr] [bar]) = [role, subject, epochStr, expStr]"
proof -
  from assms obtain raw ps where raw: "RawURLDecode tok = Some raw" and ps: "splitc bar raw = ps"
    by (auto simp: verifySession_def split: option.splits)
  from assms raw ps obtain epochStr expStr sig exp where
    p: "ps = [role, subject, epochStr, expStr, sig]" and
    s: "sig = hmacHex w secret (Join [role, subject, epochStr, expStr] [bar])" and
    e: "ParseInt64 epochStr = Some epoch" "ParseInt64 expStr = Some exp" "w_now w < exp"
    by (auto simp: verifySession_def split: option.splits list.splits if_splits)
  have "Join (splitc bar raw) [bar] = raw" by (rule Join_splitc)
  with ps p have "raw = Join [role, subject, epochStr, expStr] [bar] @ [bar] @ sig" by simp
  moreover have "x \<in> set ps \<Longrightarrow> bar \<notin> set x" for x using ps splitc_parts by blast
  then have "splitc bar (Join [role, subject, epochStr, expStr] [bar]) = [role, subject, epochStr, expStr]"
    by (intro splitc_Join) (auto simp: p)
  ultimately show thesis using that raw s e by blast
qed

end
