(* ===== verification/Totp.thy ===== *)
theory Totp
  imports Http Url
begin

unbundle bit_operations_syntax

section \<open>One-time codes (internal/panel/totp.go)\<close>

text \<open>
  TOTP with SHA-1, six digits and a period of 30 seconds. The counter and the truncation are done on
  words of the widths the code uses; the reference is the arithmetic of RFC 4226.
\<close>

subsection \<open>The code\<close>

definition upper_char :: "char \<Rightarrow> char" where
  "upper_char c = (if 97 \<le> (of_char c :: nat) \<and> (of_char c :: nat) \<le> 122 then char_of ((of_char c :: nat) - 32) else c)"

definition ToUpper :: "string \<Rightarrow> string" where
  "ToUpper s = map upper_char s"

definition newTOTPSecret :: "string \<Rightarrow> string" where
  "newTOTPSecret b = b32encode b"

text \<open>\<^verbatim>\<open>binary.BigEndian.PutUint64\<close>.\<close>

definition be64 :: "64 word \<Rightarrow> string" where
  "be64 x = map (\<lambda>i. char_of (unat (drop_bit (8 * (7 - i)) x AND 0xff))) [0..<8]"

definition totp_counter :: "int \<Rightarrow> 64 word" where
  "totp_counter t = word_of_int t div 30"

definition u32 :: "char \<Rightarrow> 32 word" where
  "u32 c = word_of_nat (of_char c)"

text \<open>Dynamic truncation of the MAC.\<close>

definition truncate31 :: "string \<Rightarrow> 32 word" where
  "truncate31 mac =
     (let off = unat (u32 (mac ! (length mac - 1)) AND 0x0f)
      in (push_bit 24 (u32 (mac ! off) AND 0x7f) OR push_bit 16 (u32 (mac ! (off + 1))) OR
          push_bit 8 (u32 (mac ! (off + 2))) OR u32 (mac ! (off + 3))) mod 1000000)"

definition totpCode :: "world \<Rightarrow> string \<Rightarrow> int \<Rightarrow> string option" where
  "totpCode w secret t =
     (case b32decode (ToUpper (TrimSpace secret)) of None \<Rightarrow> None
      | Some key \<Rightarrow> Some (pad_left 6 (FormatInt (int (unat (truncate31 (w_hmac1 w key (be64 (totp_counter t)))))))))"

definition totpVerify :: "world \<Rightarrow> string \<Rightarrow> string \<Rightarrow> bool" where
  "totpVerify w secret code0 =
     (let code = TrimSpace code0
      in if length code \<noteq> 6 then False
         else list_ex (\<lambda>skew. totpCode w secret (w_now w + skew * 30) = Some code) [-1, 0, 1])"

definition otpauthURL :: "string \<Rightarrow> string \<Rightarrow> string \<Rightarrow> string" where
  "otpauthURL issuer account secret =
     (let label = PathEscape (issuer @ '':'' @ account);
          q = url_set ''period'' ''30'' (url_set ''digits'' ''6'' (url_set ''issuer'' issuer (url_set ''secret'' secret [])))
      in ''otpauth://totp/'' @ label @ ''?'' @ Encode q)"

subsection \<open>The truncation is RFC 4226's\<close>

lemma unat_u32: "unat (u32 c) = of_char c"
proof -
  have "of_char c < (2 :: nat) ^ 32" using byte_less [of c] by (rule less_trans) simp
  then show ?thesis by (simp add: u32_def unat_of_nat)
qed

text \<open>Four bytes read as one big-endian number.\<close>

definition be_value :: "string \<Rightarrow> nat" where
  "be_value s = foldl (\<lambda>n c. 256 * n + of_char c) 0 s"

lemma shift_or: "d < 2 ^ n \<Longrightarrow> push_bit n x OR d = 2 ^ n * x + (d :: nat)"
proof -
  assume d: "d < 2 ^ n"
  have "\<not> bit d m" if "n \<le> m" for m
    using less_le_trans [OF d power_increasing [OF that, of "2 :: nat"]] by (simp add: bit_iff_odd)
  then have "push_bit n x AND d = 0"
    by (intro bit_eqI) (auto simp: bit_and_iff bit_push_bit_iff)
  then have "push_bit n x OR d = push_bit n x + d" by (rule disjunctive_add_eq_or [symmetric])
  then show ?thesis by (simp add: push_bit_eq_mult mult.commute)
qed

lemma join_bytes:
  fixes a b c d :: nat
  assumes "a < 128" "b < 256" "c < 256" "d < 256"
  shows "unat (push_bit 24 (word_of_nat a) OR push_bit 16 (word_of_nat b) OR push_bit 8 (word_of_nat c) OR word_of_nat d :: 32 word)
    = 2 ^ 24 * a + (2 ^ 16 * b + (2 ^ 8 * c + d))"
proof -
  have "push_bit 8 c OR d = 2 ^ 8 * c + d" using assms by (intro shift_or) simp
  moreover have "push_bit 16 b OR (2 ^ 8 * c + d) = 2 ^ 16 * b + (2 ^ 8 * c + d)" using assms by (intro shift_or) simp
  moreover have "push_bit 24 a OR (2 ^ 16 * b + (2 ^ 8 * c + d)) = 2 ^ 24 * a + (2 ^ 16 * b + (2 ^ 8 * c + d))"
    using assms by (intro shift_or) simp
  ultimately have "(push_bit 24 (word_of_nat a) OR push_bit 16 (word_of_nat b) OR push_bit 8 (word_of_nat c) OR word_of_nat d :: 32 word)
      = word_of_nat (2 ^ 24 * a + (2 ^ 16 * b + (2 ^ 8 * c + d)))"
    by (simp only: push_bit_of_nat of_nat_or_eq [symmetric])
  moreover have "2 ^ 24 * a + (2 ^ 16 * b + (2 ^ 8 * c + d)) < 2 ^ 32" using assms by simp
  ultimately show ?thesis by (simp only: unat_of_nat) simp
qed

lemma u32_low: "u32 c AND 0x7f = word_of_nat (of_char c mod 128)" "u32 c AND 0x0f = word_of_nat (of_char c mod 16)"
proof -
  have m: "(0x7f :: 32 word) = mask 7" "(0x0f :: 32 word) = mask 4" by (simp_all add: mask_eq_exp_minus_1)
  show "u32 c AND 0x7f = word_of_nat (of_char c mod 128)" "u32 c AND 0x0f = word_of_nat (of_char c mod 16)"
    by (simp_all only: m take_bit_eq_mask [symmetric] u32_def take_bit_of_nat, simp_all add: take_bit_eq_mod)
qed

lemma be_bound: "a < 128 \<Longrightarrow> b < 256 \<Longrightarrow> c < 256 \<Longrightarrow> d < 256 \<Longrightarrow> 2 ^ 24 * a + (2 ^ 16 * b + (2 ^ 8 * c + d)) < (2 ^ 31 :: nat)"
  by simp

definition trunc_offset :: "string \<Rightarrow> nat" where
  "trunc_offset mac = of_char (last mac) mod 16"

text \<open>
  C35. The 32-bit dynamic truncation (masks, shifts and ORs on words) is the arithmetic of RFC 4226 for every
  20-byte MAC: the four bytes at the offset in its last nibble, big-endian, without the top bit,
  modulo a million; so a code is a six-digit number.
\<close>
theorem totp_truncation:
  assumes "length mac = 20"
  shows "unat (truncate31 mac) = be_value (take 4 (drop (trunc_offset mac) mac)) mod 2 ^ 31 mod 10 ^ 6"
proof -
  let ?o = "trunc_offset mac"
  have "last mac = mac ! 19" using assms by (subst last_conv_nth) auto
  then have off: "unat (u32 (mac ! (length mac - 1)) AND 0x0f) = ?o"
    by (simp add: u32_low trunc_offset_def assms unat_of_nat)
  have o: "?o < 16" by (simp add: trunc_offset_def)
  with assms have four: "take 4 (drop ?o mac) = [mac ! ?o, mac ! (?o + 1), mac ! (?o + 2), mac ! (?o + 3)]"
    by (intro nth_equalityI) (auto simp: nth_Cons' numeral_eq_Suc less_Suc_eq)
  let ?a = "of_char (mac ! ?o) :: nat" and ?b = "of_char (mac ! (?o + 1)) :: nat"
  let ?c = "of_char (mac ! (?o + 2)) :: nat" and ?d = "of_char (mac ! (?o + 3)) :: nat"
  have bytes: "?a < 256" "?b < 256" "?c < 256" "?d < 256" by (rule byte_less)+
  have "unat (truncate31 mac) = (2 ^ 24 * (?a mod 128) + (2 ^ 16 * ?b + (2 ^ 8 * ?c + ?d))) mod 10 ^ 6"
    unfolding truncate31_def Let_def off unfolding u32_low(1) unat_mod unfolding u32_def using join_bytes [of "?a mod 128" ?b ?c ?d] bytes by simp
  moreover have "be_value (take 4 (drop ?o mac)) mod 2 ^ 31 = 2 ^ 24 * (?a mod 128) + (2 ^ 16 * ?b + (2 ^ 8 * ?c + ?d))"
  proof -
    have "be_value (take 4 (drop ?o mac)) = 2 ^ 24 * ?a + (2 ^ 16 * ?b + (2 ^ 8 * ?c + ?d))"
      by (simp add: four be_value_def)
    also have "\<dots> = 2 ^ 24 * (?a mod 128) + (2 ^ 16 * ?b + (2 ^ 8 * ?c + ?d)) + ?a div 128 * 2 ^ 31"
    proof -
      have "2 ^ 24 * x = 2 ^ 24 * (x mod 128) + x div 128 * 2 ^ 31" for x :: nat
      proof -
        define q r where qr: "q = x div 128" "r = x mod 128"
        then have "x = 128 * q + r" by simp
        then show ?thesis unfolding qr [symmetric] by simp
      qed
      from this [of ?a] show ?thesis by linarith
    qed
    finally have "be_value (take 4 (drop ?o mac)) mod 2 ^ 31 = (2 ^ 24 * (?a mod 128) + (2 ^ 16 * ?b + (2 ^ 8 * ?c + ?d))) mod 2 ^ 31"
      by (simp only: mod_mult_self1)
    moreover have "2 ^ 24 * (?a mod 128) + (2 ^ 16 * ?b + (2 ^ 8 * ?c + ?d)) < 2 ^ 31"
      using bytes(2-4) by (intro be_bound) simp_all
    ultimately show ?thesis by simp
  qed
  ultimately show ?thesis by simp
qed

theorem totp_truncation_witness:
  "unat (truncate31 (replicate 20 (CHR 0xC3))) = be_value (take 4 (drop 3 (replicate 20 (CHR 0xC3)))) mod 2 ^ 31 mod 10 ^ 6"
  using totp_truncation [of "replicate 20 (CHR 0xC3)"] by (simp add: trunc_offset_def)

subsection \<open>Verification\<close>

lemma truncate31_less: "unat (truncate31 mac) < 10 ^ 6"
proof -
  have "unat (x mod 1000000 :: 32 word) < 1000000" for x by (simp add: unat_mod)
  then show ?thesis by (simp add: truncate31_def Let_def)
qed

lemma dec_nat_length: "n < 10 ^ k \<Longrightarrow> 0 < k \<Longrightarrow> length (dec_nat n) \<le> k"
proof (induction k arbitrary: n)
  case (Suc k)
  show ?case
  proof (cases "n < 10")
    case True
    then show ?thesis by (subst dec_nat.simps) simp
  next
    case False
    with Suc.prems have "n div 10 < 10 ^ k" by simp
    moreover have "0 < k" using False Suc.prems by (cases k) auto
    ultimately have "length (dec_nat (n div 10)) \<le> k" by (rule Suc.IH)
    then show ?thesis using False by (subst dec_nat.simps) simp
  qed
qed simp

text \<open>A code is six digits, and survives the trimming of the input.\<close>

lemma code_shape:
  assumes "n < 10 ^ 6"
  defines "s \<equiv> pad_left 6 (FormatInt (int n))"
  shows "length s = 6" "TrimSpace s = s"
proof -
  have f: "FormatInt (int n) = dec_nat n" by (simp add: FormatInt_def)
  then show "length s = 6" using dec_nat_length [OF assms(1)] by (simp add: s_def pad_left_def)
  have "\<not> is_space c" if "is_digit c" for c using that by (auto simp: is_digit_def is_space_def)
  then have "list_all (\<lambda>c. \<not> is_space c) s"
    using dec_nat_digits [of n] by (auto simp: s_def pad_left_def f list_all_iff is_space_def)
  then show "TrimSpace s = s" by (rule TrimSpace_id)
qed

lemma counter_step: "0 \<le> t \<Longrightarrow> t < 2 ^ 63 \<Longrightarrow> totp_counter t = word_of_int (t div 30)"
proof -
  assume t: "0 \<le> t" "t < 2 ^ 63"
  have "uint (totp_counter t) = t mod 2 ^ 64 div 30"
    by (simp add: totp_counter_def uint_div uint_word_of_int)
  also have "\<dots> = t div 30" using t by simp
  finally have "uint (totp_counter t) = t div 30" .
  then show ?thesis by (metis word_of_int_uint)
qed

lemma neighbour_period:
  fixes s t :: int
  assumes "\<bar>s - t\<bar> \<le> 30"
  obtains k where "k \<in> {-1, 0, 1}" "(s + k * 30) div 30 = t div 30"
proof -
  define a p b q where "a = s div 30" and "p = s mod 30" and "b = t div 30" and "q = t mod 30"
  then have "s = 30 * a + p" "t = 30 * b + q" "0 \<le> p" "p < 30" "0 \<le> q" "q < 30" by simp_all
  with assms have "30 * (b - a) < 60" "- 60 < 30 * (b - a)" by (simp_all add: abs_le_iff)
  then have "t div 30 - s div 30 \<in> {-1, 0, 1}" by (auto simp: \<open>a = s div 30\<close> \<open>b = t div 30\<close>)
  moreover have "(s + (t div 30 - s div 30) * 30) div 30 = t div 30" by simp
  ultimately show thesis by (rule that)
qed

lemma TrimSpace_around:
  assumes "TrimSpace s = s" "s \<noteq> []" "list_all is_space pre" "list_all is_space post"
  shows "TrimSpace (pre @ s @ post) = s"
proof -
  have hd: "\<not> is_space (hd s)" and lst: "\<not> is_space (last s)"
  proof -
    have d: "dropWhile is_space s = s"
    proof (rule ccontr)
      assume "dropWhile is_space s \<noteq> s"
      moreover have "length (dropWhile is_space s) \<le> length s" by (rule length_dropWhile_le)
      moreover have "length (TrimSpace s) \<le> length (dropWhile is_space s)"
        unfolding TrimSpace_def trim_by_def by (metis length_dropWhile_le length_rev)
      ultimately show False using assms(1) by (metis append_self_conv2 le_antisym takeWhile_dropWhile_id length_append add_cancel_left_left length_0_conv)
    qed
    then show "\<not> is_space (hd s)" using assms(2) by (metis dropWhile_eq_self_iff)
    from d assms(1) have "dropWhile is_space (rev s) = rev s" by (metis TrimSpace_def trim_by_def rev_rev_ident)
    then show "\<not> is_space (last s)" using assms(2) by (metis dropWhile_eq_self_iff hd_rev rev_is_Nil_conv)
  qed
  have "dropWhile is_space (pre @ s @ post) = s @ post"
    using assms(2,3) hd by (cases s) (auto simp: dropWhile_append list_all_iff)
  moreover have "dropWhile is_space (rev post @ rev s) = rev s"
    using assms(2,4) lst by (cases "rev s") (auto simp: dropWhile_append list_all_iff simp flip: hd_rev)
  ultimately show ?thesis by (simp add: TrimSpace_def trim_by_def)
qed

text \<open>
  Clock skew. A code made at one instant is accepted, also with white space around it, by a verifier whose
  clock is up to 30 seconds behind or ahead, whether or not a period boundary lies between.
\<close>
theorem totp_window:
  assumes "w_hmac1 v = w_hmac1 w" and "\<bar>w_now v - w_now w\<bar> \<le> 30" and "30 \<le> w_now w" and "30 \<le> w_now v"
    and "w_now w < 2 ^ 62" and "w_now v < 2 ^ 62" and "totpCode w secret (w_now w) = Some code"
    and "list_all is_space pre" and "list_all is_space post"
  shows "totpVerify v secret (pre @ code @ post)"
proof -
  from assms(7) obtain key where key: "b32decode (ToUpper (TrimSpace secret)) = Some key"
    and code: "code = pad_left 6 (FormatInt (int (unat (truncate31 (w_hmac1 w key (be64 (totp_counter (w_now w))))))))"
    by (auto simp: totpCode_def split: option.splits)
  have len: "length code = 6" and trim: "TrimSpace code = code"
    unfolding code by (rule code_shape; rule truncate31_less)+
  then have "code \<noteq> []" by auto
  with trim assms(8,9) have t: "TrimSpace (pre @ code @ post) = code" by (intro TrimSpace_around)
  obtain k where k: "k \<in> {-1, 0, 1}" "(w_now v + k * 30) div 30 = w_now w div 30"
    using neighbour_period [OF assms(2)] .
  then have range: "0 \<le> w_now v + k * 30" "w_now v + k * 30 < 2 ^ 63" using assms(4,6) by auto
  have "totp_counter (w_now v + k * 30) = totp_counter (w_now w)"
    using counter_step [OF range] counter_step [of "w_now w"] k(2) assms(3,5) by simp
  then have "totpCode v secret (w_now v + k * 30) = Some code"
    by (simp add: totpCode_def key code assms(1))
  with k(1) show ?thesis by (auto simp: totpVerify_def Let_def t len)
qed

lemma secret_key: "b32decode (ToUpper (TrimSpace (newTOTPSecret b))) = Some b"
proof -
  have "c \<in> set (b32encode b) \<Longrightarrow> c \<in> set alpha32" for c
    by (auto simp: b32encode_def dest!: groups5_length alpha32_char(2))
  moreover have "list_all (\<lambda>c. \<not> is_space c \<and> upper_char c = c) alpha32" by code_simp
  then have "c \<in> set alpha32 \<Longrightarrow> \<not> is_space c \<and> upper_char c = c" for c by (simp add: list_all_iff)
  ultimately have c: "c \<in> set (b32encode b) \<Longrightarrow> \<not> is_space c \<and> upper_char c = c" for c by blast
  then have "TrimSpace (b32encode b) = b32encode b" by (intro TrimSpace_id) (simp add: list_all_iff)
  moreover have "ToUpper (b32encode b) = b32encode b" using c by (simp add: ToUpper_def map_idI)
  ultimately show ?thesis by (simp add: newTOTPSecret_def b32_roundtrip)
qed

lemma new_secret_code: "\<exists>code. totpCode w (newTOTPSecret b) t = Some code"
  by (simp add: totpCode_def secret_key)

text \<open>A clock 29 seconds ahead, in the next period, and a code pasted with spaces.\<close>

theorem totp_window_witness:
  "\<exists>code. totpCode plain_world (newTOTPSecret ''12345678901234567890'') 1000 = Some code \<and>
     totpVerify (plain_world\<lparr>w_nanos := 1029 * 10 ^ 9\<rparr>) (newTOTPSecret ''12345678901234567890'') ('' '' @ code @ '' '')"
proof -
  let ?s = "newTOTPSecret ''12345678901234567890''"
  let ?v = "plain_world\<lparr>w_nanos := 1029 * 10 ^ 9\<rparr>"
  have n: "w_now plain_world = 1000" "w_now ?v = 1029" by (simp_all add: w_now_def plain_world_def)
  obtain code where code: "totpCode plain_world ?s 1000 = Some code" using new_secret_code by blast
  have "totpVerify ?v ?s ('' '' @ code @ '' '')"
    by (rule totp_window [of ?v plain_world]) (use code in \<open>simp_all only: n, simp_all add: is_space_def\<close>)
  with code show ?thesis by blast
qed

end
