(* ===== verification/Sub.thy ===== *)
theory Sub
  imports Http Url
begin

section \<open>Links and subscriptions (internal/panel/sub.go)\<close>

text \<open>
  What a client downloads: VLESS links, a sing-box profile, a Clash configuration, and the template
  renderer. \<open>Quote\<close> is \<^verbatim>\<open>%q\<close> for ASCII text and for the bytes of valid multi-byte runes, which it
  leaves alone (Go also escapes unprintable runes outside ASCII).
\<close>

subsection \<open>Share links\<close>

definition vision :: "string \<Rightarrow> url_values \<Rightarrow> url_values" where
  "vision security q = url_set ''security'' security (url_set ''flow'' ''xtls-rprx-vision'' (url_set ''encryption'' ''none'' q))"

definition reality_host :: "node \<Rightarrow> string" where
  "reality_host n = (if n_Address n = [] then n_RealityServerName n else n_Address n)"

definition has_reality :: "node \<Rightarrow> bool" where
  "has_reality n \<longleftrightarrow> n_RealityPublicKey n \<noteq> [] \<and> n_RealityServerName n \<noteq> []"

definition has_tls :: "node \<Rightarrow> bool" where
  "has_tls n \<longleftrightarrow> n_TLSDomain n \<noteq> []"

definition vless :: "string \<Rightarrow> string \<Rightarrow> url_values \<Rightarrow> string \<Rightarrow> string" where
  "vless uuid host q name = ''vless://'' @ uuid @ ''@'' @ host @ '':443?'' @ Encode q @ ''#'' @ QueryEscape name"

definition reality_link :: "user \<Rightarrow> node \<Rightarrow> string" where
  "reality_link u n =
     (let q = vision ''reality'' [];
          q = url_set ''pbk'' (n_RealityPublicKey n) (url_set ''fp'' ''chrome'' (url_set ''sni'' (n_RealityServerName n) q));
          q = (if n_RealityShortID n \<noteq> [] then url_set ''sid'' (n_RealityShortID n) q else q);
          q = url_set ''type'' ''tcp'' q
      in vless (UUID u) (reality_host n) q (n_Name n @ ''-reality''))"

definition tls_link :: "user \<Rightarrow> node \<Rightarrow> string" where
  "tls_link u n =
     (let q = url_set ''type'' ''tcp'' (url_set ''fp'' ''chrome'' (url_set ''sni'' (n_TLSDomain n) (vision ''tls'' [])))
      in vless (UUID u) (n_TLSDomain n) q (n_Name n @ ''-tls''))"

definition nodeLinks :: "user \<Rightarrow> node \<Rightarrow> string list" where
  "nodeLinks u n = (if has_reality n then [reality_link u n] else []) @ (if has_tls n then [tls_link u n] else [])"

text \<open>The user's nodes; one that cannot be read is left out.\<close>

fun load_nodes :: "int \<Rightarrow> int list \<Rightarrow> panel \<Rightarrow> node list \<times> panel" where
  "load_nodes now [] p = ([], p)"
| "load_nodes now (i # ids) p =
     db_case (GetNode now i)
       (\<lambda>e. load_nodes now ids)
       (\<lambda>n. ask (load_nodes now ids) (\<lambda>ns. give (n # ns))) p"

definition userNodesList :: "world \<Rightarrow> user \<Rightarrow> panel \<Rightarrow> node list \<times> panel" where
  "userNodesList w u = load_nodes (w_now w) (NodeIDs u)"

lemma load_nodes_confined: "confined A (load_nodes now ids)"
proof (induction ids)
  case Nil
  then show ?case by (simp add: confined_def ev_refl)
next
  case (Cons i ids)
  have "confined A (db_case (GetNode now i) (\<lambda>e. load_nodes now ids)
       (\<lambda>n. ask (load_nodes now ids) (\<lambda>ns. give (n # ns))))"
    by (intro evolving Cons)
  then show ?case by (simp add: confined_def)
qed

lemma userNodesList_confined [evolving]: "confined A (userNodesList w u)"
  by (simp add: userNodesList_def load_nodes_confined)

subsection \<open>The base64 subscription\<close>

definition not_found :: response where
  "not_found = httpError ''not found'' 404"

definition text_response :: "(string \<times> string) list \<Rightarrow> string \<Rightarrow> response" where
  "text_response hs txt = \<lparr>rs_code = 200,
     rs_header = hs @ [(''Profile-Update-Interval'', ''12''), (''Content-Type'', ''text/plain; charset=utf-8'')],
     rs_cookies = [], rs_body = TextBody txt\<rparr>"

definition userinfo :: "user \<Rightarrow> (string \<times> string) list" where
  "userinfo u = (if DataLimit u > 0
     then [(''Subscription-Userinfo'', ''upload=0; download='' @ FormatInt (DataUsed u) @ ''; total='' @ FormatInt (DataLimit u) @
             ''; expire='' @ FormatInt (ExpireAt u))]
     else [])"

definition sub_body :: "user \<Rightarrow> node list \<Rightarrow> string" where
  "sub_body u ns = Join (concat (map (nodeLinks u) ns)) [CHR 0x0A]"

definition handleSub :: "world \<Rightarrow> request \<Rightarrow> handler" where
  "handleSub w r = db_case (GetUserBySubToken (PathValue r ''token''))
     (\<lambda>e. reply not_found)
     (\<lambda>u. ask (userNodesList w u) (\<lambda>ns. reply (text_response (userinfo u) (StdEncode (sub_body u ns)))))"

subsection \<open>The sing-box profile\<close>

definition utls :: json where
  "utls = jobj [(''enabled'', JBool True), (''fingerprint'', JStr ''chrome'')]"

definition vless_outbound :: "user \<Rightarrow> string \<Rightarrow> string \<Rightarrow> json \<Rightarrow> json" where
  "vless_outbound u name host tls = jobj
     [(''type'', JStr ''vless''), (''tag'', JStr name), (''server'', JStr host), (''server_port'', JNum 443),
      (''uuid'', JStr (UUID u)), (''flow'', JStr ''xtls-rprx-vision''), (''packet_encoding'', JStr ''xudp''), (''tls'', tls)]"

definition node_outbounds :: "user \<Rightarrow> node \<Rightarrow> (string \<times> json) list" where
  "node_outbounds u n =
     (if has_reality n then
        [(n_Name n @ ''-reality'', vless_outbound u (n_Name n @ ''-reality'') (reality_host n) (jobj
           [(''enabled'', JBool True), (''server_name'', JStr (n_RealityServerName n)), (''utls'', utls),
            (''reality'', jobj [(''enabled'', JBool True), (''public_key'', JStr (n_RealityPublicKey n)),
                              (''short_id'', JStr (n_RealityShortID n))])]))]
      else []) @
     (if has_tls n then
        [(n_Name n @ ''-tls'', vless_outbound u (n_Name n @ ''-tls'') (n_TLSDomain n) (jobj
           [(''enabled'', JBool True), (''server_name'', JStr (n_TLSDomain n)), (''utls'', utls)]))]
      else [])"

definition singboxOutbounds :: "world \<Rightarrow> user \<Rightarrow> panel \<Rightarrow> (json list \<times> string list) \<times> panel" where
  "singboxOutbounds w u = ask (userNodesList w u) (\<lambda>ns.
     let outs = concat (map (node_outbounds u) ns) in give (map snd outs, map fst outs))"

definition singbox_config :: "json list \<Rightarrow> string list \<Rightarrow> json" where
  "singbox_config outs names = jobj
     [(''log'', jobj [(''level'', JStr ''warn'')]),
      (''dns'', jobj [(''servers'', JArr [jobj [(''tag'', JStr ''google''), (''address'', JStr ''tls://8.8.8.8'')]])]),
      (''inbounds'', JArr [jobj [(''type'', JStr ''mixed''), (''tag'', JStr ''mixed-in''), (''listen'', JStr ''127.0.0.1''),
                               (''listen_port'', JNum 2080)]]),
      (''outbounds'', JArr (
         [jobj [(''type'', JStr ''selector''), (''tag'', JStr ''proxy''), (''outbounds'', jstrs (names @ [''auto''])),
                (''default'', JStr (hd names))],
          jobj [(''type'', JStr ''urltest''), (''tag'', JStr ''auto''), (''outbounds'', jstrs names),
                (''url'', JStr ''http://www.gstatic.com/generate_204''), (''interval'', JStr ''5m'')]] @
         outs @
         [jobj [(''type'', JStr ''direct''), (''tag'', JStr ''direct'')],
          jobj [(''type'', JStr ''block''), (''tag'', JStr ''block'')],
          jobj [(''type'', JStr ''dns''), (''tag'', JStr ''dns-out'')]])),
      (''route'', jobj [(''rules'', JArr [jobj [(''protocol'', JStr ''dns''), (''outbound'', JStr ''dns-out'')],
                                       jobj [(''ip_is_private'', JBool True), (''outbound'', JStr ''direct'')]]),
                      (''final'', JStr ''proxy'')])]"

definition handleSubSingbox :: "world \<Rightarrow> request \<Rightarrow> handler" where
  "handleSubSingbox w r = db_case (GetUserBySubToken (PathValue r ''token''))
     (\<lambda>e. reply not_found)
     (\<lambda>u. ask (singboxOutbounds w u) (\<lambda>(outs, names).
        let names = (if names = [] then [''direct''] else names)
        in reply \<lparr>rs_code = 200,
             rs_header = [(''Profile-Update-Interval'', ''12''), (''Content-Type'', ''application/json; charset=utf-8'')],
             rs_cookies = [], rs_body = JsonBody (singbox_config outs names)\<rparr>))"

subsection \<open>The Clash configuration\<close>

definition quote_char :: "char \<Rightarrow> string" where
  "quote_char c =
     (if c = CHR 0x22 then [CHR 0x5C, CHR 0x22]
      else if c = CHR 0x5C then [CHR 0x5C, CHR 0x5C]
      else if c = CHR 0x07 then [CHR 0x5C, CHR ''a'']
      else if c = CHR 0x08 then [CHR 0x5C, CHR ''b'']
      else if c = CHR 0x0C then [CHR 0x5C, CHR ''f'']
      else if c = CHR 0x0A then [CHR 0x5C, CHR ''n'']
      else if c = CHR 0x0D then [CHR 0x5C, CHR ''r'']
      else if c = CHR 0x09 then [CHR 0x5C, CHR ''t'']
      else if c = CHR 0x0B then [CHR 0x5C, CHR ''v'']
      else if (of_char c :: nat) < 32 \<or> (of_char c :: nat) = 127 then [CHR 0x5C, CHR ''x''] @ hex_byte c
      else [c])"

definition Quote :: "string \<Rightarrow> string" where
  "Quote s = [CHR 0x22] @ concat (map quote_char s) @ [CHR 0x22]"

definition clash_item :: "user \<Rightarrow> string \<Rightarrow> string \<Rightarrow> string \<Rightarrow> string \<Rightarrow> string" where
  "clash_item u name host sni tail =
     ''- {name: '' @ Quote name @ '', type: vless, server: '' @ host @ '', port: 443, uuid: '' @ UUID u @
     '', network: tcp, udp: true, tls: true, encryption: none, flow: xtls-rprx-vision, packet-encoding: xudp, servername: '' @
     sni @ '', client-fingerprint: chrome, skip-cert-verify: false'' @ tail @ ''}''"

definition node_clash :: "user \<Rightarrow> node \<Rightarrow> (string \<times> string) list" where
  "node_clash u n =
     (if has_reality n then
        [(n_Name n @ ''-reality'', clash_item u (n_Name n @ ''-reality'') (reality_host n) (n_RealityServerName n)
           ('', reality-opts: {public-key: '' @ n_RealityPublicKey n @ '', short-id: '' @ Quote (n_RealityShortID n) @ ''}''))]
      else []) @
     (if has_tls n then
        [(n_Name n @ ''-tls'', clash_item u (n_Name n @ ''-tls'') (n_TLSDomain n) (n_TLSDomain n) [])]
      else [])"

definition clashProxies :: "world \<Rightarrow> user \<Rightarrow> panel \<Rightarrow> (string list \<times> string list) \<times> panel" where
  "clashProxies w u = ask (userNodesList w u) (\<lambda>ns.
     let ps = concat (map (node_clash u) ns) in give (map snd ps, map fst ps))"

text \<open>\<^verbatim>\<open>strings.ReplaceAll\<close> with a non-empty pattern.\<close>

definition ReplaceAll :: "string \<Rightarrow> string \<Rightarrow> string \<Rightarrow> string" where
  "ReplaceAll s old new = Join (Split s old) new"

definition indent_of :: "string \<Rightarrow> string" where
  "indent_of line = takeWhile (\<lambda>c. c = CHR '' '' \<or> c = CHR 0x09) line"

definition ph_proxies :: string where "ph_proxies = ''{{PROXIES}}''"
definition ph_names :: string where "ph_names = ''{{PROXY_NAMES}}''"

definition render_line :: "string list \<Rightarrow> string list \<Rightarrow> string \<Rightarrow> string list" where
  "render_line items quoted line =
     (let trimmed = TrimSpace line; indent = indent_of line in
      if trimmed = ph_proxies then map (\<lambda>it. indent @ it) items
      else if trimmed = ph_names then map (\<lambda>q. indent @ ''- '' @ q) quoted
      else if Contains line ph_names then [ReplaceAll line ph_names (Join quoted '', '')]
      else if Contains line ph_proxies then [ReplaceAll line ph_proxies (Join items '' '')]
      else [line])"

definition renderClashTemplate :: "string \<Rightarrow> string list \<Rightarrow> string list \<Rightarrow> string" where
  "renderClashTemplate tpl items names =
     Join (concat (map (render_line items (map Quote names)) (splitc (CHR 0x0A) tpl))) [CHR 0x0A]"

definition nl :: string where "nl = [CHR 0x0A]"

definition clash_default :: "string list \<Rightarrow> string list \<Rightarrow> string" where
  "clash_default items names =
     (let lst = Join (map Quote names) '', ''
      in ''port: 7890'' @ nl @ ''socks-port: 7891'' @ nl @ ''allow-lan: true'' @ nl @ ''mode: rule'' @ nl @ ''log-level: info'' @ nl @
         ''proxies:'' @ nl @ concat (map (\<lambda>it. ''  '' @ it @ nl) items) @
         ''proxy-groups:'' @ nl @
         ''  - {name: PROXY, type: select, proxies: ['' @ lst @ '']}'' @ nl @
         ''  - {name: AUTO, type: url-test, url: '' @ [CHR 0x27] @ ''http://www.gstatic.com/generate_204'' @ [CHR 0x27] @
         '', interval: 300, proxies: ['' @ lst @ '']}'' @ nl @
         ''rules:'' @ nl @ ''  - GEOIP,private,DIRECT,no-resolve'' @ nl @ ''  - MATCH,PROXY'' @ nl)"

definition handleSubClash :: "world \<Rightarrow> request \<Rightarrow> handler" where
  "handleSubClash w r = db_case (GetUserBySubToken (PathValue r ''token''))
     (\<lambda>e. reply not_found)
     (\<lambda>u. ask (clashProxies w u) (\<lambda>(items, names).
        let names = (if names = [] then [''DIRECT''] else names)
        in peek (\<lambda>p. reply (text_response []
             (if TrimSpace (clashTemplate p) \<noteq> [] then renderClashTemplate (clashTemplate p) items names
              else clash_default items names)))))"

lemma subs_confined [evolving]:
  "confined A (handleSub w r)" "confined A (handleSubSingbox w r)" "confined A (handleSubClash w r)"
  unfolding handleSub_def handleSubSingbox_def handleSubClash_def singboxOutbounds_def clashProxies_def Let_def
  by (intro evolving)+

end
