(* ===== verification/Login.thy ===== *)
theory Login
  imports Auth Totp Sub
begin

section \<open>Signing in: administrators and portal users (internal/panel/api.go, portal.go)\<close>

text \<open>
  The two sign-ins in full: the throttle is asked first, a failure counts for the address and the name,
  a success clears both and sets the cookie. Then the self-service pages of a portal user.
\<close>

subsection \<open>Administrators\<close>

record login_body =
  lb_Username :: string
  lb_Password :: string
  lb_Code :: string

definition ttl_day :: int where "ttl_day = 24 * 3600"

definition too_many :: response where
  "too_many = writeErr 429 ''too many attempts; try again later''"

definition invalid_credentials :: response where
  "invalid_credentials = writeErr 401 ''invalid credentials''"

definition totp_response :: "string \<Rightarrow> response" where
  "totp_response msg = writeJSON 401 (jobj [(''error'', JStr msg), (''totp_required'', JBool True)])"

definition fail_both :: "world \<Rightarrow> string \<Rightarrow> string \<Rightarrow> panel \<Rightarrow> panel" where
  "fail_both w ipKey userKey p = lim_fail w userKey (lim_fail w ipKey p)"

definition reset_both :: "string \<Rightarrow> string \<Rightarrow> panel \<Rightarrow> panel" where
  "reset_both ipKey userKey p = lim_reset userKey (lim_reset ipKey p)"

text \<open>\<^verbatim>\<open>blocked(ipKey) || blocked(userKey)\<close>: the second is not asked when the first says yes.\<close>

definition throttled :: "world \<Rightarrow> string \<Rightarrow> string \<Rightarrow> handler \<Rightarrow> handler" where
  "throttled w ipKey userKey nxt =
     ask (lim_blocked w ipKey) (\<lambda>b. if b then reply too_many
       else ask (lim_blocked w userKey) (\<lambda>b. if b then reply too_many else nxt))"

definition admin_token :: "world \<Rightarrow> panel \<Rightarrow> admin \<Rightarrow> string" where
  "admin_token w p adm = signSession w (session_secret p) roleAdmin (adm_Username adm) (adm_SessionEpoch adm) ttl_day"

definition handleLogin :: "world \<Rightarrow> request \<Rightarrow> login_body option \<Rightarrow> handler" where
  "handleLogin w r b = (case b of None \<Rightarrow> reply (writeErr 400 ''bad body'')
    | Some body \<Rightarrow>
        let ipKey = ''ip:'' @ clientIP r; userKey = ''user:'' @ lb_Username body;
            refuse = (\<lambda>x. seq (fail_both w ipKey userKey) (reply x))
        in throttled w ipKey userKey (db_case (GetAdmin (lb_Username body))
          (\<lambda>e. refuse invalid_credentials)
          (\<lambda>adm.
            if \<not> w_compare w (adm_PasswordHash adm) (lb_Password body) then refuse invalid_credentials
            else if adm_TOTPEnabled adm \<and> lb_Code body = [] then reply (totp_response ''2fa required'')
            else if adm_TOTPEnabled adm \<and> \<not> totpVerify w (adm_TOTPSecret adm) (lb_Code body)
              then refuse (totp_response ''invalid 2fa code'')
            else seq (reset_both ipKey userKey)
              (seq (db_do (AddAudit (w_now w) (adm_Username adm) ''login'' (clientIP r)))
                (peek (\<lambda>p. reply (with_cookie (session_cookie sessionCookie (admin_token w p adm) 86400 p)
                  (writeJSON 200 (jobj [(''username'', JStr (adm_Username adm))])))))))))"

definition clear_cookie :: "string \<Rightarrow> handler" where
  "clear_cookie name = peek (\<lambda>p. reply (with_cookie (session_cookie name [] (-1) p) (writeJSON 200 ok_json)))"

definition handleLogout :: handler where
  "handleLogout = clear_cookie sessionCookie"

text \<open>Behind \<open>requireAuth\<close>, so the cookie is there; a token that no longer verifies gives an empty name.\<close>

definition handleMe :: "world \<Rightarrow> string \<Rightarrow> request \<Rightarrow> handler" where
  "handleMe w version r = peek (\<lambda>p.
     let c = (case Cookie r sessionCookie of None \<Rightarrow> [] | Some c \<Rightarrow> c);
         name = (case verifySession w (session_secret p) c of None \<Rightarrow> [] | Some (role, name, epoch) \<Rightarrow> name)
     in reply (writeJSON 200 (jobj [(''username'', JStr name), (''version'', JStr version)])))"

definition unauthorized_json :: response where
  "unauthorized_json = writeErr 401 ''unauthorized''"

definition handleLogoutAll :: "world \<Rightarrow> request \<Rightarrow> handler" where
  "handleLogoutAll w r = ask (currentAdmin w r) (\<lambda>who. case who of None \<Rightarrow> reply unauthorized_json
     | Some adm \<Rightarrow> db_case (BumpAdminSessionEpoch (adm_Username adm)) (fail500 w) (\<lambda>x. clear_cookie sessionCookie))"

subsection \<open>The portal\<close>

text \<open>The hash compared against when there is none, so that every attempt costs one comparison.\<close>

definition dummy_hash :: string where
  "dummy_hash = ''$2a$10$invalidinvalidinvalidinvalidinvalidinvalidinvalidinvalidin''"

definition portal_token :: "world \<Rightarrow> panel \<Rightarrow> int \<Rightarrow> int \<Rightarrow> string" where
  "portal_token w p i epoch = signSession w (session_secret p) roleUser (FormatInt i) epoch ttl_day"

definition handlePortalLogin :: "world \<Rightarrow> request \<Rightarrow> login_body option \<Rightarrow> handler" where
  "handlePortalLogin w r b = (case b of None \<Rightarrow> reply (writeErr 400 ''bad body'')
    | Some body \<Rightarrow>
        let ipKey = ''pip:'' @ clientIP r; userKey = ''puser:'' @ lb_Username body;
            refuse = seq (fail_both w ipKey userKey) (reply invalid_credentials)
        in throttled w ipKey userKey (db_case (GetUserByName (lb_Username body))
          (\<lambda>e. let compared = w_compare w dummy_hash (lb_Password body) in refuse)
          (\<lambda>u.
            let hash = (if PortalPasswordHash u \<noteq> [] then PortalPasswordHash u else dummy_hash) in
            if \<not> w_compare w hash (lb_Password body) \<or> PortalPasswordHash u = [] then refuse
            else seq (reset_both ipKey userKey)
              (peek (\<lambda>p. reply (with_cookie (session_cookie portalCookie (portal_token w p (ID u) (SessionEpoch u)) 86400 p)
                (writeJSON 200 (jobj [(''username'', JStr (Username u))]))))))))"

definition handlePortalLogout :: handler where
  "handlePortalLogout = clear_cookie portalCookie"

definition sub_url :: "panel \<Rightarrow> user \<Rightarrow> string" where
  "sub_url p u = publicURL p @ ''/sub/'' @ SubToken u"

definition portal_node_json :: "user \<Rightarrow> node \<Rightarrow> json" where
  "portal_node_json u n = jobj [(''name'', JStr (n_Name n)), (''links'', jslice (map JStr (nodeLinks u n)))]"

definition handlePortalMe :: "world \<Rightarrow> request \<Rightarrow> handler" where
  "handlePortalMe w r = ask (portalUser w r) (\<lambda>who. case who of None \<Rightarrow> reply unauthorized_json
     | Some u \<Rightarrow> ask (userNodesList w u) (\<lambda>ns. peek (\<lambda>p. reply (writeJSON 200 (jobj
        [(''username'', JStr (Username u)), (''enabled'', JBool (Enabled u)), (''active'', JBool (active (w_now w) u)),
         (''data_used'', JNum (DataUsed u)), (''data_limit'', JNum (DataLimit u)), (''expire_at'', JNum (ExpireAt u)),
         (''must_change'', JBool (MustChangePW u)), (''nodes'', JArr (map (portal_node_json u) ns)),
         (''sub_url'', JStr (sub_url p u)), (''clash_url'', JStr (sub_url p u @ ''/clash'')),
         (''singbox_url'', JStr (sub_url p u @ ''/singbox''))])))))"

text \<open>The strength is checked on the trimmed password, the hash is of the password as sent.\<close>

definition handlePortalChangePassword :: "world \<Rightarrow> request \<Rightarrow> string option \<Rightarrow> handler" where
  "handlePortalChangePassword w r b = ask (portalUser w r) (\<lambda>who. case who of None \<Rightarrow> reply unauthorized_json
     | Some u \<Rightarrow> (case b of None \<Rightarrow> reply (writeErr 400 ''bad body'')
       | Some pw \<Rightarrow> (case validatePasswordStrength (w_unicode w) (TrimSpace pw) of Some e \<Rightarrow> reply (writeErr 400 e)
         | None \<Rightarrow> (case w_bcrypt w pw of Inl e \<Rightarrow> reply (writeErr 500 e)
           | Inr hash \<Rightarrow> db_case (ChangeUserPortalPassword (ID u) hash) (fail500 w)
               (\<lambda>x. db_case (GetUser (ID u)) (fail500 w)
                 (\<lambda>fresh. peek (\<lambda>p. reply (with_cookie
                    (session_cookie portalCookie (portal_token w p (ID u) (SessionEpoch fresh)) 86400 p)
                    (writeJSON 200 ok_json)))))))))"

definition handlePortalQR :: "world \<Rightarrow> request \<Rightarrow> handler" where
  "handlePortalQR w r = ask (portalUser w r) (\<lambda>who. case who of None \<Rightarrow> reply unauthorized
     | Some u \<Rightarrow> peek (\<lambda>p.
         let target = sub_url p u @ (if Query r ''t'' = ''clash'' then ''/clash'' else [])
         in if w_qr w target then reply (png target) else reply (httpError ''qr'' 500)))"

subsection \<open>What these handlers write\<close>

lemma both_confined [evolving]: "confined_upd A (fail_both w a b)" "confined_upd A (reset_both a b)"
  by (simp_all add: confined_upd_def fail_both_def reset_both_def lim_fail_def lim_reset_def on_lim_def ev_refl)

lemma throttled_confined [evolving]: "confined A nxt \<Longrightarrow> confined A (throttled w a b nxt)"
  unfolding throttled_def by (intro evolving)

lemma clear_cookie_confined [evolving]: "confined A (clear_cookie name)"
  unfolding clear_cookie_def by (intro evolving)

lemma handleLogin_confined:
  "(\<And>name ip. A (OAddAudit (w_now w) name ''login'' ip)) \<Longrightarrow> confined A (handleLogin w r b)"
  unfolding handleLogin_def Let_def by (intro evolving)

lemma portal_confined [evolving]:
  "confined A (handlePortalLogin w r b)" "confined A (handlePortalMe w r)" "confined A (handlePortalQR w r)"
  "confined A handlePortalLogout" "confined A handleLogout" "confined A (handleMe w v r)"
  unfolding handlePortalLogin_def handlePortalMe_def handlePortalQR_def handlePortalLogout_def handleLogout_def
    handleMe_def Let_def
  by (intro evolving)+

lemma handleLogoutAll_confined: "(\<And>name. A (OBumpAdminSessionEpoch name)) \<Longrightarrow> confined A (handleLogoutAll w r)"
  unfolding handleLogoutAll_def by (intro evolving)

lemma handlePortalChangePassword_confined:
  "(\<And>i h. A (OChangeUserPortalPassword i h)) \<Longrightarrow> confined A (handlePortalChangePassword w r b)"
  unfolding handlePortalChangePassword_def by (intro evolving)

end
