(* ===== verification/AdminApi.thy ===== *)
theory AdminApi
  imports Login
begin

section \<open>Administrators, two-factor, settings, Telegram (internal/panel: admins, twofa, settings, notify)\<close>

text \<open>
  The handlers behind \<open>requireAuth\<close> that concern the panel itself. A JSON body is a decoded value, \<open>None\<close>
  when it does not decode; each handler is confined to the store calls its code makes.
\<close>

definition bad_body :: response where
  "bad_body = writeErr 400 ''bad body''"

text \<open>\<^verbatim>\<open>crypter.encrypt\<close> draws the nonce of AES-GCM.\<close>

definition nonce :: "world \<Rightarrow> string" where
  "nonce w = w_draw w 9 12"

subsection \<open>Administrators (admins.go)\<close>

record admin_body =
  ab_Username :: string
  ab_Password :: string

definition handleListAdmins :: "world \<Rightarrow> handler" where
  "handleListAdmins w = db_case ListAdmins (fail500 w) (\<lambda>as. reply (writeJSON 200 (jslice (map JStr as))))"

definition handleCreateAdmin :: "world \<Rightarrow> request \<Rightarrow> admin_body option \<Rightarrow> handler" where
  "handleCreateAdmin w r b = (case b of None \<Rightarrow> reply bad_body
    | Some body \<Rightarrow> let name = TrimSpace (ab_Username body) in
       (case validateUsername name of Some e \<Rightarrow> reply (writeErr 400 e)
        | None \<Rightarrow> (case validatePasswordStrength (w_unicode w) (ab_Password body) of Some e \<Rightarrow> reply (writeErr 400 e)
          | None \<Rightarrow> db_case (GetAdmin name)
              (\<lambda>e. case w_bcrypt w (ab_Password body) of Inl e \<Rightarrow> reply (writeErr 500 e)
                | Inr hash \<Rightarrow> db_case (CreateAdmin name hash) (fail500 w)
                    (\<lambda>x. seq (audit w r ''admin.create'' name)
                      (reply (writeJSON 201 (jobj [(''username'', JStr name)])))))
              (\<lambda>adm. reply (writeErr 409 ''admin already exists'')))))"

definition handleDeleteAdmin :: "world \<Rightarrow> request \<Rightarrow> handler" where
  "handleDeleteAdmin w r =
     (let username = PathValue r ''username'' in
      db_case CountAdmins (fail500 w) (\<lambda>n.
        if n \<le> 1 then reply (writeErr 400 ''cannot delete the last admin'')
        else db_case (DeleteAdmin username) (fail500 w) (\<lambda>x.
          seq (db_do (BumpAdminSessionEpoch username))
            (seq (audit w r ''admin.delete'' username) (reply (writeJSON 200 ok_json))))))"

definition handleChangeAdminPassword :: "world \<Rightarrow> request \<Rightarrow> string option \<Rightarrow> handler" where
  "handleChangeAdminPassword w r b =
     (let username = PathValue r ''username'' in
      db_case (GetAdmin username) (\<lambda>e. reply (writeErr 404 ''not found'')) (\<lambda>adm.
        case b of None \<Rightarrow> reply bad_body
        | Some pw \<Rightarrow> (case validatePasswordStrength (w_unicode w) pw of Some e \<Rightarrow> reply (writeErr 400 e)
          | None \<Rightarrow> (case w_bcrypt w pw of Inl e \<Rightarrow> reply (writeErr 500 e)
            | Inr hash \<Rightarrow> db_case (SetAdminPassword username hash) (fail500 w)
                (\<lambda>x. seq (audit w r ''admin.password'' username) (reply (writeJSON 200 ok_json)))))))"

definition handleListAudit :: "world \<Rightarrow> handler" where
  "handleListAudit w = db_case (ListAudit 100) (fail500 w) (\<lambda>es. reply (writeJSON 200 (JArr (map audit_json es))))"

subsection \<open>Two-factor authentication (twofa.go)\<close>

definition as_admin :: "world \<Rightarrow> request \<Rightarrow> (admin \<Rightarrow> handler) \<Rightarrow> handler" where
  "as_admin w r h = ask (currentAdmin w r) (\<lambda>who. case who of None \<Rightarrow> reply unauthorized_json | Some adm \<Rightarrow> h adm)"

definition handle2FAStatus :: "world \<Rightarrow> request \<Rightarrow> handler" where
  "handle2FAStatus w r = as_admin w r (\<lambda>adm. reply (writeJSON 200 (jobj
     [(''enabled'', JBool (adm_TOTPEnabled adm)),
      (''pending'', JBool (\<not> adm_TOTPEnabled adm \<and> adm_TOTPSecret adm \<noteq> []))])))"

definition handle2FASetup :: "world \<Rightarrow> request \<Rightarrow> handler" where
  "handle2FASetup w r = as_admin w r (\<lambda>adm.
     if adm_TOTPEnabled adm then reply (writeErr 400 ''2fa already enabled; disable it first'')
     else let secret = newTOTPSecret (w_draw w 0 20) in
       db_case (SetAdminTOTP (nonce w) (adm_Username adm) secret False) (fail500 w) (\<lambda>x.
         reply (writeJSON 200 (jobj [(''secret'', JStr secret),
           (''otpauth_url'', JStr (otpauthURL ''Xuanwu'' (adm_Username adm) secret))]))))"

definition handle2FAVerify :: "world \<Rightarrow> request \<Rightarrow> string option \<Rightarrow> handler" where
  "handle2FAVerify w r b = as_admin w r (\<lambda>adm. case b of None \<Rightarrow> reply bad_body
     | Some code \<Rightarrow>
         if adm_TOTPSecret adm = [] \<or> \<not> totpVerify w (adm_TOTPSecret adm) code then reply (writeErr 400 ''invalid code'')
         else db_case (SetAdminTOTP (nonce w) (adm_Username adm) (adm_TOTPSecret adm) True) (fail500 w) (\<lambda>x.
           seq (audit w r ''2fa.enable'' (adm_Username adm)) (reply (writeJSON 200 (jobj [(''enabled'', JBool True)])))))"

text \<open>A body that does not decode leaves the code empty.\<close>

definition handle2FADisable :: "world \<Rightarrow> request \<Rightarrow> string option \<Rightarrow> handler" where
  "handle2FADisable w r b = as_admin w r (\<lambda>adm.
     let code = (case b of None \<Rightarrow> [] | Some c \<Rightarrow> c) in
     if adm_TOTPEnabled adm \<and> \<not> totpVerify w (adm_TOTPSecret adm) code then reply (writeErr 400 ''invalid code'')
     else db_case (SetAdminTOTP (nonce w) (adm_Username adm) [] False) (fail500 w) (\<lambda>x.
       seq (audit w r ''2fa.disable'' (adm_Username adm)) (reply (writeJSON 200 (jobj [(''enabled'', JBool False)])))))"

definition handle2FAQR :: "world \<Rightarrow> request \<Rightarrow> handler" where
  "handle2FAQR w r = ask (currentAdmin w r) (\<lambda>who. case who of None \<Rightarrow> reply (httpError ''no secret'' 404)
     | Some adm \<Rightarrow>
         if adm_TOTPSecret adm = [] then reply (httpError ''no secret'' 404)
         else let target = otpauthURL ''Xuanwu'' (adm_Username adm) (adm_TOTPSecret adm)
              in if w_qr w target then reply (png target) else reply (httpError ''qr'' 500))"

subsection \<open>Settings (settings.go)\<close>

text \<open>The mode the environment asks for, and what the database overrides.\<close>

definition seed_cookie_mode :: "string \<Rightarrow> string" where
  "seed_cookie_mode v =
     (let m = ToLower (TrimSpace v) in
      if m \<in> {''1'', ''true'', ''yes'', ''on''} then ''on''
      else if m \<in> {''0'', ''false'', ''no'', ''off''} then ''off'' else ''auto'')"

definition set_if_found :: "string \<Rightarrow> (string \<Rightarrow> live_settings \<Rightarrow> live_settings) \<Rightarrow> panel \<Rightarrow> panel" where
  "set_if_found key f p =
     (let (x, a) = on_store (GetSetting key) (pn_app p); p = p\<lparr>pn_app := a\<rparr>
      in case x of Inr (v, True) \<Rightarrow> p\<lparr>pn_set := f v (pn_set p)\<rparr> | _ \<Rightarrow> p)"

definition loadSettings :: "string \<Rightarrow> string \<Rightarrow> int \<Rightarrow> panel \<Rightarrow> panel" where
  "loadSettings env_cookie seedPublicURL seedBackupKeep p =
     (let p = p\<lparr>pn_set := (pn_set p)\<lparr>ls_publicURL := seedPublicURL, ls_backupKeep := seedBackupKeep,
                                   ls_cookieSecure := seed_cookie_mode env_cookie\<rparr>\<rparr>;
          p = set_if_found ''public_url'' (\<lambda>v s. if v \<noteq> [] then s\<lparr>ls_publicURL := v\<rparr> else s) p;
          p = set_if_found ''cookie_secure'' (\<lambda>v s. if v \<noteq> [] then s\<lparr>ls_cookieSecure := v\<rparr> else s) p;
          p = set_if_found ''backup_keep'' (\<lambda>v s. case ParseInt64 v of None \<Rightarrow> s | Some n \<Rightarrow> s\<lparr>ls_backupKeep := n\<rparr>) p
      in set_if_found ''clash_template'' (\<lambda>v s. s\<lparr>ls_clashTemplate := v\<rparr>) p)"

definition settings_json :: "live_settings \<Rightarrow> json" where
  "settings_json s = jobj [(''public_url'', JStr (ls_publicURL s)), (''cookie_secure'', JStr (ls_cookieSecure s)),
     (''backup_keep'', JNum (ls_backupKeep s)), (''clash_template'', JStr (ls_clashTemplate s))]"

definition handleGetSettings :: handler where
  "handleGetSettings = peek (\<lambda>p. reply (writeJSON 200 (settings_json (pn_set p))))"

record settings_body =
  sb_PublicURL :: "string option"
  sb_CookieSecure :: "string option"
  sb_BackupKeep :: "int option"
  sb_ClashTemplate :: "string option"

definition clean_url :: "string \<Rightarrow> string" where
  "clean_url v = TrimRight (TrimSpace v) ''/''"

definition clamp_keep :: "int \<Rightarrow> int" where
  "clamp_keep k = (if k < 0 then 0 else if k > 365 then 365 else k)"

text \<open>One setting: the live value, then the table; a failed write is dropped.\<close>

definition put_live :: "string \<Rightarrow> string \<Rightarrow> (live_settings \<Rightarrow> live_settings) \<Rightarrow> panel \<Rightarrow> panel" where
  "put_live key v f p = db_do (SetSetting key v) (p\<lparr>pn_set := f (pn_set p)\<rparr>)"

definition opt_do :: "'a option \<Rightarrow> ('a \<Rightarrow> panel \<Rightarrow> panel) \<Rightarrow> panel \<Rightarrow> panel" where
  "opt_do x f = (case x of None \<Rightarrow> id | Some y \<Rightarrow> f y)"

definition bad_settings :: "settings_body \<Rightarrow> string option" where
  "bad_settings body =
     (if (case sb_PublicURL body of None \<Rightarrow> False
          | Some v \<Rightarrow> clean_url v \<noteq> [] \<and> \<not> HasPrefix (clean_url v) ''http://'' \<and> \<not> HasPrefix (clean_url v) ''https://'')
      then Some ''public_url must start with http:// or https://''
      else if (case sb_CookieSecure body of None \<Rightarrow> False
          | Some v \<Rightarrow> ToLower (TrimSpace v) \<notin> {''auto'', ''on'', ''off''})
      then Some ''cookie_secure must be auto, on or off''
      else None)"

definition handlePutSettings :: "world \<Rightarrow> request \<Rightarrow> settings_body option \<Rightarrow> handler" where
  "handlePutSettings w r b = (case b of None \<Rightarrow> reply bad_body
    | Some body \<Rightarrow> (case bad_settings body of Some e \<Rightarrow> reply (writeErr 400 e)
      | None \<Rightarrow>
          seq (opt_do (sb_PublicURL body) (\<lambda>v. put_live ''public_url'' (clean_url v) (ls_publicURL_update (\<lambda>_. clean_url v))))
          (seq (opt_do (sb_CookieSecure body) (\<lambda>v. put_live ''cookie_secure'' (ToLower (TrimSpace v))
                 (ls_cookieSecure_update (\<lambda>_. ToLower (TrimSpace v)))))
          (seq (opt_do (sb_BackupKeep body) (\<lambda>k. put_live ''backup_keep'' (FormatInt (clamp_keep k))
                 (ls_backupKeep_update (\<lambda>_. clamp_keep k))))
          (seq (opt_do (sb_ClashTemplate body) (\<lambda>t. let t = ReplaceAll t [CHR 0x0D, CHR 0x0A] [CHR 0x0A]
                 in put_live ''clash_template'' t (ls_clashTemplate_update (\<lambda>_. t))))
          (seq (audit w r ''settings.update'' []) handleGetSettings))))))"

subsection \<open>Telegram (notify.go, app.go)\<close>

definition parseIDList :: "string \<Rightarrow> int list" where
  "parseIDList s = concat (map (\<lambda>x. let x = TrimSpace x in if x = [] then []
     else case ParseInt64 x of None \<Rightarrow> [] | Some i \<Rightarrow> [i]) (splitc (CHR '','') s))"

definition setTelegram :: "string \<Rightarrow> int list \<Rightarrow> panel \<Rightarrow> panel" where
  "setTelegram token adms = on_app (\<lambda>a. a\<lparr>a_tgToken := token, a_tgAdmins := adms\<rparr>)"

definition restartBot :: "panel \<Rightarrow> panel" where
  "restartBot p = (let token = a_tgToken (pn_app p) in p\<lparr>pn_bot := (if token = [] then None else Some token)\<rparr>)"

definition handleNotifyStatus :: handler where
  "handleNotifyStatus = peek (\<lambda>p. let token = a_tgToken (pn_app p); ids = a_tgAdmins (pn_app p) in
     reply (writeJSON 200 (jobj
       [(''enabled'', JBool (token \<noteq> [] \<and> ids \<noteq> [])), (''has_token'', JBool (token \<noteq> [])),
        (''admin_ids'', JArr (map JNum ids)),
        (''events'', jstrs [''node offline'', ''node back online'', ''user disabled / over quota / expired''])])))"

record notify_body =
  nb_Token :: "string option"
  nb_AdminIDs :: string

definition bool_text :: "bool \<Rightarrow> string" where
  "bool_text b = (if b then ''true'' else ''false'')"

definition notify_detail :: "string \<Rightarrow> int list \<Rightarrow> string" where
  "notify_detail token ids = ''token_set='' @ bool_text (token \<noteq> []) @ '' admins='' @ FormatInt (int (length ids))"

definition handleNotifySettings :: "world \<Rightarrow> request \<Rightarrow> notify_body option \<Rightarrow> handler" where
  "handleNotifySettings w r b = (case b of None \<Rightarrow> reply bad_body
    | Some body \<Rightarrow>
        let ids = parseIDList (nb_AdminIDs body);
            finish = (\<lambda>newToken. db_case (SetSetting ''telegram_admin_ids'' (nb_AdminIDs body)) (fail500 w) (\<lambda>x.
              seq (setTelegram newToken ids) (seq restartBot
                (seq (audit w r ''telegram.settings'' (notify_detail newToken ids)) handleNotifyStatus))))
        in case nb_Token body of
             None \<Rightarrow> peek (\<lambda>p. finish (a_tgToken (pn_app p)))
           | Some t \<Rightarrow> db_case (SetSecretSetting (nonce w) ''telegram_token'' (TrimSpace t)) (fail500 w)
               (\<lambda>x. finish (TrimSpace t)))"

definition test_text :: string where
  "test_text = [CHR 0xF0, CHR 0x9F, CHR 0x94, CHR 0x94] @ '' Xuanwu test notification '' @ [CHR 0xE2, CHR 0x80, CHR 0x94] @
     '' your alerts are working.''"

definition handleNotifyTest :: handler where
  "handleNotifyTest = peek (\<lambda>p.
     if \<not> notifyEnabled (pn_app p)
     then reply (writeErr 400 ''telegram not configured (set a bot token and at least one admin chat id)'')
     else seq (on_app (notifyAdmins test_text)) (reply (writeJSON 200 ok_json)))"

subsection \<open>What these handlers write\<close>

lemma as_admin_confined [evolving]: "(\<And>adm. confined A (h adm)) \<Longrightarrow> confined A (as_admin w r h)"
  unfolding as_admin_def by (intro evolving)

lemma put_live_confined [evolving]: "A (OSetSetting k v) \<Longrightarrow> confined_upd A (put_live k v f)"
  by (simp add: confined_upd_def put_live_def db_do_def) (metis (no_types, lifting) do_store_evolves writes_evolve(2))

lemma opt_do_confined [evolving]: "(\<And>y. x = Some y \<Longrightarrow> confined_upd A (f y)) \<Longrightarrow> confined_upd A (opt_do x f)"
  by (cases x) (auto simp: opt_do_def confined_upd_def ev_refl)

lemma telegram_confined [evolving]: "confined_upd A (setTelegram token ids)" "confined_upd A restartBot"
  by (simp_all add: confined_upd_def setTelegram_def restartBot_def on_app_def Let_def ev_refl)

lemma let_upd_confined [evolving]: "confined_upd A (h v) \<Longrightarrow> confined_upd A (let x = v in h x)"
  by simp

lemma lists_confined [evolving]:
  "confined A (handleListAdmins w)" "confined A (handleListAudit w)" "confined A (handle2FAStatus w r)"
  "confined A (handle2FAQR w r)" "confined A handleGetSettings" "confined A handleNotifyStatus" "confined A handleNotifyTest"
  unfolding handleListAdmins_def handleListAudit_def handle2FAStatus_def handle2FAQR_def handleGetSettings_def
    handleNotifyStatus_def handleNotifyTest_def Let_def
  by (intro evolving)+

definition admin_api_op :: "world \<Rightarrow> store_op \<Rightarrow> bool" where
  "admin_api_op w x \<longleftrightarrow> (case x of
       OAddAudit t a b c \<Rightarrow> t = w_now w
     | OCreateAdmin u h \<Rightarrow> validateUsername u = None
     | ODeleteAdmin u \<Rightarrow> True | OBumpAdminSessionEpoch u \<Rightarrow> True | OSetAdminPassword u h \<Rightarrow> True
     | OSetAdminTOTP nc u s e \<Rightarrow> True | OSetSetting k v \<Rightarrow> k \<noteq> ''telegram_token'' | OSetSecretSetting nc k v \<Rightarrow> True
     | _ \<Rightarrow> False)"

lemma admin_handlers_confined:
  "confined (admin_api_op w) (handleCreateAdmin w r b1)" "confined (admin_api_op w) (handleDeleteAdmin w r)"
  "confined (admin_api_op w) (handleChangeAdminPassword w r b2)" "confined (admin_api_op w) (handle2FASetup w r)"
  "confined (admin_api_op w) (handle2FAVerify w r b2)" "confined (admin_api_op w) (handle2FADisable w r b2)"
  "confined (admin_api_op w) (handlePutSettings w r b3)" "confined (admin_api_op w) (handleNotifySettings w r b4)"
  unfolding handleCreateAdmin_def handleDeleteAdmin_def handleChangeAdminPassword_def handle2FASetup_def handle2FAVerify_def
    handle2FADisable_def handlePutSettings_def handleNotifySettings_def Let_def
  by (intro evolving; simp add: admin_api_op_def)+

end
