(* ===== verification/Api.thy ===== *)
theory Api
  imports AdminApi
begin

unbundle bit_operations_syntax

section \<open>Nodes, users and reports (internal/panel/api.go, keys.go, internal/nodekey)\<close>

text \<open>
  The handlers behind \<open>requireAuth\<close> that concern nodes and users, with the calls to the hub that follow
  a change, and the reports. A JSON body is a decoded value, \<open>None\<close> when it does not decode.
\<close>

definition bad_id :: response where
  "bad_id = writeErr 400 ''bad id''"

definition not_found_json :: response where
  "not_found_json = writeErr 404 ''not found''"

definition with_id :: "request \<Rightarrow> (int \<Rightarrow> handler) \<Rightarrow> handler" where
  "with_id r h = (case pathID r of None \<Rightarrow> reply bad_id | Some i \<Rightarrow> h i)"

text \<open>A call whose error leaves a default behind.\<close>

definition db_default :: "'a sql \<Rightarrow> 'a \<Rightarrow> ('a \<Rightarrow> handler) \<Rightarrow> handler" where
  "db_default m d k = db_case m (\<lambda>e. k d) k"

lemma with_id_confined [evolving]: "(\<And>i. confined A (h i)) \<Longrightarrow> confined A (with_id r h)"
  unfolding with_id_def by (intro evolving)

lemma db_default_confined [evolving]: "sql_evolves A m \<Longrightarrow> (\<And>x. confined A (k x)) \<Longrightarrow> confined A (db_default m d k)"
  unfolding db_default_def by (intro evolving)

subsection \<open>Nodes\<close>

definition count_of :: "(int \<times> nat) list \<Rightarrow> int \<Rightarrow> int" where
  "count_of m i = (case map_of m i of None \<Rightarrow> 0 | Some n \<Rightarrow> int n)"

definition th_Total :: "throughput \<Rightarrow> rat" where
  "th_Total t = th_Up t + th_Down t"

definition node_view :: "world \<Rightarrow> app \<Rightarrow> (int \<times> nat) list \<Rightarrow> node \<Rightarrow> json" where
  "node_view w a clients n =
     (let rate = getNodeRate (w_now w) (n_ID n) a in jobj
       [(''id'', JNum (n_ID n)), (''name'', JStr (n_Name n)), (''address'', JStr (n_Address n)), (''remark'', JStr (n_Remark n)),
        (''online'', JBool (n_ID n \<in> set (OnlineNodeIDs a))), (''last_seen'', JNum (n_LastSeen n)),
        (''reality_dest'', JStr (n_RealityDest n)), (''reality_server_name'', JStr (n_RealityServerName n)),
        (''reality_public_key'', JStr (n_RealityPublicKey n)), (''reality_short_id'', JStr (n_RealityShortID n)),
        (''tls_domain'', JStr (n_TLSDomain n)), (''agent_version'', JStr (n_AgentVersion n)),
        (''metrics'', (case getNodeMetrics (n_ID n) a of None \<Rightarrow> JNull | Some m \<Rightarrow> m)),
        (''rate_bps'', JFloat (th_Total rate)), (''rate_up_bps'', JFloat (th_Up rate)), (''rate_down_bps'', JFloat (th_Down rate)),
        (''clients'', JNum (count_of clients (n_ID n)))])"

definition handleListNodes :: "world \<Rightarrow> handler" where
  "handleListNodes w = db_case (ListNodes (w_now w)) (fail500 w) (\<lambda>ns.
     db_default (NodeClientCounts (w_now w - 300)) [] (\<lambda>clients.
       peek (\<lambda>p. reply (writeJSON 200 (JArr (map (node_view w (pn_app p) clients) ns))))))"

definition handleCreateNode :: "world \<Rightarrow> request \<Rightarrow> node option \<Rightarrow> handler" where
  "handleCreateNode w r b = (case b of None \<Rightarrow> reply bad_body
    | Some n \<Rightarrow>
        if TrimSpace (n_Name n) = [] then reply (writeErr 400 ''name required'')
        else (case validateNode n of Some e \<Rightarrow> reply (writeErr 400 e)
          | None \<Rightarrow> let n = n\<lparr>n_Token := randToken (w_draw w 0 24)\<rparr> in
              db_case (CreateNode (nonce w) (w_now w) n) (fail500 w) (\<lambda>i.
                seq (audit w r ''node.create'' (n_Name n)) (reply (writeJSON 201 (node_json (n\<lparr>n_ID := i\<rparr>)))))))"

text \<open>The fields a body may name; \<^verbatim>\<open>Decode\<close> overwrites those and no others (id and token are put back).\<close>

record node_patch =
  np_Name :: "string option"
  np_Address :: "string option"
  np_Remark :: "string option"
  np_LastSeen :: "int option"
  np_Online :: "bool option"
  np_CreatedAt :: "int option"
  np_Dest :: "string option"
  np_ServerName :: "string option"
  np_PrivateKey :: "string option"
  np_PublicKey :: "string option"
  np_ShortID :: "string option"
  np_Domain :: "string option"
  np_AgentVersion :: "string option"

definition or_old :: "'a option \<Rightarrow> 'a \<Rightarrow> 'a" where
  "or_old x y = (case x of None \<Rightarrow> y | Some z \<Rightarrow> z)"

definition patch_node :: "node_patch \<Rightarrow> node \<Rightarrow> node" where
  "patch_node b n = n\<lparr>n_Name := or_old (np_Name b) (n_Name n), n_Address := or_old (np_Address b) (n_Address n),
     n_Remark := or_old (np_Remark b) (n_Remark n), n_LastSeen := or_old (np_LastSeen b) (n_LastSeen n),
     n_Online := or_old (np_Online b) (n_Online n), n_CreatedAt := or_old (np_CreatedAt b) (n_CreatedAt n),
     n_RealityDest := or_old (np_Dest b) (n_RealityDest n),
     n_RealityServerName := or_old (np_ServerName b) (n_RealityServerName n),
     n_RealityPrivateKey := or_old (np_PrivateKey b) (n_RealityPrivateKey n),
     n_RealityPublicKey := or_old (np_PublicKey b) (n_RealityPublicKey n),
     n_RealityShortID := or_old (np_ShortID b) (n_RealityShortID n), n_TLSDomain := or_old (np_Domain b) (n_TLSDomain n),
     n_AgentVersion := or_old (np_AgentVersion b) (n_AgentVersion n)\<rparr>"

definition handleUpdateNode :: "world \<Rightarrow> request \<Rightarrow> node_patch option \<Rightarrow> handler" where
  "handleUpdateNode w r b = with_id r (\<lambda>i. db_case (GetNode (w_now w) i) (\<lambda>e. reply not_found_json) (\<lambda>old.
     case b of None \<Rightarrow> reply bad_body
     | Some body \<Rightarrow>
         let n = (patch_node body old)\<lparr>n_ID := i, n_Token := n_Token old\<rparr>;
             n = (if TrimSpace (n_RealityPrivateKey n) = [] then n\<lparr>n_RealityPrivateKey := n_RealityPrivateKey old\<rparr> else n)
         in (case validateNode n of Some e \<Rightarrow> reply (writeErr 400 e)
           | None \<Rightarrow> db_case (UpdateNode (nonce w) n) (fail500 w) (\<lambda>x.
               seq (on_app (forceSyncNode (w_sha w) (w_now w) i)) (reply (writeJSON 200 (node_json n)))))))"

definition handleDeleteNode :: "world \<Rightarrow> request \<Rightarrow> handler" where
  "handleDeleteNode w r = with_id r (\<lambda>i. db_case (DeleteNode i) (fail500 w) (\<lambda>x.
     seq (audit w r ''node.delete'' (''id='' @ FormatInt i)) (reply (writeJSON 200 ok_json))))"

definition compose_cmd :: "panel \<Rightarrow> node \<Rightarrow> string" where
  "compose_cmd p n = ''PANEL_URL='' @ publicURL p @ '' NODE_TOKEN='' @ n_Token n @ '' DOMAIN='' @ n_TLSDomain n @
     '' docker compose up -d --pull always''"

definition handleNodeInstall :: "world \<Rightarrow> request \<Rightarrow> handler" where
  "handleNodeInstall w r = with_id r (\<lambda>i. db_case (GetNode (w_now w) i) (\<lambda>e. reply not_found_json) (\<lambda>n.
     peek (\<lambda>p. reply (writeJSON 200 (jobj [(''token'', JStr (n_Token n)), (''panel_url'', JStr (publicURL p)),
       (''compose_cmd'', JStr (compose_cmd p n))])))))"

definition handleNodeTrafficHistory :: "world \<Rightarrow> request \<Rightarrow> handler" where
  "handleNodeTrafficHistory w r = with_id r (\<lambda>i. db_case (NodeDaily (w_now w) i (query_days r)) (fail500 w) (\<lambda>hist.
     reply (writeJSON 200 (JArr (map daily_json hist)))))"

subsection \<open>Fresh node keys\<close>

text \<open>The RFC 7748 clamp of a 32-byte scalar.\<close>

definition clamp :: "string \<Rightarrow> string" where
  "clamp priv =
     (let p = priv[0 := word_byte (byte_word (priv ! 0) AND 248)]
      in p[31 := word_byte ((byte_word (p ! 31) AND 127) OR 64)])"

definition GenerateKeypair :: "world \<Rightarrow> string + string \<times> string" where
  "GenerateKeypair w =
     (let priv = clamp (w_draw w 0 32) in
      case w_x25519 w priv of Inl e \<Rightarrow> Inl e | Inr pub \<Rightarrow> Inr (RawURLEncode priv, RawURLEncode pub))"

definition GenerateShortID :: "world \<Rightarrow> string" where
  "GenerateShortID w = hexEncode (w_draw w 1 8)"

definition handleRealityKeys :: "world \<Rightarrow> handler" where
  "handleRealityKeys w = (case GenerateKeypair w of Inl e \<Rightarrow> reply (writeErr 500 e)
     | Inr (priv, pub) \<Rightarrow> reply (writeJSON 200 (jobj
         [(''private_key'', JStr priv), (''public_key'', JStr pub), (''short_id'', JStr (GenerateShortID w))])))"

subsection \<open>Users\<close>

definition eta :: "int \<Rightarrow> user \<Rightarrow> user" where
  "eta a u = (if DataLimit u > 0 \<and> DataUsed u < DataLimit u \<and> a > 0
     then u\<lparr>EtaDays := go_div (DataLimit u - DataUsed u + a - 1) a\<rparr> else u)"

definition int_of :: "(int \<times> int) list \<Rightarrow> int \<Rightarrow> int" where
  "int_of m i = (case map_of m i of None \<Rightarrow> 0 | Some n \<Rightarrow> n)"

text \<open>Thirty days back is counted in the clock's UTC; a failed count or average leaves the users as they are.\<close>

definition handleListUsers :: "world \<Rightarrow> handler" where
  "handleListUsers w = db_case ListUsers (fail500 w) (\<lambda>us.
     ask (db_case (DeviceCounts (w_now w - 30 * 86400)) (\<lambda>e. give us)
            (\<lambda>counts. give (map (\<lambda>u. u\<lparr>DeviceCount := count_of counts (ID u)\<rparr>) us))) (\<lambda>us.
     ask (db_case (RecentDailyAvg (w_now w) 7) (\<lambda>e. give us)
            (\<lambda>avg. give (map (\<lambda>u. eta (int_of avg (ID u)) u) us))) (\<lambda>us.
     reply (writeJSON 200 (jslice (map user_json us))))))"

definition handleUserDevices :: "world \<Rightarrow> request \<Rightarrow> handler" where
  "handleUserDevices w r = with_id r (\<lambda>i. db_case (ListUserDevices i) (fail500 w) (\<lambda>ds.
     reply (writeJSON 200 (jslice (map device_json ds)))))"

record user_body =
  ub_Username :: string
  ub_DataLimit :: int
  ub_ExpireAt :: int
  ub_ResetDay :: int
  ub_Note :: string
  ub_Enabled :: "bool option"
  ub_NodeIDs :: "int list"

definition bad_reset_day :: response where
  "bad_reset_day = writeErr 400 ''reset_day must be 0-28''"

definition new_user :: "world \<Rightarrow> string \<Rightarrow> user_body \<Rightarrow> user" where
  "new_user w name b = \<lparr>ID = 0, Username = name, UUID = newUUID (w_draw w 0 16), SubToken = randToken (w_draw w 1 18),
     DataLimit = ub_DataLimit b, DataUsed = 0, ExpireAt = ub_ExpireAt b, Enabled = or_old (ub_Enabled b) True, CreatedAt = 0,
     NodeIDs = [], PortalPasswordHash = [], HasPortalPassword = False, ResetDay = ub_ResetDay b, LastReset = 0,
     SessionEpoch = 0, MustChangePW = False, DeviceCount = 0, EtaDays = 0, Note = TrimSpace (ub_Note b)\<rparr>"

definition handleCreateUser :: "world \<Rightarrow> request \<Rightarrow> user_body option \<Rightarrow> handler" where
  "handleCreateUser w r b = (case b of None \<Rightarrow> reply bad_body
    | Some body \<Rightarrow> let name = TrimSpace (ub_Username body) in
       (case validateUsername name of Some e \<Rightarrow> reply (writeErr 400 e)
        | None \<Rightarrow>
           if ub_ResetDay body < 0 \<or> ub_ResetDay body > 28 then reply bad_reset_day
           else let u = new_user w name body in
             db_case (CreateUser (w_now w) u) (fail500 w) (\<lambda>i.
               seq (if ub_NodeIDs body \<noteq> []
                    then sync_nodes w (ub_NodeIDs body) \<circ> db_do (SetUserNodes i (ub_NodeIDs body)) else id)
               (seq (audit w r ''user.create'' (Username u))
                 (reply (writeJSON 201 (user_json (u\<lparr>ID := i, NodeIDs := ub_NodeIDs body\<rparr>))))))))"

record user_patch =
  up_DataLimit :: "int option"
  up_ExpireAt :: "int option"
  up_ResetDay :: "int option"
  up_Note :: "string option"
  up_Enabled :: "bool option"

definition patch_user :: "user_patch \<Rightarrow> user \<Rightarrow> user" where
  "patch_user b u = u\<lparr>DataLimit := or_old (up_DataLimit b) (DataLimit u), ExpireAt := or_old (up_ExpireAt b) (ExpireAt u),
     ResetDay := or_old (up_ResetDay b) (ResetDay u), Note := or_old (map_option TrimSpace (up_Note b)) (Note u),
     Enabled := or_old (up_Enabled b) (Enabled u)\<rparr>"

definition with_user :: "request \<Rightarrow> (int \<Rightarrow> user \<Rightarrow> handler) \<Rightarrow> handler" where
  "with_user r h = with_id r (\<lambda>i. db_case (GetUser i) (\<lambda>e. reply not_found_json) (h i))"

definition handleUpdateUser :: "world \<Rightarrow> request \<Rightarrow> user_patch option \<Rightarrow> handler" where
  "handleUpdateUser w r b = with_user r (\<lambda>i u. case b of None \<Rightarrow> reply bad_body
     | Some body \<Rightarrow>
         if (case up_ResetDay body of None \<Rightarrow> False | Some k \<Rightarrow> k < 0 \<or> k > 28) then reply bad_reset_day
         else let u = patch_user body u in
           db_case (UpdateUser u) (fail500 w) (\<lambda>x. seq (sync_nodes w (NodeIDs u)) (reply (writeJSON 200 (user_json u)))))"

definition handleDeleteUser :: "world \<Rightarrow> request \<Rightarrow> handler" where
  "handleDeleteUser w r = with_user r (\<lambda>i u. db_case (DeleteUser i) (fail500 w) (\<lambda>x.
     seq (sync_nodes w (NodeIDs u)) (seq (audit w r ''user.delete'' (Username u)) (reply (writeJSON 200 ok_json)))))"

text \<open>\<open>touched\<close>: the nodes left and the nodes joined, each once; an absent list is \<open>nil\<close>.\<close>

definition handleSetUserNodes :: "world \<Rightarrow> request \<Rightarrow> int list option option \<Rightarrow> handler" where
  "handleSetUserNodes w r b = with_user r (\<lambda>i u. case b of None \<Rightarrow> reply bad_body
     | Some body \<Rightarrow> let ids = or_old body [] in
         db_case (SetUserNodes i ids) (fail500 w) (\<lambda>x.
           seq (sync_nodes w (w_range w (remdups (NodeIDs u @ ids))))
             (reply (writeJSON 200 (jobj [(''node_ids'', case body of None \<Rightarrow> JNull | Some xs \<Rightarrow> JArr (map JNum xs))])))))"

definition handleResetUserTraffic :: "world \<Rightarrow> request \<Rightarrow> handler" where
  "handleResetUserTraffic w r = with_id r (\<lambda>i. db_case (ResetUserTraffic i) (fail500 w) (\<lambda>x.
     db_case (GetUser i) (\<lambda>e. reply (writeJSON 200 ok_json))
       (\<lambda>u. seq (sync_nodes w (NodeIDs u)) (reply (writeJSON 200 ok_json)))))"

definition handleRotateSub :: "world \<Rightarrow> request \<Rightarrow> handler" where
  "handleRotateSub w r = with_user r (\<lambda>i u. (
     let tok = randToken (w_draw w 0 18) in
     db_case (SetUserSubToken i tok) (fail500 w) (\<lambda>x.
       seq (audit w r ''user.rotate_sub'' (''id='' @ FormatInt i))
         (peek (\<lambda>p. reply (writeJSON 200 (jobj [(''sub_token'', JStr tok), (''sub_url'', JStr (publicURL p @ ''/sub/'' @ tok))])))))))"

definition handleRotateUUID :: "world \<Rightarrow> request \<Rightarrow> handler" where
  "handleRotateUUID w r = with_user r (\<lambda>i u. (
     let uuid = newUUID (w_draw w 0 16) in
     db_case (SetUserUUID i uuid) (fail500 w) (\<lambda>x.
       seq (sync_nodes w (NodeIDs u))
         (seq (audit w r ''user.rotate_uuid'' (Username u)) (reply (writeJSON 200 (jobj [(''uuid'', JStr uuid)])))))))"

definition handleUserTrafficHistory :: "world \<Rightarrow> request \<Rightarrow> handler" where
  "handleUserTrafficHistory w r = with_id r (\<lambda>i. db_case (TrafficHistory (w_now w) i (query_days r)) (fail500 w) (\<lambda>hist.
     reply (writeJSON 200 (JArr (map daily_json hist)))))"

definition handleUserTrafficNodes :: "world \<Rightarrow> request \<Rightarrow> handler" where
  "handleUserTrafficNodes w r = with_id r (\<lambda>i. db_case (UserTrafficByNode i) (fail500 w) (\<lambda>rows.
     reply (writeJSON 200 (jslice (map usage_json rows)))))"

definition handleSetPortalPassword :: "world \<Rightarrow> request \<Rightarrow> string option \<Rightarrow> handler" where
  "handleSetPortalPassword w r b = with_user r (\<lambda>i u. (
     case b of None \<Rightarrow> reply bad_body
     | Some raw \<Rightarrow> let pw = TrimSpace raw in
         if pw = [] then db_case (SetUserPortalPassword i [] False) (fail500 w) (\<lambda>x.
           seq (db_do (BumpUserSessionEpoch i)) (reply (writeJSON 200 (jobj [(''has_portal_password'', JBool False)]))))
         else (case validatePasswordStrength (w_unicode w) pw of Some e \<Rightarrow> reply (writeErr 400 e)
           | None \<Rightarrow> (case w_bcrypt w pw of Inl e \<Rightarrow> reply (writeErr 500 e)
             | Inr hash \<Rightarrow> db_case (SetUserPortalPassword i hash True) (fail500 w) (\<lambda>x.
                 seq (db_do (BumpUserSessionEpoch i)) (reply (writeJSON 200 (jobj [(''has_portal_password'', JBool True)]))))))))"

definition handleUserSubInfo :: "world \<Rightarrow> request \<Rightarrow> handler" where
  "handleUserSubInfo w r = with_user r (\<lambda>i u. peek (\<lambda>p. reply (writeJSON 200 (jobj [(''sub_url'', JStr (sub_url p u))]))))"

subsection \<open>Statistics\<close>

definition total_split :: "node_usage list \<Rightarrow> split_bytes" where
  "total_split us = \<lparr>ts_Up = sum_list (map nu_Up us), ts_Down = sum_list (map nu_Down us)\<rparr>"

definition handleStats :: "world \<Rightarrow> request \<Rightarrow> handler" where
  "handleStats w r = db_case NodeTrafficTotals (fail500 w) (\<lambda>nodeAgg. db_case UserTrafficTotals (fail500 w) (\<lambda>userAgg.
     db_case (PeriodTotals (w_now w)) (fail500 w) (\<lambda>(today, month). db_case (FleetDaily (w_now w) (query_days r)) (fail500 w) (\<lambda>trend.
       reply (writeJSON 200 (jobj [(''total'', split_json (total_split nodeAgg)), (''today'', split_json today),
         (''month'', split_json month), (''trend'', JArr (map daily_json trend)),
         (''nodes'', jslice (map usage_json nodeAgg)),
         (''users'', jobj (map (\<lambda>(i, t). (FormatInt i, split_json t)) userAgg))]))))))"

subsection \<open>What these handlers write\<close>

lemma with_user_confined [evolving]: "(\<And>i u. confined A (h i u)) \<Longrightarrow> confined A (with_user r h)"
  unfolding with_user_def by (intro evolving)

lemma comp_confined [evolving]: "confined_upd A g \<Longrightarrow> confined_upd A f \<Longrightarrow> confined_upd A (g \<circ> f)" "confined_upd A id"
  by (simp_all add: confined_upd_def ev_refl) (metis evolves_trans)

lemma read_handlers_confined [evolving]:
  "confined A (handleListNodes w)" "confined A (handleNodeInstall w r)" "confined A (handleNodeTrafficHistory w r)"
  "confined A (handleRealityKeys w)" "confined A (handleListUsers w)" "confined A (handleUserDevices w r)"
  "confined A (handleUserTrafficHistory w r)" "confined A (handleUserTrafficNodes w r)" "confined A (handleUserSubInfo w r)"
  "confined A (handleStats w r)"
  unfolding handleListNodes_def handleNodeInstall_def handleNodeTrafficHistory_def handleRealityKeys_def handleListUsers_def
    handleUserDevices_def handleUserTrafficHistory_def handleUserTrafficNodes_def handleUserSubInfo_def handleStats_def Let_def
  by (intro evolving)+

text \<open>The calls of the rest: what is stored has been validated.\<close>

definition api_op :: "world \<Rightarrow> store_op \<Rightarrow> bool" where
  "api_op w x \<longleftrightarrow> (case x of
       OAddAudit t a b c \<Rightarrow> t = w_now w
     | OCreateNode nc t n \<Rightarrow> t = w_now w \<and> validateNode n = None
     | OUpdateNode nc n \<Rightarrow> validateNode n = None
     | ODeleteNode i \<Rightarrow> True
     | OCreateUser t u \<Rightarrow> t = w_now w \<and> validateUsername (Username u) = None \<and> 0 \<le> ResetDay u \<and> ResetDay u \<le> 28 \<and>
         (\<exists>b. UUID u = newUUID b) \<and> (\<exists>b. SubToken u = randToken b)
     | OUpdateUser u \<Rightarrow> True | ODeleteUser i \<Rightarrow> True | OSetUserNodes i ns \<Rightarrow> True | OResetUserTraffic i \<Rightarrow> True
     | OSetUserSubToken i t \<Rightarrow> (\<exists>b. t = randToken b)
     | OSetUserUUID i v \<Rightarrow> (\<exists>b. v = newUUID b)
     | OSetUserPortalPassword i h m \<Rightarrow> True | OBumpUserSessionEpoch i \<Rightarrow> True
     | _ \<Rightarrow> False)"

lemma validateNode_token [simp]: "validateNode (n\<lparr>n_Token := t\<rparr>) = validateNode n" "validateNode (n\<lparr>n_ID := i\<rparr>) = validateNode n"
  by (cases n; simp only: validateNode_def node.simps)+

lemma api_handlers_confined:
  "confined (api_op w) (handleCreateNode w r b1)" "confined (api_op w) (handleUpdateNode w r b2)"
  "confined (api_op w) (handleDeleteNode w r)" "confined (api_op w) (handleCreateUser w r b3)"
  "confined (api_op w) (handleUpdateUser w r b4)" "confined (api_op w) (handleDeleteUser w r)"
  "confined (api_op w) (handleSetUserNodes w r b5)" "confined (api_op w) (handleResetUserTraffic w r)"
  "confined (api_op w) (handleRotateSub w r)" "confined (api_op w) (handleRotateUUID w r)"
  "confined (api_op w) (handleSetPortalPassword w r b6)"
  unfolding handleCreateNode_def handleUpdateNode_def handleDeleteNode_def handleCreateUser_def handleUpdateUser_def
    handleDeleteUser_def handleSetUserNodes_def handleResetUserTraffic_def handleRotateSub_def handleRotateUUID_def
    handleSetPortalPassword_def Let_def
  by (intro evolving; auto simp: api_op_def new_user_def split: if_splits)+

end
