(* ===== verification/Sessions.thy ===== *)
theory Sessions
  imports Auth
begin

section \<open>Sessions: round trip, forgery, revocation\<close>

text \<open>
  What a signed token is worth: it is read back until it expires; under an unforgeable MAC only
  issued sessions are accepted, each in its own role; and once an account's epoch has moved on no
  older token of it is accepted again, whatever the panel does, unless the account is deleted and
  created anew.
\<close>

lemma verify_signed:
  assumes "w_hmac v = w_hmac w" and "bar \<notin> set role" and "bar \<notin> set subject"
    and "- (2 ^ 63) \<le> epoch" and "epoch < 2 ^ 63" and "- (2 ^ 63) \<le> w_now w + ttl" and "w_now w + ttl < 2 ^ 63"
  shows "verifySession v secret (signSession w secret role subject epoch ttl) =
    (if w_now v < w_now w + ttl then Some (role, subject, epoch) else None)"
proof -
  let ?m = "session_payload role subject epoch (w_now w + ttl)"
  have h: "hmacHex v secret m = hmacHex w secret m" for m by (simp add: hmacHex_def assms(1))
  have s: "splitc bar (?m @ [bar] @ hmacHex w secret ?m) =
      [role, subject, FormatInt epoch, FormatInt (w_now w + ttl), hmacHex w secret ?m]"
    by (rule split_payload) (use assms in simp_all)
  have p: "ParseInt64 (FormatInt epoch) = Some epoch" "ParseInt64 (FormatInt (w_now w + ttl)) = Some (w_now w + ttl)"
    using assms(4-7) by (simp_all add: ParseInt64_FormatInt)
  have j: "Join [role, subject, FormatInt epoch, FormatInt (w_now w + ttl)] [bar] = ?m"
    by (simp add: session_payload_def)
  show ?thesis
    unfolding verifySession_def signSession_def Let_def RawURL_roundtrip option.case s list.case
    by (simp only: h j p option.case refl not_True_eq_False if_False) (simp add: not_le)
qed

text \<open>
  The session round trip. A token the panel signs is read back with the role, subject and epoch it was
  signed with, by any later process with the same secret, until exactly its expiry and not after.
  (Roles and subjects have no separator: subjects are validated user names or decimal numbers.)
\<close>
theorem session_roundtrip:
  assumes "w_hmac v = w_hmac w" and "bar \<notin> set role" and "bar \<notin> set subject"
    and "- (2 ^ 63) \<le> epoch" and "epoch < 2 ^ 63" and "- (2 ^ 63) \<le> w_now w + ttl" and "w_now w + ttl < 2 ^ 63"
  shows "verifySession v secret (signSession w secret role subject epoch ttl) =
    (if w_now v < w_now w + ttl then Some (role, subject, epoch) else None)"
  using assms by (rule verify_signed)

theorem session_roundtrip_witness:
  "verifySession plain_world ''k'' (signSession plain_world ''k'' roleUser ''17'' 3 60) = Some (roleUser, ''17'', 3) \<and>
   verifySession (plain_world\<lparr>w_nanos := 1060 * 10 ^ 9\<rparr>) ''k'' (signSession plain_world ''k'' roleUser ''17'' 3 60) = None"
proof
  have n: "w_now plain_world = 1000" "w_now (plain_world\<lparr>w_nanos := 1060 * 10 ^ 9\<rparr>) = 1060"
    by (simp_all add: w_now_def plain_world_def)
  show "verifySession plain_world ''k'' (signSession plain_world ''k'' roleUser ''17'' 3 60) = Some (roleUser, ''17'', 3)"
    using session_roundtrip [of plain_world plain_world roleUser "''17''" 3 60 "''k''"] by (simp add: n)
  show "verifySession (plain_world\<lparr>w_nanos := 1060 * 10 ^ 9\<rparr>) ''k'' (signSession plain_world ''k'' roleUser ''17'' 3 60) = None"
    using session_roundtrip [of "plain_world\<lparr>w_nanos := 1060 * 10 ^ 9\<rparr>" plain_world roleUser "''17''" 3 60 "''k''"]
    unfolding n by (simp add: plain_world_def)
qed

subsection \<open>Forgery\<close>

text \<open>A session as it was issued: role, subject, epoch, expiry; and the token of a set of them.\<close>

type_synonym issued = "string \<times> string \<times> int \<times> int"

definition issued_ok :: "issued \<Rightarrow> bool" where
  "issued_ok i = (case i of (role, subject, epoch, exp) \<Rightarrow> bar \<notin> set role \<and> bar \<notin> set subject \<and>
     - (2 ^ 63) \<le> epoch \<and> epoch < 2 ^ 63 \<and> - (2 ^ 63) \<le> exp \<and> exp < 2 ^ 63)"

definition payload_of :: "issued \<Rightarrow> string" where
  "payload_of i = (case i of (role, subject, epoch, exp) \<Rightarrow> session_payload role subject epoch exp)"

text \<open>
  Unforgeability of the MAC, for one presented token: if it carries a valid MAC of some message, the
  panel has signed that message.
\<close>

definition no_forgery :: "world \<Rightarrow> string \<Rightarrow> issued set \<Rightarrow> string \<Rightarrow> bool" where
  "no_forgery w secret I tok \<longleftrightarrow>
     (\<forall>m. RawURLDecode tok = Some (m @ [bar] @ hmacHex w secret m) \<longrightarrow> m \<in> payload_of ` I)"

lemma verified_issued:
  assumes "no_forgery w secret I tok" and "\<forall>i \<in> I. issued_ok i"
    and "verifySession w secret tok = Some (role, subject, epoch)"
  shows "\<exists>exp. (role, subject, epoch, exp) \<in> I \<and> w_now w < exp"
proof -
  from assms(3) obtain epochStr expStr exp where v:
    "RawURLDecode tok = Some (Join [role, subject, epochStr, expStr] [bar] @ [bar] @
       hmacHex w secret (Join [role, subject, epochStr, expStr] [bar]))"
    "ParseInt64 epochStr = Some epoch" "ParseInt64 expStr = Some exp" "w_now w < exp"
    "splitc bar (Join [role, subject, epochStr, expStr] [bar]) = [role, subject, epochStr, expStr]"
    by (rule verifySession_raw)
  with assms(1) have "Join [role, subject, epochStr, expStr] [bar] \<in> payload_of ` I"
    unfolding no_forgery_def by blast
  then obtain r s e x where i: "(r, s, e, x) \<in> I"
    "Join [role, subject, epochStr, expStr] [bar] = session_payload r s e x"
    by (auto simp: payload_of_def)
  then have ok: "issued_ok (r, s, e, x)" using assms(2) by blast
  then have "splitc bar (session_payload r s e x) = [r, s, FormatInt e, FormatInt x]"
    unfolding session_payload_def by (intro splitc_Join) (auto simp: issued_ok_def)
  with v(5) i(2) have "[role, subject, epochStr, expStr] = [r, s, FormatInt e, FormatInt x]" by simp
  with v(2-4) ok i(1) show ?thesis by (auto simp: issued_ok_def ParseInt64_FormatInt)
qed

text \<open>
  C23. Unforgeable sessions. Under a MAC that cannot be forged, a token the panel accepts is one it issued, with
  exactly that role, subject and epoch, and unexpired: no choice of user name, and no re-cutting
  of a portal token, yields a session of another account or an administrator's session.
\<close>
theorem session_unforgeable:
  assumes "no_forgery w secret I tok" and "\<forall>i \<in> I. issued_ok i"
    and "verifySession w secret tok = Some (role, subject, epoch)"
  shows "\<exists>exp. (role, subject, epoch, exp) \<in> I \<and> w_now w < exp"
  using assms by (rule verified_issued)

theorem session_unforgeable_witness:
  "\<exists>exp. (roleUser, ''17'', 3 :: int, exp) \<in> {(roleUser, ''17'', 3, 1060 :: int)} \<and> w_now plain_world < exp"
proof (rule session_unforgeable)
  have n: "w_now plain_world = 1000" by (simp add: w_now_def plain_world_def)
  show "verifySession plain_world ''k'' (signSession plain_world ''k'' roleUser ''17'' 3 60) = Some (roleUser, ''17'', 3)"
    using session_roundtrip_witness by blast
  show "no_forgery plain_world ''k'' {(roleUser, ''17'', 3, 1060)} (signSession plain_world ''k'' roleUser ''17'' 3 60)"
    unfolding no_forgery_def
  proof (intro allI impI)
    let ?p = "session_payload roleUser ''17'' 3 1060"
    fix m assume "RawURLDecode (signSession plain_world ''k'' roleUser ''17'' 3 60) = Some (m @ [bar] @ hmacHex plain_world ''k'' m)"
    then have eq: "?p @ [bar] @ hmacHex plain_world ''k'' ?p = m @ [bar] @ hmacHex plain_world ''k'' m"
      by (simp add: signSession_def Let_def n)
    then have "length ?p = length m" by (auto simp: hmacHex_def plain_world_def dest!: arg_cong [of _ _ length])
    with eq show "m \<in> payload_of ` {(roleUser, ''17'', 3, 1060)}" by (simp add: payload_of_def)
  qed
  show "\<forall>i \<in> {(roleUser, ''17'', 3, 1060)}. issued_ok i" by (simp add: issued_ok_def)
qed

subsection \<open>Revocation\<close>

text \<open>The account exists and every session of the given epoch is older than its present one.\<close>

definition outdated :: "string \<Rightarrow> int \<Rightarrow> db \<Rightarrow> bool" where
  "outdated name epoch d \<longleftrightarrow> name \<in> ar_username ` set (admins d) \<and>
     (\<forall>a \<in> set (admins d). ar_username a = name \<longrightarrow> epoch < ar_session_epoch a)"

lemma outdated_rows:
  assumes f: "\<And>a. ar_username (f a) = ar_username a" "\<And>a. ar_session_epoch a \<le> ar_session_epoch (f a)"
    and o: "outdated name epoch d"
  shows "outdated name epoch (d\<lparr>admins := upd_where P f (admins d)\<rparr>)"
proof -
  have "set (map ar_username (upd_where P f as)) = set (map ar_username as)" for as
    by (rule arg_cong [of _ _ set]) (rule map_upd_where, rule f(1))
  then have "ar_username ` set (upd_where P f as) = ar_username ` set as" for as by simp
  moreover have "epoch < ar_session_epoch (f a)" if "epoch < ar_session_epoch a" for a
    using that f(2) [of a] by simp
  ultimately show ?thesis using o f(1) by (auto simp: outdated_def set_upd_where)
qed

lemma outdated_upd_admin:
  "(\<And>a. ar_username (f a) = ar_username a) \<Longrightarrow> (\<And>a. ar_session_epoch a \<le> ar_session_epoch (f a)) \<Longrightarrow>
   keeps_stmt (outdated name epoch) (upd_admin u f)"
  by (rule keeps_stmtI) (auto simp: upd_admin_def intro!: outdated_rows)

lemma outdated_same: "(\<And>d d'. st d = Inr d' \<Longrightarrow> admins d' = admins d) \<Longrightarrow> keeps_stmt (outdated name epoch) st"
  by (rule keeps_stmtI) (simp add: outdated_def)

lemma outdated_totp: "keeps_stmt (outdated name epoch) (upd_totp_secret i v)"
  by (rule keeps_stmtI) (auto simp: upd_totp_secret_def intro!: outdated_rows)

lemma outdated_insert: "keeps_stmt (outdated name epoch) (insert_admin u h)"
  by (rule keeps_stmtI) (auto simp: outdated_def insert_admin_def split: if_splits)

lemma outdated_writes:
  assumes "x \<noteq> ODeleteAdmin name" and st: "st \<in> writes c x"
  shows "keeps_stmt (outdated name epoch) st"
proof (cases "admin_op x")
  case False
  then show ?thesis by (rule outdated_same [OF other_op_admins [OF _ st]])
next
  case True
  then show ?thesis
  proof (cases rule: admin_op.elims(2))
    case (1 n1 n2 n3)
    with st consider i v where "st = upd_private_key i v" | i v where "st = upd_totp_secret i v" | v where "st = upd_telegram_token v"
      by auto
    then show ?thesis
    proof cases
      case (2 i v)
      then show ?thesis by (simp add: outdated_totp)
    qed (auto simp: outdated_def keeps_stmt_def upd_private_key_def upd_telegram_token_def)
  next
    case (6 u)
    with assms show ?thesis by (auto simp: keeps_stmt_def outdated_def)
  qed (use st in \<open>auto intro: outdated_upd_admin outdated_insert\<close>)
qed

lemma outdated_step: "x \<noteq> ODeleteAdmin name \<Longrightarrow> outdated name epoch (tables s) \<Longrightarrow> outdated name epoch (tables (store_step x s))"
  by (rule store_step_keeps [where P = "outdated name epoch"]) (simp_all add: outdated_writes)

lemma outdated_run: "ODeleteAdmin name \<notin> set ops \<Longrightarrow> outdated name epoch (tables s) \<Longrightarrow> outdated name epoch (tables (store_run ops s))"
proof (induction ops arbitrary: s)
  case (Cons x ops)
  then have "x \<noteq> ODeleteAdmin name" "ODeleteAdmin name \<notin> set ops" by auto
  moreover from this(1) Cons.prems(2) have "outdated name epoch (tables (store_step x s))" by (rule outdated_step)
  ultimately show ?case using Cons.IH by simp
qed simp

text \<open>A token of an outdated epoch never gets past \<open>requireAuth\<close>.\<close>

lemma outdated_rejected:
  assumes "outdated name epoch (tables (db_of p))" and "Cookie r sessionCookie = Some c"
    and "verifySession w (session_secret p) c = Some (role, name, epoch)"
  shows "fst (requireAuth w r nxt p) = unauthorized \<and> tables (db_of (snd (requireAuth w r nxt p))) = tables (db_of p)"
  by (rule requireAuth_cases [of w r nxt p]) (use assms in \<open>auto simp: outdated_def\<close>)

text \<open>
  C24. Signing out everywhere. Once an administrator's session epoch has been bumped or the password set (here: the
  statement succeeded), a token of that account signed before, at most at the epoch the account then
  had, is refused by every guarded handler, which leaves the database alone; and it stays refused
  after any further store calls and whatever statements the engine fails, as long as the account is
  not deleted.
\<close>
theorem signed_out_everywhere:
  assumes "x = OBumpAdminSessionEpoch name \<or> x = OSetAdminPassword name h"
    and "no_faults s" and "a \<in> set (admins (tables s))" and "ar_username a = name"
    and "\<forall>b \<in> set (admins (tables s)). ar_username b = name \<longrightarrow> epoch \<le> ar_session_epoch b"
    and "ODeleteAdmin name \<notin> set ops"
    and "tables (db_of p) = tables (store_run ops ((store_step x s)\<lparr>faults := fs\<rparr>))"
    and "Cookie r sessionCookie = Some c"
    and "verifySession w (session_secret p) c = Some (role, name, epoch)"
  shows "fst (requireAuth w r nxt p) = unauthorized \<and> tables (db_of (snd (requireAuth w r nxt p))) = tables (db_of p)"
proof (rule outdated_rejected [OF _ assms(8,9)])
  let ?f = "if x = OBumpAdminSessionEpoch name then (\<lambda>a. a\<lparr>ar_session_epoch := ar_session_epoch a + 1\<rparr>)
    else (\<lambda>a. a\<lparr>ar_password_hash := h, ar_session_epoch := ar_session_epoch a + 1\<rparr>)"
  have "tables (store_step x s) = tables s\<lparr>admins := upd_where (\<lambda>a. ar_username a = name) ?f (admins (tables s))\<rparr>"
    using assms(1,2) by (auto simp: BumpAdminSessionEpoch_def SetAdminPassword_def exec_nofault upd_admin_def)
  moreover have "outdated name epoch (tables s\<lparr>admins := upd_where (\<lambda>a. ar_username a = name) ?f (admins (tables s))\<rparr>)"
    using assms(3-5) by (auto simp: outdated_def set_upd_where intro: rev_image_eqI)
  ultimately have "outdated name epoch (tables ((store_step x s)\<lparr>faults := fs\<rparr>))" by simp
  with outdated_run [OF assms(6)] show "outdated name epoch (tables (db_of p))"
    unfolding assms(7) by blast
qed

subsection \<open>An example panel\<close>

definition root_row :: admin_row where
  "root_row = \<lparr>ar_id = 1, ar_username = ''root'', ar_password_hash = ''#pw'', ar_totp_secret = [],
     ar_totp_enabled = False, ar_session_epoch = 0\<rparr>"

definition root_store :: store where
  "root_store = \<lparr>tables = empty_db\<lparr>admins := [root_row], seq_admins := 1\<rparr>, faults = [], crypt = None\<rparr>"

definition sample_config :: config where
  "sample_config = \<lparr>Listen = '':8088'', DBPath = ''/data/panel.db'', JWTSecret = ''0123456789abcdef'', AdminUser = ''root'',
     AdminPass = ''pw'', PublicURL = ''https://x.org'', CookieSecure = True, AllowWeakPass = True, BackupDir = [],
     BackupKeep = 7, TelegramToken = [], TelegramAdms = []\<rparr>"

definition panel_on :: "store \<Rightarrow> panel" where
  "panel_on s = \<lparr>pn_cfg = sample_config, pn_app = boot_app s [] [], pn_lim = newLimiter 8 (300 * 10 ^ 9),
     pn_set = \<lparr>ls_publicURL = ''https://x.org'', ls_cookieSecure = ''auto'', ls_backupKeep = 7, ls_clashTemplate = []\<rparr>,
     pn_bot = None\<rparr>"

definition root_request :: request where
  "root_request = \<lparr>rq_cookies = [(sessionCookie, signSession plain_world ''0123456789abcdef'' roleAdmin ''root'' 0 86400)],
     rq_remote = ''1.2.3.4:5'', rq_path = [], rq_query = []\<rparr>"

lemma root_token: "Cookie root_request sessionCookie = Some (signSession plain_world ''0123456789abcdef'' roleAdmin ''root'' 0 86400)"
    "verifySession plain_world (session_secret (panel_on s))
       (signSession plain_world ''0123456789abcdef'' roleAdmin ''root'' 0 86400) = Some (roleAdmin, ''root'', 0)"
proof -
  show "Cookie root_request sessionCookie = Some (signSession plain_world ''0123456789abcdef'' roleAdmin ''root'' 0 86400)"
    by (simp add: Cookie_def root_request_def)
  have n: "w_now plain_world = 1000" by (simp add: w_now_def plain_world_def)
  have "splitc bar (session_payload roleAdmin ''root'' 0 87400 @ [bar] @ hmacHex plain_world k (session_payload roleAdmin ''root'' 0 87400)) =
      [roleAdmin, ''root'', FormatInt 0, FormatInt 87400, hmacHex plain_world k (session_payload roleAdmin ''root'' 0 87400)]" for k
    by (rule split_payload) simp_all
  then show "verifySession plain_world (session_secret (panel_on s))
       (signSession plain_world ''0123456789abcdef'' roleAdmin ''root'' 0 86400) = Some (roleAdmin, ''root'', 0)"
    using ParseInt64_FormatInt [of 0] ParseInt64_FormatInt [of 87400]
    by (simp add: verifySession_def signSession_def Let_def n session_secret_def panel_on_def sample_config_def session_payload_def)
qed

lemma root_response:
  "no_faults s \<Longrightarrow> fst (requireAuth plain_world root_request (reply x) (panel_on s)) =
     (case List.find (\<lambda>a. ar_username a = ''root'') (admins (tables s)) of None \<Rightarrow> unauthorized
      | Some a \<Rightarrow> if ar_session_epoch a = 0 then x else unauthorized)"
proof -
  assume nf: "no_faults s"
  have st: "a_store (pn_app (panel_on s)) = s" by (simp add: panel_on_def boot_app_def)
  show ?thesis
    by (simp add: requireAuth_def peek_def root_token db_case_def on_store_def st GetAdmin_def query_nofault [OF nf]
        find_row_def admin_of_row_def reply_def split: option.split)
qed

theorem signed_out_everywhere_witness:
  "fst (requireAuth plain_world root_request (reply (writeJSON 200 JNull))
     (panel_on (store_run [OCreateAdmin ''eve'' ''#x''] (store_step (OBumpAdminSessionEpoch ''root'') root_store)))) = unauthorized \<and>
   fst (requireAuth plain_world root_request (reply (writeJSON 200 JNull)) (panel_on root_store)) = writeJSON 200 JNull"
proof
  have nf: "no_faults root_store" by (simp add: no_faults_def root_store_def)
  let ?s = "store_step (OBumpAdminSessionEpoch ''root'') root_store"
  let ?p = "panel_on (store_run [OCreateAdmin ''eve'' ''#x''] ?s)"
  have p: "tables (db_of ?p) = tables (store_run [OCreateAdmin ''eve'' ''#x''] (?s\<lparr>faults := faults ?s\<rparr>))"
    by (simp add: panel_on_def boot_app_def)
  have r: "root_row \<in> set (admins (tables root_store))" "ar_username root_row = ''root''"
    "\<forall>b \<in> set (admins (tables root_store)). ar_username b = ''root'' \<longrightarrow> 0 \<le> ar_session_epoch b"
    by (simp_all add: root_store_def root_row_def)
  show "fst (requireAuth plain_world root_request (reply (writeJSON 200 JNull)) ?p) = unauthorized"
    by (rule signed_out_everywhere [THEN conjunct1, OF _ nf r _ p root_token]) simp_all
  show "fst (requireAuth plain_world root_request (reply (writeJSON 200 JNull)) (panel_on root_store)) = writeJSON 200 JNull"
    by (simp add: root_response nf) (simp add: root_store_def root_row_def)
qed

text \<open>
  A deleted administrator's session comes back. Deleting an account and creating one of the same name
  starts the epoch at zero again, so a token of the first account that was refused in between is
  accepted for the second until it expires.
\<close>
lemma recreated_admin_revives_session:
  "fst (requireAuth plain_world root_request (reply (writeJSON 200 JNull))
     (panel_on (store_run [OCreateAdmin ''eve'' ''#x'', ODeleteAdmin ''root'', OBumpAdminSessionEpoch ''root''] root_store))) = unauthorized \<and>
   fst (requireAuth plain_world root_request (reply (writeJSON 200 JNull))
     (panel_on (store_run [OCreateAdmin ''eve'' ''#x'', ODeleteAdmin ''root'', OBumpAdminSessionEpoch ''root'',
       OCreateAdmin ''root'' ''#new''] root_store))) = writeJSON 200 JNull"
proof -
  define s where "s = store_run [OCreateAdmin ''eve'' ''#x'', ODeleteAdmin ''root'', OBumpAdminSessionEpoch ''root''] root_store"
  have run: "tables s = empty_db\<lparr>admins := [\<lparr>ar_id = 2, ar_username = ''eve'', ar_password_hash = ''#x'', ar_totp_secret = [],
      ar_totp_enabled = False, ar_session_epoch = 0\<rparr>], seq_admins := 2\<rparr>" "no_faults s"
    unfolding s_def
    by (simp_all add: root_store_def CreateAdmin_def DeleteAdmin_def BumpAdminSessionEpoch_def exec_nofault no_faults_def
        insert_admin_def upd_admin_def root_row_def)
  have more: "store_run [OCreateAdmin ''eve'' ''#x'', ODeleteAdmin ''root'', OBumpAdminSessionEpoch ''root'',
      OCreateAdmin ''root'' ''#new''] root_store = snd (CreateAdmin ''root'' ''#new'' s)"
    by (simp add: s_def)
  have new: "no_faults (snd (CreateAdmin ''root'' ''#new'' s))"
    "List.find (\<lambda>a. ar_username a = ''root'') (admins (tables (snd (CreateAdmin ''root'' ''#new'' s)))) =
       Some \<lparr>ar_id = 3, ar_username = ''root'', ar_password_hash = ''#new'', ar_totp_secret = [], ar_totp_enabled = False,
             ar_session_epoch = 0\<rparr>"
    using run by (simp_all add: CreateAdmin_def exec_nofault insert_admin_def)
  show ?thesis unfolding more unfolding s_def [symmetric] by (simp add: root_response run new)
qed

end
