(* ===== verification/Bot.thy ===== *)
theory Bot
  imports Api Sessions Float64
begin

section \<open>The Telegram bot (internal/panel/bot.go)\<close>

text \<open>
  Commands from chats, their replies, and the update loop. A reply is \<open>None\<close> where the code would
  dereference a nil user, which ends the process. Messages sent are appended to the process's
  record of sent messages. \<^verbatim>\<open>strconv.ParseFloat\<close> is part of the surroundings.
\<close>

definition dash :: string where "dash = [CHR 0xE2, CHR 0x80, CHR 0x94]"
definition infinity :: string where "infinity = [CHR 0xE2, CHR 0x88, CHR 0x9E]"
definition arrow :: string where "arrow = [CHR 0xE2, CHR 0x86, CHR 0x92]"

subsection \<open>Byte counts\<close>

text \<open>
  The count is converted to \<^verbatim>\<open>float64\<close> and divided by 1024 until it is small enough, at most once per
  unit after the first; \<^verbatim>\<open>%.1f\<close> rounds the result's exact value to tenths, half to even.
\<close>

definition units :: "string list" where
  "units = [''B'', ''KB'', ''MB'', ''GB'', ''TB'']"

fun scale :: "nat \<Rightarrow> nat \<Rightarrow> rat \<Rightarrow> nat \<times> rat" where
  "scale 0 i f = (i, f)"
| "scale (Suc k) i f = (if f \<ge> 1024 then scale k (Suc i) (f64 (f / 1024)) else (i, f))"

definition tenths :: "rat \<Rightarrow> string" where
  "tenths f = (let t = half_even (f * 10) in FormatInt (t div 10) @ ''.'' @ FormatInt (t mod 10))"

definition fmtBytes :: "int \<Rightarrow> string" where
  "fmtBytes n =
     (let (i, f) = scale (length units - 1) 0 (f64 (of_int n))
      in if i = 0 then FormatInt n @ '' B'' else tenths f @ '' '' @ (units ! i))"

text \<open>The loop stays within the table of units, and the number it leaves is below 1024 unless the unit is the last.\<close>

lemma scale_range: "scale k i f = (j, g) \<Longrightarrow> i \<le> j \<and> j \<le> i + k \<and> (j < i + k \<longrightarrow> g < 1024)"
proof (induction k arbitrary: i f)
  case (Suc k)
  show ?case
  proof (cases "1024 \<le> f")
    case True
    with Suc.IH [of "Suc i" "f64 (f / 1024)"] Suc.prems show ?thesis by fastforce
  next
    case False
    with Suc.prems show ?thesis by auto
  qed
qed simp

subsection \<open>Commands\<close>

definition botHelp :: string where
  "botHelp = ''Xuanwu panel bot commands:'' @ nl @
     ''/users '' @ dash @ '' list users'' @ nl @
     ''/nodes '' @ dash @ '' list nodes'' @ nl @
     ''/adduser <name> [limitGB] [days] '' @ dash @ '' create user'' @ nl @
     ''/deluser <name>'' @ nl @
     ''/enable <name> | /disable <name>'' @ nl @
     ''/traffic <name>'' @ nl @
     ''/reset <name> '' @ dash @ '' reset traffic counter'' @ nl @
     ''/sub <name> '' @ dash @ '' show subscription link''"

definition limit_text :: "user \<Rightarrow> string" where
  "limit_text u = (if DataLimit u > 0 then fmtBytes (DataLimit u) else infinity)"

definition user_line_text :: "user \<Rightarrow> string" where
  "user_line_text u = Username u @ '' ['' @ (if Enabled u then ''on'' else ''off'') @ ''] '' @ fmtBytes (DataUsed u) @ ''/'' @
     limit_text u @ nl"

type_synonym bot_step = "panel \<Rightarrow> string option \<times> panel"

definition say :: "string \<Rightarrow> bot_step" where
  "say txt = give (Some txt)"

definition say_err :: "world \<Rightarrow> sql_err \<Rightarrow> bot_step" where
  "say_err w e = say (''error: '' @ w_err w e)"

definition botListUsers :: "world \<Rightarrow> bot_step" where
  "botListUsers w = db_case ListUsers (say_err w) (\<lambda>us.
     say (if us = [] then ''no users'' else concat (map user_line_text us)))"

definition node_line_text :: "app \<Rightarrow> node \<Rightarrow> string" where
  "node_line_text a n = n_Name n @ '' ('' @ n_Address n @ '') '' @ dash @ '' '' @
     (if n_ID n \<in> set (OnlineNodeIDs a) then ''online'' else ''offline'') @ nl"

definition botListNodes :: "world \<Rightarrow> bot_step" where
  "botListNodes w = db_case (ListNodes (w_now w)) (say_err w) (\<lambda>ns. peek (\<lambda>p.
     say (if ns = [] then ''no nodes'' else concat (map (node_line_text (pn_app p)) ns))))"

text \<open>\<^verbatim>\<open>time.Now().Add(time.Duration(days) * 24 * time.Hour).Unix()\<close>, durations being 64-bit nanoseconds.\<close>

definition expiry :: "world \<Rightarrow> int \<Rightarrow> int" where
  "expiry w days = (w_nanos w + wrap64 (wrap64 (days * 24) * (3600 * 10 ^ 9))) div 10 ^ 9"

text \<open>\<^verbatim>\<open>int64(gb * (1 << 30))\<close> truncates towards zero.\<close>

definition gb_bytes :: "rat \<Rightarrow> int" where
  "gb_bytes g = (if g < 0 then \<lceil>g * 2 ^ 30\<rceil> else \<lfloor>g * 2 ^ 30\<rfloor>)"

definition arg_limit :: "world \<Rightarrow> string list \<Rightarrow> int" where
  "arg_limit w args = (if length args \<ge> 2
     then (case w_float w (args ! 1) of None \<Rightarrow> 0 | Some g \<Rightarrow> gb_bytes g) else 0)"

definition arg_expiry :: "world \<Rightarrow> string list \<Rightarrow> int" where
  "arg_expiry w args = (if length args \<ge> 3
     then (case ParseInt64 (args ! 2) of None \<Rightarrow> 0 | Some d \<Rightarrow> if d > 0 then expiry w d else 0) else 0)"

definition bot_user :: "world \<Rightarrow> string \<Rightarrow> int \<Rightarrow> int \<Rightarrow> user" where
  "bot_user w name limit expire = \<lparr>ID = 0, Username = name, UUID = newUUID (w_draw w 0 16), SubToken = randToken (w_draw w 1 18),
     DataLimit = limit, DataUsed = 0, ExpireAt = expire, Enabled = True, CreatedAt = 0, NodeIDs = [], PortalPasswordHash = [],
     HasPortalPassword = False, ResetDay = 0, LastReset = 0, SessionEpoch = 0, MustChangePW = False, DeviceCount = 0,
     EtaDays = 0, Note = []\<rparr>"

text \<open>Assigned to every node; a failed listing assigns none.\<close>

definition botAddUser :: "world \<Rightarrow> string list \<Rightarrow> bot_step" where
  "botAddUser w args = (case args of [] \<Rightarrow> say ''usage: /adduser <name> [limitGB] [days]''
    | name # _ \<Rightarrow> (case validateUsername name of Some e \<Rightarrow> say (''error: '' @ e)
      | None \<Rightarrow> db_case (GetUserByName name)
          (\<lambda>e. let u = bot_user w name (arg_limit w args) (arg_expiry w args) in
            db_case (CreateUser (w_now w) u) (say_err w) (\<lambda>i.
              ask (db_case (ListNodes (w_now w)) (\<lambda>e. give []) give) (\<lambda>ns. let ids = map n_ID ns in
                seq (if ids \<noteq> [] then sync_nodes w ids \<circ> db_do (SetUserNodes i ids) else id)
                  (peek (\<lambda>p. say (''added '' @ name @ nl @ ''sub: '' @ publicURL p @ ''/sub/'' @ SubToken u))))))
          (\<lambda>u. say ''user already exists'')))"

datatype bot_action = BDel | BEnable | BDisable | BReset

definition action_text :: "bot_action \<Rightarrow> string" where
  "action_text x = (case x of BDel \<Rightarrow> ''del'' | BEnable \<Rightarrow> ''enable'' | BDisable \<Rightarrow> ''disable'' | BReset \<Rightarrow> ''reset'')"

definition botMutateUser :: "world \<Rightarrow> string list \<Rightarrow> bot_action \<Rightarrow> bot_step" where
  "botMutateUser w args act = (case args of [] \<Rightarrow> say (''usage: /'' @ action_text act @ '' <name>'')
    | name # _ \<Rightarrow> db_case (GetUserByName name) (\<lambda>e. say ''user not found'') (\<lambda>u0.
        db_case (GetUser (ID u0)) (\<lambda>e. give None) (\<lambda>u.
          let finish = seq (sync_nodes w (NodeIDs u)) (say (action_text act @ '' ok: '' @ name))
          in (case act of
                BDel \<Rightarrow> db_case (DeleteUser (ID u)) (say_err w) (\<lambda>x. finish)
              | BEnable \<Rightarrow> seq (db_do (UpdateUser (u\<lparr>Enabled := True\<rparr>))) finish
              | BDisable \<Rightarrow> seq (db_do (UpdateUser (u\<lparr>Enabled := False\<rparr>))) finish
              | BReset \<Rightarrow> seq (db_do (ResetUserTraffic (ID u))) finish))))"

definition botTraffic :: "world \<Rightarrow> string list \<Rightarrow> bot_step" where
  "botTraffic w args = (case args of [] \<Rightarrow> say ''usage: /traffic <name>''
    | name # _ \<Rightarrow> db_case (GetUserByName name) (\<lambda>e. say ''user not found'')
        (\<lambda>u. say (Username u @ '': '' @ fmtBytes (DataUsed u) @ '' / '' @ limit_text u @ '' used'')))"

definition botSub :: "world \<Rightarrow> string list \<Rightarrow> bot_step" where
  "botSub w args = (case args of [] \<Rightarrow> say ''usage: /sub <name>''
    | name # _ \<Rightarrow> db_case (GetUserByName name) (\<lambda>e. say ''user not found'') (\<lambda>u. peek (\<lambda>p. say (sub_url p u))))"

definition botExec :: "world \<Rightarrow> string \<Rightarrow> string list \<Rightarrow> bot_step" where
  "botExec w cmd args =
     (if cmd = ''start'' \<or> cmd = ''help'' then say botHelp
      else if cmd = ''users'' then botListUsers w
      else if cmd = ''nodes'' then botListNodes w
      else if cmd = ''adduser'' then botAddUser w args
      else if cmd = ''deluser'' then botMutateUser w args BDel
      else if cmd = ''enable'' then botMutateUser w args BEnable
      else if cmd = ''disable'' then botMutateUser w args BDisable
      else if cmd = ''reset'' then botMutateUser w args BReset
      else if cmd = ''traffic'' then botTraffic w args
      else if cmd = ''sub'' then botSub w args
      else say ''unknown command; /help'')"

subsection \<open>Messages\<close>

definition botSend :: "int \<Rightarrow> string \<Rightarrow> panel \<Rightarrow> panel" where
  "botSend chat txt = on_app (\<lambda>a. a\<lparr>a_sent := a_sent a @ [(chat, txt)]\<rparr>)"

definition botAuthorized :: "int \<Rightarrow> panel \<Rightarrow> bool" where
  "botAuthorized chat p \<longleftrightarrow> a_tgAdmins (pn_app p) \<noteq> [] \<and> chat \<in> set (a_tgAdmins (pn_app p))"

definition unauthorized_text :: "int \<Rightarrow> string" where
  "unauthorized_text chat = ''Unauthorized. Your chat id is '' @ FormatInt chat @ ''; add it in the panel (Security '' @ arrow @ '' Telegram).''"

definition command_of :: "string \<Rightarrow> string" where
  "command_of f = takeWhile (\<lambda>c. c \<noteq> CHR ''@'') (ToLower (if HasPrefix f ''/'' then tl f else f))"

text \<open>False: the handler died.\<close>

definition botHandle :: "world \<Rightarrow> int \<Rightarrow> string \<Rightarrow> panel \<Rightarrow> bool \<times> panel" where
  "botHandle w chat txt = peek (\<lambda>p.
     if \<not> botAuthorized chat p then seq (botSend chat (unauthorized_text chat)) (give True)
     else (case Fields txt of [] \<Rightarrow> give True
       | f # args \<Rightarrow> ask (botExec w (command_of f) args) (\<lambda>ans. case ans of None \<Rightarrow> give False
           | Some t \<Rightarrow> seq (botSend chat t) (give True))))"

record tg_update =
  tg_UpdateID :: int
  tg_Message :: "(int \<times> string) option"

text \<open>One round of the polling loop: the updates in order, the next offset behind the last of them.\<close>

fun botUpdates :: "world \<Rightarrow> tg_update list \<Rightarrow> int \<Rightarrow> panel \<Rightarrow> (bool \<times> int) \<times> panel" where
  "botUpdates w [] offset p = ((True, offset), p)"
| "botUpdates w (u # us) offset p =
     (case tg_Message u of
        None \<Rightarrow> botUpdates w us (tg_UpdateID u + 1) p
      | Some (chat, txt) \<Rightarrow>
          if txt = [] then botUpdates w us (tg_UpdateID u + 1) p
          else (case botHandle w chat txt p of
                  (False, p) \<Rightarrow> ((False, tg_UpdateID u + 1), p)
                | (True, p) \<Rightarrow> botUpdates w us (tg_UpdateID u + 1) p))"

subsection \<open>What the bot writes\<close>

lemma say_confined [evolving]: "confined A (say t)" "confined A (say_err w e)"
  unfolding say_err_def say_def by (intro evolving)+

lemma list_confined [evolving]:
  "(x = [] \<Longrightarrow> confined A h) \<Longrightarrow> (\<And>y ys. x = y # ys \<Longrightarrow> confined A (k y ys)) \<Longrightarrow> confined A (case x of [] \<Rightarrow> h | y # ys \<Rightarrow> k y ys)"
  by (cases x) auto

lemma action_confined [evolving]:
  "confined A h1 \<Longrightarrow> confined A h2 \<Longrightarrow> confined A h3 \<Longrightarrow> confined A h4 \<Longrightarrow>
   confined A (case x of BDel \<Rightarrow> h1 | BEnable \<Rightarrow> h2 | BDisable \<Rightarrow> h3 | BReset \<Rightarrow> h4)"
  by (cases x) auto

lemma botSend_confined [evolving]: "confined_upd A (botSend chat t)"
  by (simp add: confined_upd_def botSend_def on_app_def ev_refl)

lemma botExec_confined [evolving]: "confined (api_op w) (botExec w cmd args)"
  unfolding botExec_def botListUsers_def botListNodes_def botAddUser_def botMutateUser_def botTraffic_def botSub_def Let_def
  by (intro evolving; auto simp: api_op_def bot_user_def)

lemma botHandle_confined [evolving]: "confined (api_op w) (botHandle w chat txt)"
  unfolding botHandle_def by (intro evolving)

text \<open>
  C36. The bot obeys its allow-list, and fails closed. A message from a chat that is not on the list (any chat
  when the list is empty) has one effect whatever it says: the refusal is sent to that chat. The
  database, the connections, the settings and everything else stay as they are.
\<close>
theorem bot_refuses_strangers:
  assumes "chat \<notin> set (a_tgAdmins (pn_app p))"
  shows "botHandle w chat txt p = (True, p\<lparr>pn_app := (pn_app p)\<lparr>a_sent := a_sent (pn_app p) @ [(chat, unauthorized_text chat)]\<rparr>\<rparr>)"
  using assms by (simp add: botHandle_def peek_def botAuthorized_def seq_def botSend_def on_app_def give_def)

theorem bot_refuses_strangers_witness:
  "a_sent (pn_app (snd (botHandle plain_world 7 ''/deluser bob'' (panel_on root_store)))) = [(7, unauthorized_text 7)] \<and>
   db_of (snd (botHandle plain_world 7 ''/deluser bob'' (panel_on root_store))) = root_store"
  by (subst (1 2) bot_refuses_strangers) (simp_all add: panel_on_def boot_app_def)

text \<open>
  A long expiry wraps around. The bot computes the expiry as a 64-bit count of nanoseconds, so an account
  asked for with 106752 days (292 years) is created already expired, where 106751 days work.
\<close>
lemma bot_expiry_overflows:
  assumes "0 \<le> w_nanos w" and "w_nanos w < 2 ^ 61"
  shows "w_now w < expiry w 106751 \<and> expiry w 106752 < 0"
proof
  have "expiry w 106751 = (w_nanos w + 9223286400 * 10 ^ 9) div 10 ^ 9"
    using assms by (simp add: expiry_def wrap64_def)
  then show "w_now w < expiry w 106751" by (simp only: div_mult_self1) (simp add: w_now_def)
  show "expiry w 106752 < 0"
    using assms by (simp add: expiry_def wrap64_def pos_imp_zdiv_neg_iff)
qed

end
