(* ===== verification/Boot.thy ===== *)
theory Boot
  imports Bot
begin

section \<open>Starting the panel, and the reset-admin command (internal/panel/app.go, reset.go, cmd/panel/main.go)\<close>

text \<open>
  The environment variables are an association list, an unset variable being the empty string. \<open>Run\<close>
  takes the opened database to the panel that serves; an error ends the process. Opening the file and
  its migration are in \<open>Schema\<close>; listening and the signals are not modelled.
\<close>

subsection \<open>The configuration\<close>

type_synonym environment = "string \<Rightarrow> string"

definition env :: "environment \<Rightarrow> string \<Rightarrow> string \<Rightarrow> string" where
  "env e key dflt = (let v = e key in if v \<noteq> [] then v else dflt)"

definition envBool :: "environment \<Rightarrow> string \<Rightarrow> bool \<Rightarrow> bool" where
  "envBool e key dflt =
     (let v = ToLower (TrimSpace (e key)) in
      if v \<in> {''1'', ''true'', ''yes'', ''on''} then True
      else if v \<in> {''0'', ''false'', ''no'', ''off''} then False
      else dflt)"

definition envInt :: "environment \<Rightarrow> string \<Rightarrow> int \<Rightarrow> int" where
  "envInt e key dflt =
     (let v = TrimSpace (e key) in
      if v \<noteq> [] then case ParseInt64 v of Some n \<Rightarrow> n | None \<Rightarrow> dflt else dflt)"

definition ConfigFromEnv :: "environment \<Rightarrow> config" where
  "ConfigFromEnv e =
     (let url = env e ''PANEL_PUBLIC_URL'' ''http://localhost:8088'' in
      \<lparr>Listen = env e ''PANEL_LISTEN'' '':8088'',
       DBPath = env e ''PANEL_DB_PATH'' ''/data/panel.db'',
       JWTSecret = env e ''PANEL_JWT_SECRET'' [],
       AdminUser = env e ''PANEL_ADMIN_USER'' ''admin'',
       AdminPass = env e ''PANEL_ADMIN_PASS'' ''admin'',
       PublicURL = url,
       CookieSecure = envBool e ''PANEL_COOKIE_SECURE'' (HasPrefix (ToLower url) ''https://''),
       AllowWeakPass = envBool e ''PANEL_ALLOW_WEAK_PASS'' False,
       BackupDir = env e ''PANEL_BACKUP_DIR'' ''/data/backups'',
       BackupKeep = envInt e ''PANEL_BACKUP_KEEP'' 7,
       TelegramToken = env e ''TELEGRAM_BOT_TOKEN'' [],
       TelegramAdms = parseIDList (env e ''TELEGRAM_ADMIN_IDS'' [])\<rparr>)"

datatype start_error =
    BadAdminUser string
  | WeakAdminPass string
  | NoSecret
  | WeakSecret
  | StoreFailed sql_err
  | HashFailed string

definition validateSecrets :: "unicode \<Rightarrow> config \<Rightarrow> start_error option" where
  "validateSecrets uc cfg =
     (case validateUsername (AdminUser cfg) of Some e \<Rightarrow> Some (BadAdminUser e)
      | None \<Rightarrow>
          (case (if \<not> AllowWeakPass cfg then validatePasswordStrength uc (AdminPass cfg) else None) of
             Some e \<Rightarrow> Some (WeakAdminPass e)
           | None \<Rightarrow>
               if JWTSecret cfg = [] then Some NoSecret
               else if JWTSecret cfg = ''replace-with-64-hex-chars'' \<or> length (JWTSecret cfg) < 16 then Some WeakSecret
               else None))"

subsection \<open>Start\<close>

text \<open>
  A fresh process around a store; the limiter allows eight failures in five minutes. The background
  loops are steps of their own, described where their bodies are.
\<close>

definition fresh_panel :: "config \<Rightarrow> store \<Rightarrow> panel" where
  "fresh_panel cfg s =
     \<lparr>pn_cfg = cfg, pn_app = boot_app s [] [], pn_lim = newLimiter 8 (300 * 10 ^ 9),
      pn_set = \<lparr>ls_publicURL = [], ls_cookieSecure = [], ls_backupKeep = 0, ls_clashTemplate = []\<rparr>, pn_bot = None\<rparr>"

text \<open>The stored token and list of chats override the environment's.\<close>

definition loadTelegram :: "panel \<Rightarrow> panel" where
  "loadTelegram p =
     (let (x, a) = on_store (GetSecretSetting ''telegram_token'') (pn_app p);
          tok = (case x of Inr (v, True) \<Rightarrow> v | _ \<Rightarrow> TelegramToken (pn_cfg p));
          (y, a) = on_store (GetSetting ''telegram_admin_ids'') a;
          adm = (case y of Inr (v, True) \<Rightarrow> parseIDList v | _ \<Rightarrow> TelegramAdms (pn_cfg p))
      in restartBot (setTelegram tok adm (p\<lparr>pn_app := a\<rparr>)))"

definition start_panel :: "environment \<Rightarrow> config \<Rightarrow> store \<Rightarrow> panel" where
  "start_panel e cfg s =
     loadTelegram (loadSettings (e ''PANEL_COOKIE_SECURE'') (PublicURL cfg) (BackupKeep cfg) (fresh_panel cfg s))"

text \<open>Nonces drawn by the encryption pass: two columns row by row, and the bot token.\<close>

record nonce_source =
  nc_nodes :: "nat \<Rightarrow> string"
  nc_admins :: "nat \<Rightarrow> string"
  nc_token :: string

text \<open>Up to the \<^verbatim>\<open>App\<close>: the outcome and the database as it is then.\<close>

definition Run :: "world \<Rightarrow> (string \<Rightarrow> aead) \<Rightarrow> nonce_source \<Rightarrow> environment \<Rightarrow> config \<Rightarrow> store \<Rightarrow> (start_error + panel) \<times> store" where
  "Run w derive ns e cfg s =
     (case validateSecrets (w_unicode w) cfg of Some err \<Rightarrow> (Inl err, s)
      | None \<Rightarrow>
          let s = s\<lparr>crypt := newCrypter derive (JWTSecret cfg)\<rparr> in
          (case encryptExisting (nc_nodes ns) (nc_admins ns) (nc_token ns) s of
             (Inl x, s) \<Rightarrow> (Inl (StoreFailed x), s)
           | (Inr _, s) \<Rightarrow>
               (case w_bcrypt w (AdminPass cfg) of Inl x \<Rightarrow> (Inl (HashFailed x), s)
                | Inr hash \<Rightarrow>
                    (case EnsureAdmin (AdminUser cfg) hash s of
                       (Inl x, s) \<Rightarrow> (Inl (StoreFailed x), s)
                     | (Inr _, s) \<Rightarrow> (let p = start_panel e cfg s in (Inr p, db_of p))))))"

subsection \<open>The reset-admin command\<close>

text \<open>The second switch: the enrolment is dropped, or left with a note in the log; then the audit line.\<close>

definition reset_account :: "world \<Rightarrow> config \<Rightarrow> string \<Rightarrow> unit sql" where
  "reset_account w cfg hash s =
     (case GetAdmin (AdminUser cfg) s of
        (Inl NoRows, s) \<Rightarrow> CreateAdmin (AdminUser cfg) hash s
      | (Inl e, s) \<Rightarrow> (Inl e, s)
      | (Inr adm, s) \<Rightarrow> SetAdminPassword (AdminUser cfg) hash s)"

definition ResetAdmin :: "world \<Rightarrow> (string \<Rightarrow> aead) \<Rightarrow> config \<Rightarrow> bool \<Rightarrow> store \<Rightarrow> start_error option \<times> store" where
  "ResetAdmin w derive cfg clear2FA s =
     (case validateSecrets (w_unicode w) cfg of Some err \<Rightarrow> (Some err, s)
      | None \<Rightarrow>
          let s = s\<lparr>crypt := newCrypter derive (JWTSecret cfg)\<rparr> in
          (case w_bcrypt w (AdminPass cfg) of Inl x \<Rightarrow> (Some (HashFailed x), s)
           | Inr hash \<Rightarrow>
               (case reset_account w cfg hash s of
                  (Inl e, s) \<Rightarrow> (Some (StoreFailed e), s)
                | (Inr _, s) \<Rightarrow>
                    (case (if clear2FA then SetAdminTOTP (nonce w) (AdminUser cfg) [] False s else (Inr (), s)) of
                       (Inl e, s) \<Rightarrow> (Some (StoreFailed e), s)
                     | (Inr _, s) \<Rightarrow>
                         (None, snd (AddAudit (w_now w) ''cli'' ''admin.reset'' (AdminUser cfg) s))))))"

text \<open>The command line: the two flags.\<close>

datatype command = CmdReset bool | CmdBadFlags | CmdRun

definition command_of_flags :: "bool \<Rightarrow> bool \<Rightarrow> command" where
  "command_of_flags resetAdmin clear2FA =
     (if resetAdmin then CmdReset clear2FA else if clear2FA then CmdBadFlags else CmdRun)"

end
