(* ===== verification/Backup.thy ===== *)
theory Backup
  imports AdminApi Sessions
begin

section \<open>Snapshots of the database (internal/panel/backup.go)\<close>

text \<open>
  A snapshot is what \<^verbatim>\<open>VACUUM INTO\<close> writes: the tables at that moment. The directory of the scheduled
  ones is an association list from file names to contents. The local date, and which files can be
  removed, belong to the environment of a run.
\<close>

text \<open>\<^verbatim>\<open>Store.BackupTo\<close>: the target must not exist yet; the result is the file's content.\<close>

definition BackupTo :: "bool \<Rightarrow> db sql" where
  "BackupTo present = query (\<lambda>d. if present then Inl EngineErr else Inr d)"

subsection \<open>Download\<close>

text \<open>\<^verbatim>\<open>CreateTemp\<close>'s error, that of opening the copy, and the local time.\<close>

record download_env =
  dl_temp :: "string option"
  dl_open :: "string option"
  dl_stamp :: string

definition handleBackup :: "world \<Rightarrow> download_env \<Rightarrow> handler" where
  "handleBackup w v = (case dl_temp v of Some e \<Rightarrow> reply (writeErr 500 e)
    | None \<Rightarrow> db_case (BackupTo False) (\<lambda>e. reply (writeErr 500 (''backup failed: '' @ w_err w e))) (\<lambda>d.
        case dl_open v of Some e \<Rightarrow> reply (writeErr 500 e)
        | None \<Rightarrow> reply \<lparr>rs_code = 200, rs_header = [(''Content-Type'', ''application/octet-stream''),
            (''Content-Disposition'', ''attachment; filename='' @ [CHR 0x22] @ ''panel-'' @ dl_stamp v @ ''.db'' @ [CHR 0x22])],
            rs_cookies = [], rs_body = SnapshotBody d\<rparr>))"

lemma BackupTo_evolves [evolving]: "sql_evolves A (BackupTo b)"
  unfolding BackupTo_def by (rule query_evolves)

lemma handleBackup_confined [evolving]: "confined A (handleBackup w v)"
  unfolding handleBackup_def by (intro evolving)

subsection \<open>Rotation\<close>

datatype snapshot = Complete db | Partial

type_synonym snapshot_dir = "(string \<times> snapshot) list"

text \<open>
  \<open>bk_day\<close> is the date as eight digits; \<open>bk_removable\<close> says which files \<^verbatim>\<open>Remove\<close> can delete, \<open>bk_left\<close> whether a
  copy that fails leaves a partial file.
\<close>

record backup_env =
  bk_day :: string
  bk_removable :: "string \<Rightarrow> bool"
  bk_left :: bool

definition snapshot_name :: "string \<Rightarrow> string" where
  "snapshot_name day = ''panel-'' @ day @ ''.db''"

text \<open>The glob \<^verbatim>\<open>panel-*.db\<close>.\<close>

definition is_snapshot :: "string \<Rightarrow> bool" where
  "is_snapshot f \<longleftrightarrow> HasPrefix f ''panel-'' \<and> HasSuffix f ''.db''"

definition snapshots :: "string list \<Rightarrow> string list" where
  "snapshots fs = sort_strings (filter is_snapshot fs)"

definition remove_file :: "backup_env \<Rightarrow> string \<Rightarrow> snapshot_dir \<Rightarrow> snapshot_dir" where
  "remove_file v name dir = (if bk_removable v name then filter (\<lambda>(f, c). f \<noteq> name) dir else dir)"

definition backup_run :: "backup_env \<Rightarrow> snapshot_dir \<Rightarrow> panel \<Rightarrow> snapshot_dir \<times> panel" where
  "backup_run v dir p =
     (let keep = backupKeep p in
      if keep \<le> 0 then (dir, p)
      else
        let name = snapshot_name (bk_day v); dir = remove_file v name dir; present = name \<in> fst ` set dir
        in case on_store (BackupTo present) (pn_app p) of
             (Inl e, a) \<Rightarrow> (if bk_left v \<and> \<not> present then dir @ [(name, Partial)] else dir, p\<lparr>pn_app := a\<rparr>)
           | (Inr d, a) \<Rightarrow>
               let dir = dir @ [(name, Complete d)]; entries = snapshots (map fst dir)
               in (if int (length entries) > keep then fold (remove_file v) (take (length entries - nat keep) entries) dir else dir,
                   p\<lparr>pn_app := a\<rparr>))"

text \<open>
  The loop: without a directory, or when it cannot be made, nothing; else a run at the start and one a
  day, of which this is one.
\<close>

definition backupLoop :: "string \<Rightarrow> bool \<Rightarrow> backup_env \<Rightarrow> snapshot_dir \<Rightarrow> panel \<Rightarrow> snapshot_dir \<times> panel" where
  "backupLoop dir_name made v dir p = (if dir_name = [] \<or> \<not> made then (dir, p) else backup_run v dir p)"

lemma backup_run_evolves: "evolves A (db_of p) (db_of (snd (backup_run v dir p)))"
proof -
  have "evolves A (db_of p) (db_of (p\<lparr>pn_app := a\<rparr>))" if "on_store (BackupTo b) (pn_app p) = (r, a)" for a b r
    using on_store_evolves [OF BackupTo_evolves that] by simp
  then show ?thesis by (auto simp: backup_run_def Let_def ev_refl split: prod.split sum.split)
qed

lemma backupLoop_evolves: "evolves A (db_of p) (db_of (snd (backupLoop n m v dir p)))"
  using backup_run_evolves by (simp add: backupLoop_def ev_refl)

text \<open>Names in byte order.\<close>

definition bytes :: "string \<Rightarrow> nat list" where
  "bytes = map of_char"

lemma bytes_inj: "bytes f = bytes g \<longleftrightarrow> f = g"
  by (simp add: bytes_def inj_map_eq_map inj_of_char)

lemma snapshot_is: "is_snapshot (snapshot_name day)"
  by (simp add: is_snapshot_def snapshot_name_def HasPrefix_def HasSuffix_def)

lemma snapshots_set [simp]: "set (snapshots fs) = {f \<in> set fs. is_snapshot f}"
  by (auto simp: snapshots_def sort_strings_def)

lemma snapshots_sorted: "sorted (map bytes (snapshots fs))"
  by (simp add: snapshots_def sort_strings_def bytes_def)

lemma snapshots_distinct: "distinct fs \<Longrightarrow> distinct (snapshots fs)"
  by (simp add: snapshots_def sort_strings_def)

text \<open>The oldest entries of a sorted list of distinct names, and the rest.\<close>

lemma split_distinct: "distinct (xs @ ys) \<Longrightarrow> set (xs @ ys) - set xs = set ys"
  by auto

lemma oldest:
  assumes "distinct es" "sorted (map bytes es)"
  shows "set es - set (take k es) = set (drop k es)"
    and "f \<in> set (take k es) \<Longrightarrow> g \<in> set (drop k es) \<Longrightarrow> bytes f < bytes g"
proof -
  have d: "distinct (take k es @ drop k es)" using assms(1) by simp
  then show "set es - set (take k es) = set (drop k es)" using split_distinct [OF d] by simp
  assume fg: "f \<in> set (take k es)" "g \<in> set (drop k es)"
  have "sorted (map bytes (take k es) @ map bytes (drop k es))" using assms(2) by (simp flip: map_append)
  with fg have "bytes f \<le> bytes g" by (auto simp: sorted_append)
  moreover have "f \<noteq> g" using set_take_disj_set_drop_if_distinct [OF assms(1), of k k] fg by auto
  ultimately show "bytes f < bytes g" using bytes_inj [of f g] by (simp add: less_le)
qed

lemma newest_kept:
  assumes "distinct es" "sorted (map bytes es)" "x \<in> set es" "\<forall>g \<in> set es. bytes g \<le> bytes x" "k < length es"
  shows "x \<notin> set (take k es)"
proof
  assume x: "x \<in> set (take k es)"
  have "es ! k \<in> set (drop k es)" using assms(5) by (simp add: Cons_nth_drop_Suc [symmetric])
  with oldest(2) [OF assms(1,2) x] have "bytes x < bytes (es ! k)" by blast
  with assms(4,5) show False by (auto simp: not_less [symmetric])
qed

text \<open>The names that stay: the limit of the newest, today's among them.\<close>

lemma kept_names:
  assumes "0 < keep" "distinct fs" "\<forall>f \<in> set fs. if is_snapshot f then bytes f \<le> bytes (snapshot_name day) else True"
    and hs0: "hs = filter (\<lambda>f. f \<noteq> snapshot_name day) fs @ [snapshot_name day]"
    and es0: "es = snapshots hs" and gs: "gs = filter (\<lambda>f. f \<notin> set (take (length es - nat keep) es)) hs"
  shows "snapshot_name day \<in> set gs \<and> (\<forall>f. \<not> is_snapshot f \<longrightarrow> f \<notin> set (take (length es - nat keep) es)) \<and>
    int (length (snapshots gs)) \<le> keep \<and> (\<forall>f \<in> set fs - set gs. \<forall>g \<in> set (snapshots gs). bytes f < bytes g) \<and>
    (int (card (insert (snapshot_name day) (set (snapshots fs)))) \<le> keep \<longrightarrow> set fs \<subseteq> set gs)"
proof -
  define name where "name = snapshot_name day"
  define k where "k = length es - nat keep"
  have hs: "set hs = insert name (set fs)" "distinct hs" using assms(2) by (auto simp: hs0 name_def)
  have es: "distinct es" "sorted (map bytes es)" "set es = {f \<in> set hs. is_snapshot f}"
    using snapshots_distinct [OF hs(2)] snapshots_sorted by (simp_all add: es0)
  have mem: "name \<in> set es" using hs(1) es(3) snapshot_is by (simp add: name_def)
  then have k: "k < length es" using assms(1) by (cases es) (auto simp: k_def)
  have gs_set: "set gs = set hs - set (take k es)" "distinct gs" using hs(2) by (auto simp: k_def gs)
  have old: "is_snapshot f" if "f \<in> set (take k es)" for f using that es(3) in_set_takeD by fastforce
  have snaps: "set (snapshots gs) = set (drop k es)"
    using oldest(1) [OF es(1,2), of k] gs_set(1) es(3) by auto
  then have "length (snapshots gs) = length (drop k es)"
    using snapshots_distinct [OF gs_set(2)] es(1) by (metis distinct_card distinct_drop)
  then have few: "int (length (snapshots gs)) \<le> keep" using assms(1) by (simp add: k_def)
  have "\<forall>g \<in> set es. bytes g \<le> bytes name" using es(3) hs(1) assms(3) by (auto simp: name_def)
  from newest_kept [OF es(1,2) mem this k] have today: "name \<notin> set (take k es)" .
  have kept: "set fs \<subseteq> set gs" if "int (card (insert name (set (snapshots fs)))) \<le> keep"
  proof -
    have "set es = insert name (set (snapshots fs))" using es(3) hs(1) snapshot_is by (auto simp: name_def)
    then have "length es = card (insert name (set (snapshots fs)))" using es(1) by (metis distinct_card)
    with that have "k = 0" by (simp add: k_def)
    then show ?thesis using gs_set(1) hs(1) by auto
  qed
  have older: "bytes f < bytes g" if "f \<in> set fs - set gs" "g \<in> set (snapshots gs)" for f g
    using oldest(2) [OF es(1,2), of f k g] that snaps gs_set(1) hs(1) by auto
  have "name \<in> set gs" using today hs(1) gs_set(1) by auto
  with few older kept old show ?thesis unfolding name_def [symmetric] k_def [symmetric] by blast
qed

lemma map_of_filter_key: "map_of (filter (\<lambda>(f, c). P f) dir) f = (if P f then map_of dir f else None)"
  by (induction dir) auto

lemma remove_files:
  "(\<And>f. bk_removable v f) \<Longrightarrow> fold (remove_file v) fs dir = filter (\<lambda>(f, c). f \<notin> set fs) dir"
proof (induction fs arbitrary: dir)
  case Nil
  have "filter (\<lambda>(f, c). True) dir = dir" by (rule filter_True) auto
  then show ?case by simp
next
  case (Cons g fs)
  then show ?case by (simp add: remove_file_def) (rule filter_cong, auto)
qed

text \<open>Files that can all be removed, and a run that is due; the outcome when the copy succeeds and when it fails.\<close>

lemma backup_run_cases:
  assumes "0 < backupKeep p" "\<And>f. bk_removable v f" "backup_run v dir p = (out, q)"
  defines "old \<equiv> filter (\<lambda>(f, c). f \<noteq> snapshot_name (bk_day v)) dir"
  obtains (written) es where "\<not> fst (next_fault (db_of p))" "out = filter (\<lambda>(f, c). f \<notin> set (take (length es - nat (backupKeep p)) es)) (old @ [(snapshot_name (bk_day v), Complete (tables (db_of p)))])"
      "es = snapshots (map fst (old @ [(snapshot_name (bk_day v), Complete (tables (db_of p)))]))"
  | (failed) "fst (next_fault (db_of p))" "out \<in> {old, old @ [(snapshot_name (bk_day v), Partial)]}"
proof -
  let ?n = "snapshot_name (bk_day v)"
  have rm: "remove_file v ?n dir = old" using assms(2) by (simp add: remove_file_def old_def)
  have fresh: "?n \<notin> fst ` set old" by (auto simp: old_def)
  obtain bad s' where nf: "next_fault (db_of p) = (bad, s')" by fastforce
  have tb: "tables s' = tables (db_of p)" using next_fault_tables [OF nf] by simp
  have res: "fst (on_store (BackupTo False) (pn_app p)) = (if bad then Inl EngineErr else Inr (tables (db_of p)))"
    using tb nf by (simp add: on_store_def BackupTo_def query_def)
  show thesis
  proof (cases bad)
    case True
    with assms(1,3) res rm fresh nf have "fst (next_fault (db_of p))" "out \<in> {old, old @ [(?n, Partial)]}"
      by (auto simp: backup_run_def Let_def split: prod.splits if_splits)
    then show thesis by (rule failed)
  next
    case False
    define es where "es = snapshots (map fst (old @ [(?n, Complete (tables (db_of p)))]))"
    have "out = (if int (length es) > backupKeep p then fold (remove_file v) (take (length es - nat (backupKeep p)) es)
        (old @ [(?n, Complete (tables (db_of p)))]) else old @ [(?n, Complete (tables (db_of p)))])"
      using False assms(1,3) res rm fresh by (auto simp: backup_run_def Let_def es_def split: prod.splits)
    moreover have "length es - nat (backupKeep p) = 0" if "\<not> int (length es) > backupKeep p" using that by simp
    moreover have "filter (\<lambda>(f, c). True) xs = xs" for xs :: snapshot_dir by (rule filter_True) auto
    ultimately show thesis
      using False nf by (intro written [OF _ _ es_def]) (simp_all add: remove_files [OF assms(2)] split: if_splits)
  qed
qed

lemma map_fst_filter: "map fst (filter (\<lambda>(f, c). P f) dir) = filter P (map fst dir)"
  by (induction dir) auto

text \<open>
  C37. The rotation. A run with a positive setting, on a directory of distinct files that can be removed
  and whose snapshots are not dated in the future. If the copy succeeds: today's snapshot holds the
  tables of that moment, every other file is unchanged or is an old snapshot that was deleted, at
  most \<open>keep\<close> snapshots remain, every deleted one is older than every kept one, and none is deleted
  while the limit is not exceeded. If it fails, nothing but today's earlier snapshot is lost.
\<close>
theorem backup_rotation:
  assumes "0 < backupKeep p" "distinct (map fst dir)" "\<And>f. bk_removable v f"
    and "\<forall>f \<in> fst ` set dir. if is_snapshot f then bytes f \<le> bytes (snapshot_name (bk_day v)) else True"
    and "backup_run v dir p = (out, q)"
  shows "if fst (next_fault (db_of p)) then \<forall>f. f \<noteq> snapshot_name (bk_day v) \<longrightarrow> map_of out f = map_of dir f
     else map_of out (snapshot_name (bk_day v)) = Some (Complete (tables (db_of p))) \<and>
       (\<forall>f. f \<noteq> snapshot_name (bk_day v) \<longrightarrow> map_of out f = map_of dir f \<or> is_snapshot f \<and> map_of out f = None) \<and>
       int (length (snapshots (map fst out))) \<le> backupKeep p \<and>
       (\<forall>f \<in> fst ` set dir - fst ` set out. \<forall>g \<in> set (snapshots (map fst out)). bytes f < bytes g) \<and>
       (int (card (insert (snapshot_name (bk_day v)) (set (snapshots (map fst dir))))) \<le> backupKeep p \<longrightarrow> fst ` set dir \<subseteq> fst ` set out)"
proof -
  let ?n = "snapshot_name (bk_day v)"
  let ?old = "filter (\<lambda>(f, c). f \<noteq> ?n) dir" and ?new = "(?n, Complete (tables (db_of p)))"
  have rest: "map_of ?old f = map_of dir f" if "f \<noteq> ?n" for f using that by (simp add: map_of_filter_key)
  show ?thesis
  proof (cases rule: backup_run_cases [OF assms(1,3,5)])
    case (1 es)
    let ?gone = "set (take (length es - nat (backupKeep p)) es)"
    have es: "es = snapshots (filter (\<lambda>f. f \<noteq> ?n) (map fst dir) @ [?n])" using 1(3) by (simp add: map_fst_filter)
    have out: "map fst out = filter (\<lambda>f. f \<notin> ?gone) (filter (\<lambda>f. f \<noteq> ?n) (map fst dir) @ [?n])"
      using 1(2) by (simp add: map_fst_filter del: filter_append)
    have dated: "\<forall>f \<in> set (map fst dir). if is_snapshot f then bytes f \<le> bytes ?n else True" using assms(4) by simp
    from kept_names [OF assms(1,2) dated refl es out]
    have k: "?n \<in> set (map fst out)" "\<And>f. \<not> is_snapshot f \<Longrightarrow> f \<notin> ?gone" "int (length (snapshots (map fst out))) \<le> backupKeep p"
      "\<forall>f \<in> set (map fst dir) - set (map fst out). \<forall>g \<in> set (snapshots (map fst out)). bytes f < bytes g"
      "int (card (insert ?n (set (snapshots (map fst dir))))) \<le> backupKeep p \<longrightarrow> set (map fst dir) \<subseteq> set (map fst out)"
      by blast+
    have look: "map_of out f = (if f \<in> ?gone then None else map_of (?old @ [?new]) f)" for f
      using 1(2) by (simp add: map_of_filter_key del: filter_append)
    have "?n \<notin> ?gone" using k(1) out by auto
    then have "map_of out ?n = Some (Complete (tables (db_of p)))"
      by (simp add: look map_of_filter_key map_add_Some_iff)
    moreover have "map_of out f = map_of dir f \<or> is_snapshot f \<and> map_of out f = None" if "f \<noteq> ?n" for f
      using that k(2) [of f] by (auto simp: look map_of_filter_key map_add_def split: option.split)
    ultimately show ?thesis using 1(1) k(3-5) by simp
  next
    case 2
    then show ?thesis using rest by (auto simp: map_add_def split: option.split)
  qed
qed

text \<open>Two are kept: today's and the newest of the old ones.\<close>

definition some_files :: snapshot_dir where
  "some_files = [(''x'', Partial), (''panel-20240101.db'', Partial), (''panel-20240102.db'', Partial)]"

definition all_fine :: backup_env where
  "all_fine = \<lparr>bk_day = ''20240103'', bk_removable = (\<lambda>_. True), bk_left = False\<rparr>"

definition keep_two :: "panel \<Rightarrow> panel" where
  "keep_two p = p\<lparr>pn_set := (pn_set p)\<lparr>ls_backupKeep := 2\<rparr>\<rparr>"

theorem backup_rotation_witness:
  "map_of (fst (backup_run all_fine some_files (keep_two (panel_on root_store)))) (snapshot_name ''20240103'') = Some (Complete (tables root_store)) \<and>
   map_of (fst (backup_run all_fine some_files (keep_two (panel_on root_store)))) ''x'' = Some Partial \<and>
   int (length (snapshots (map fst (fst (backup_run all_fine some_files (keep_two (panel_on root_store))))))) \<le> 2"
proof -
  let ?p = "keep_two (panel_on root_store)"
  obtain out q where r: "backup_run all_fine some_files ?p = (out, q)" by fastforce
  have k: "backupKeep ?p = 2" by (simp add: keep_two_def backupKeep_def)
  have d: "distinct (map fst some_files)" "\<And>f. bk_removable all_fine f" "bk_day all_fine = ''20240103''"
    by (simp_all add: some_files_def all_fine_def)
  have s: "db_of ?p = root_store" "\<not> fst (next_fault root_store)"
    by (simp_all add: keep_two_def panel_on_def boot_app_def next_fault_def root_store_def)
  have "list_all (\<lambda>f. if is_snapshot f then bytes f \<le> bytes (snapshot_name ''20240103'') else True) (map fst some_files)"
    by code_simp
  then have "\<forall>f \<in> fst ` set some_files. if is_snapshot f then bytes f \<le> bytes (snapshot_name (bk_day all_fine)) else True"
    by (simp only: list_all_iff set_map d(3))
  from backup_rotation [OF _ d(1,2) this r] k s d(3)
  have b: "map_of out (snapshot_name ''20240103'') = Some (Complete (tables root_store))" "int (length (snapshots (map fst out))) \<le> 2"
    "map_of out ''x'' = map_of some_files ''x'' \<or> is_snapshot ''x'' \<and> map_of out ''x'' = None"
    by (auto simp: snapshot_name_def)
  have "\<not> is_snapshot ''x''" by (simp add: is_snapshot_def HasPrefix_def)
  with b r show ?thesis by (simp add: some_files_def)
qed

end
