(* ===== verification/Routes.thy ===== *)
theory Routes
  imports Boot Backup
begin

section \<open>Routes (internal/panel/app.go: Run, middleware.go)\<close>

text \<open>
  The endpoints of the mux, each with the body its handler decodes, and which of them are wrapped in
  \<open>requireAuth\<close>. Matching a request to a pattern and the \<^verbatim>\<open>{id}\<close>, \<^verbatim>\<open>{token}\<close> and \<^verbatim>\<open>{username}\<close>
  segments (the request's path values) are the mux's. Left out are the node WebSocket (\<^verbatim>\<open>Hub\<close>) and
  the embedded files (\<^verbatim>\<open>Assets\<close>).
\<close>

subsection \<open>Endpoints\<close>

datatype account_endpoint =
    PostLogoutAll | GetMe
  | Get2FA | Post2FASetup | Post2FAVerify "string option" | Post2FADisable "string option" | Get2FAQR
  | GetAdmins | PostAdmin "admin_body option" | DelAdmin | PostAdminPassword "string option" | GetAudit

datatype node_endpoint =
    GetStats | GetNodes | PostNode "node option" | PutNode "node_patch option" | DelNode | GetInstall | GetNodeHistory
  | PostRealityKeys

datatype settings_endpoint =
    GetNotify | PutNotify "notify_body option" | PostNotifyTest | GetSettings | PutSettings "settings_body option"
  | GetBackup download_env

datatype user_endpoint =
    GetUsers | PostUser "user_body option" | PutUser "user_patch option" | DelUser | PostUserNodes "int list option option"
  | PostResetTraffic | GetUserSub | GetUserHistory | GetUserNodesTraffic | GetUserDevices | PostRotateSub | PostRotateUUID
  | PostPortalPassword "string option"

datatype open_endpoint =
    Healthz | PostLogin "login_body option" | PostLogout | GetSub | GetSubClash | GetSubSingbox
  | PortalLogin "login_body option" | PortalLogout | PortalMe | PortalChangePassword "string option" | PortalQR

datatype endpoint =
    Account account_endpoint | Nodes node_endpoint | Settings settings_endpoint | Users user_endpoint
  | Open_to_all open_endpoint

definition healthz :: handler where
  "healthz = reply \<lparr>rs_code = 200, rs_header = [(''Content-Type'', ''text/plain'')], rs_cookies = [], rs_body = TextBody ''ok''\<rparr>"

text \<open>The handlers registered as \<^verbatim>\<open>app.requireAuth(h)\<close>.\<close>

definition account_handler :: "world \<Rightarrow> string \<Rightarrow> request \<Rightarrow> account_endpoint \<Rightarrow> handler" where
  "account_handler w version r ep = (case ep of
       PostLogoutAll \<Rightarrow> handleLogoutAll w r | GetMe \<Rightarrow> handleMe w version r
     | Get2FA \<Rightarrow> handle2FAStatus w r | Post2FASetup \<Rightarrow> handle2FASetup w r
     | Post2FAVerify b \<Rightarrow> handle2FAVerify w r b | Post2FADisable b \<Rightarrow> handle2FADisable w r b
     | Get2FAQR \<Rightarrow> handle2FAQR w r
     | GetAdmins \<Rightarrow> handleListAdmins w | PostAdmin b \<Rightarrow> handleCreateAdmin w r b
     | DelAdmin \<Rightarrow> handleDeleteAdmin w r | PostAdminPassword b \<Rightarrow> handleChangeAdminPassword w r b
     | GetAudit \<Rightarrow> handleListAudit w)"

definition node_handler :: "world \<Rightarrow> request \<Rightarrow> node_endpoint \<Rightarrow> handler" where
  "node_handler w r ep = (case ep of
       GetStats \<Rightarrow> handleStats w r | GetNodes \<Rightarrow> handleListNodes w
     | PostNode b \<Rightarrow> handleCreateNode w r b | PutNode b \<Rightarrow> handleUpdateNode w r b
     | DelNode \<Rightarrow> handleDeleteNode w r | GetInstall \<Rightarrow> handleNodeInstall w r
     | GetNodeHistory \<Rightarrow> handleNodeTrafficHistory w r | PostRealityKeys \<Rightarrow> handleRealityKeys w)"

definition settings_handler :: "world \<Rightarrow> request \<Rightarrow> settings_endpoint \<Rightarrow> handler" where
  "settings_handler w r ep = (case ep of
       GetNotify \<Rightarrow> handleNotifyStatus | PutNotify b \<Rightarrow> handleNotifySettings w r b
     | PostNotifyTest \<Rightarrow> handleNotifyTest
     | GetSettings \<Rightarrow> handleGetSettings | PutSettings b \<Rightarrow> handlePutSettings w r b
     | GetBackup v \<Rightarrow> handleBackup w v)"

definition user_handler :: "world \<Rightarrow> request \<Rightarrow> user_endpoint \<Rightarrow> handler" where
  "user_handler w r ep = (case ep of
       GetUsers \<Rightarrow> handleListUsers w | PostUser b \<Rightarrow> handleCreateUser w r b
     | PutUser b \<Rightarrow> handleUpdateUser w r b | DelUser \<Rightarrow> handleDeleteUser w r
     | PostUserNodes b \<Rightarrow> handleSetUserNodes w r b | PostResetTraffic \<Rightarrow> handleResetUserTraffic w r
     | GetUserSub \<Rightarrow> handleUserSubInfo w r | GetUserHistory \<Rightarrow> handleUserTrafficHistory w r
     | GetUserNodesTraffic \<Rightarrow> handleUserTrafficNodes w r | GetUserDevices \<Rightarrow> handleUserDevices w r
     | PostRotateSub \<Rightarrow> handleRotateSub w r | PostRotateUUID \<Rightarrow> handleRotateUUID w r
     | PostPortalPassword b \<Rightarrow> handleSetPortalPassword w r b)"

text \<open>The others check for themselves who is asking.\<close>

definition open_handler :: "world \<Rightarrow> request \<Rightarrow> open_endpoint \<Rightarrow> handler" where
  "open_handler w r ep = (case ep of
       Healthz \<Rightarrow> healthz | PostLogin b \<Rightarrow> handleLogin w r b | PostLogout \<Rightarrow> handleLogout
     | GetSub \<Rightarrow> handleSub w r | GetSubClash \<Rightarrow> handleSubClash w r | GetSubSingbox \<Rightarrow> handleSubSingbox w r
     | PortalLogin b \<Rightarrow> handlePortalLogin w r b | PortalLogout \<Rightarrow> handlePortalLogout | PortalMe \<Rightarrow> handlePortalMe w r
     | PortalChangePassword b \<Rightarrow> handlePortalChangePassword w r b | PortalQR \<Rightarrow> handlePortalQR w r)"

subsection \<open>Serving\<close>

definition csp :: string where
  "csp = (let q = [CHR 0x27]; self = q @ ''self'' @ q; none = q @ ''none'' @ q in
     ''default-src '' @ self @ ''; img-src '' @ self @ '' data:; style-src '' @ self @ '' '' @ q @ ''unsafe-inline'' @ q @
     ''; script-src '' @ self @ ''; connect-src '' @ self @ ''; frame-ancestors '' @ none @ ''; base-uri '' @ self @
     ''; form-action '' @ self)"

definition security_headers :: "(string \<times> string) list" where
  "security_headers =
     [(''X-Content-Type-Options'', ''nosniff''), (''X-Frame-Options'', ''DENY''), (''Referrer-Policy'', ''no-referrer''),
      (''Content-Security-Policy'', csp)]"

definition securityHeaders :: "handler \<Rightarrow> handler" where
  "securityHeaders nxt p = (let (rs, p) = nxt p in (rs\<lparr>rs_header := security_headers @ rs_header rs\<rparr>, p))"

definition route :: "world \<Rightarrow> string \<Rightarrow> request \<Rightarrow> endpoint \<Rightarrow> handler" where
  "route w version r ep = (case ep of
       Account e \<Rightarrow> requireAuth w r (account_handler w version r e)
     | Nodes e \<Rightarrow> requireAuth w r (node_handler w r e)
     | Settings e \<Rightarrow> requireAuth w r (settings_handler w r e)
     | Users e \<Rightarrow> requireAuth w r (user_handler w r e)
     | Open_to_all e \<Rightarrow> open_handler w r e)"

definition serve :: "world \<Rightarrow> string \<Rightarrow> request \<Rightarrow> endpoint \<Rightarrow> handler" where
  "serve w version r ep = securityHeaders (route w version r ep)"

fun open_to_all :: "endpoint \<Rightarrow> bool" where
  "open_to_all (Open_to_all e) = True"
| "open_to_all _ = False"

lemma serve_db [simp]: "db_of (snd (serve w v r ep p)) = db_of (snd (route w v r ep p))"
  by (simp add: serve_def securityHeaders_def split_beta)

lemma route_guarded:
  assumes "\<not> open_to_all ep"
  obtains h where "route w v r ep = requireAuth w r h"
  using assms by (cases ep) (auto simp: route_def)

subsection \<open>What the administrators' endpoints write\<close>

definition admin_surface :: "world \<Rightarrow> store_op \<Rightarrow> bool" where
  "admin_surface w x \<longleftrightarrow> admin_api_op w x \<or> api_op w x"

lemma handleLogoutAll_surface: "confined (admin_surface w) (handleLogoutAll w r)"
  by (rule handleLogoutAll_confined) (simp add: admin_surface_def admin_api_op_def)

lemma surface_handlers:
  "confined (admin_surface w) (account_handler w v r e1)" "confined (admin_surface w) (node_handler w r e2)"
  "confined (admin_surface w) (settings_handler w r e3)" "confined (admin_surface w) (user_handler w r e4)"
proof -
  have sub: "\<And>x. admin_api_op w x \<Longrightarrow> admin_surface w x" "\<And>x. api_op w x \<Longrightarrow> admin_surface w x"
    by (simp_all add: admin_surface_def)
  note [simp] = handleLogoutAll_surface lists_confined read_handlers_confined portal_confined
    handleBackup_confined confined_weaken [OF admin_handlers_confined(1) sub(1)] confined_weaken [OF admin_handlers_confined(2) sub(1)]
    confined_weaken [OF admin_handlers_confined(3) sub(1)] confined_weaken [OF admin_handlers_confined(4) sub(1)]
    confined_weaken [OF admin_handlers_confined(5) sub(1)] confined_weaken [OF admin_handlers_confined(6) sub(1)]
    confined_weaken [OF admin_handlers_confined(7) sub(1)] confined_weaken [OF admin_handlers_confined(8) sub(1)]
    api_handlers_confined [THEN confined_weaken, OF sub(2)]
  show "confined (admin_surface w) (account_handler w v r e1)" "confined (admin_surface w) (node_handler w r e2)"
    "confined (admin_surface w) (settings_handler w r e3)" "confined (admin_surface w) (user_handler w r e4)"
    by (simp_all add: account_handler_def node_handler_def settings_handler_def user_handler_def
        split: account_endpoint.split node_endpoint.split settings_endpoint.split user_endpoint.split)
qed

lemma route_surface: "\<not> open_to_all ep \<Longrightarrow> confined (admin_surface w) (route w v r ep)"
  by (cases ep) (simp_all add: route_def requireAuth_confined surface_handlers)

end
