(* ===== verification/Secrets.thy ===== *)
theory Secrets
  imports StoreInv
begin

section \<open>Secrets at rest\<close>

text \<open>
  The one-time encryption of columns written before at-rest encryption existed: what it leaves in
  the database, and that every secret still reads as the same text. The two table columns share a
  contract, stated as a locale and interpreted on the node keys and the second-factor secrets.
\<close>

subsection \<open>A column of secrets\<close>

fun enc_rows :: "('r \<Rightarrow> string) \<Rightarrow> (string \<Rightarrow> 'r \<Rightarrow> 'r) \<Rightarrow> crypter \<Rightarrow> (nat \<Rightarrow> string) \<Rightarrow> nat \<Rightarrow> 'r list \<Rightarrow> 'r list" where
  "enc_rows val put c nonces i [] = []"
| "enc_rows val put c nonces i (r # rs) =
     (if needs_encryption (val r)
      then put (encrypt c (nonces i) (val r)) r # enc_rows val put c nonces (Suc i) rs
      else r # enc_rows val put c nonces i rs)"

locale secret_column =
  fixes rows :: "db \<Rightarrow> 'r list" and set_rows :: "'r list \<Rightarrow> db \<Rightarrow> db"
    and key :: "'r \<Rightarrow> int" and val :: "'r \<Rightarrow> string" and put :: "string \<Rightarrow> 'r \<Rightarrow> 'r"
  assumes rows_set: "rows (set_rows rs d) = rs" and set_set: "set_rows rs (set_rows qs d) = set_rows rs d"
    and set_same: "set_rows (rows d) d = d"
    and key_put: "key (put v r) = key r" and val_put: "val (put v r) = v"
begin

definition todo :: "'r list \<Rightarrow> (int \<times> string) list" where
  "todo rs = filter (\<lambda>(i, v). needs_encryption v) (map (\<lambda>r. (key r, val r)) rs)"

lemma todo_simps [simp]:
  "todo [] = []"
  "todo (r # rs) = (if needs_encryption (val r) then (key r, val r) # todo rs else todo rs)"
  by (simp_all add: todo_def)

definition upd_val :: "int \<Rightarrow> string \<Rightarrow> db \<Rightarrow> sql_err + db" where
  "upd_val i v d = Inr (set_rows (upd_where (\<lambda>r. key r = i) (put v) (rows d)) d)"

lemma upd_only:
  assumes "distinct (map key (pre @ r # rs))"
  shows "upd_where (\<lambda>x. key x = key r) f (pre @ r # rs) = pre @ f r # rs"
proof -
  have nk: "key x \<noteq> key r" if "x \<in> set pre \<union> set rs" for x
    using assms that by (auto simp: image_iff)
  then have "upd_where (\<lambda>x. key x = key r) f pre = pre"
    by (intro upd_where_none) blast
  moreover have "upd_where (\<lambda>x. key x = key r) f rs = rs"
    using nk by (intro upd_where_none) blast
  ultimately show ?thesis by simp
qed

lemma reencrypt_rows_nofault:
  "no_faults s \<Longrightarrow> rows (tables s) = pre @ rs \<Longrightarrow> distinct (map key (pre @ rs)) \<Longrightarrow>
   reencrypt_rows (map (upd_val \<circ> fst) (todo rs)) nonces i (map snd (todo rs)) s =
     (Inr (), s\<lparr>tables := set_rows (pre @ enc_rows val put (crypt s) nonces i rs) (tables s)\<rparr>)"
proof (induction rs arbitrary: pre i s)
  case Nil
  then have "set_rows pre (tables s) = tables s" using set_same [of "tables s"] by simp
  then show ?case by simp
next
  case (Cons r rs)
  show ?case
  proof (cases "needs_encryption (val r)")
    case False
    with Cons.IH [of s "pre @ [r]" i] Cons.prems show ?thesis by simp
  next
    case True
    let ?r = "put (encrypt (crypt s) (nonces i) (val r)) r"
    let ?s = "s\<lparr>tables := set_rows (pre @ ?r # rs) (tables s)\<rparr>"
    have "exec (upd_val (key r) (encrypt (crypt s) (nonces i) (val r))) s = (Inr (), ?s)"
      using Cons.prems by (simp add: exec_nofault upd_val_def upd_only del: upd_where_append upd_where_Cons map_append distinct_append)
    moreover have "reencrypt_rows (map (upd_val \<circ> fst) (todo rs)) nonces (Suc i) (map snd (todo rs)) ?s =
        (Inr (), ?s\<lparr>tables := set_rows ((pre @ [?r]) @ enc_rows val put (crypt ?s) nonces (Suc i) rs) (tables ?s)\<rparr>)"
      using Cons.prems by (intro Cons.IH) (simp_all add: rows_set key_put)
    ultimately show ?thesis using True by (simp add: set_set comp_def)
  qed
qed

lemma reencryptColumn_nofault:
  assumes "no_faults s" "distinct (map key (rows (tables s)))"
    and "\<And>d. sel d = map (\<lambda>r. (key r, val r)) (rows d)" and "upd = upd_val"
  shows "reencryptColumn sel upd nonces s =
    (Inr (), s\<lparr>tables := set_rows (enc_rows val put (crypt s) nonces 0 (rows (tables s))) (tables s)\<rparr>)"
  using reencrypt_rows_nofault [of s "[]" "rows (tables s)" nonces 0] assms
  by (simp add: reencryptColumn_def query_nofault todo_def)

lemma enc_rows_keys: "map key (enc_rows val put c nonces i rs) = map key rs"
  by (induction rs arbitrary: i) (simp_all add: key_put)

lemma enc_rows_marked: "c \<noteq> None \<Longrightarrow> r \<in> set (enc_rows val put c nonces i rs) \<Longrightarrow> val r = [] \<or> isEncrypted (val r)"
  by (induction rs arbitrary: i) (auto simp: val_put needs_encryption_def encrypt_marked split: if_splits)

lemma enc_rows_read:
  "(\<And>i r. r \<in> set rs \<Longrightarrow> crypter_ok c (nonces i) (val r)) \<Longrightarrow>
   map (\<lambda>r. decrypt c (val r)) (enc_rows val put c nonces i rs) = map (\<lambda>r. decrypt c (val r)) rs"
proof (induction rs arbitrary: i)
  case (Cons r rs)
  then show ?case by (auto simp: val_put needs_encryption_def decrypt_encrypt decrypt_plain)
qed simp

lemma enc_rows_done:
  "(\<And>r. r \<in> set rs \<Longrightarrow> val r = [] \<or> isEncrypted (val r)) \<Longrightarrow> enc_rows val put c nonces i rs = rs"
  by (induction rs arbitrary: i) (auto simp: needs_encryption_def)

end

interpretation node_keys: secret_column nodes "\<lambda>rs d. d\<lparr>nodes := rs\<rparr>" nr_id nr_reality_private_key
  "\<lambda>v r. r\<lparr>nr_reality_private_key := v\<rparr>"
  by unfold_locales simp_all

interpretation totp_keys: secret_column admins "\<lambda>rs d. d\<lparr>admins := rs\<rparr>" ar_id ar_totp_secret
  "\<lambda>v r. r\<lparr>ar_totp_secret := v\<rparr>"
  by unfold_locales simp_all

subsection \<open>The telegram token\<close>

lemma map_of_replace: "map_of (map (\<lambda>(k, w). if k = a then (k, v) else (k, w)) kvs) b =
    (if b = a \<and> map_of kvs a \<noteq> None then Some v else map_of kvs b)"
  by (induction kvs) auto

definition token_pass :: "crypter \<Rightarrow> string \<Rightarrow> db \<Rightarrow> db" where
  "token_pass c nonce d = d\<lparr>settings :=
    (case map_of (settings d) ''telegram_token'' of None \<Rightarrow> settings d
     | Some v \<Rightarrow> if needs_encryption v
                 then map (\<lambda>(k, w). if k = ''telegram_token'' then (k, encrypt c nonce v) else (k, w)) (settings d)
                 else settings d)\<rparr>"

lemma reencrypt_telegram_nofault:
  "no_faults s \<Longrightarrow> reencrypt_telegram nonce s = (Inr (), s\<lparr>tables := token_pass (crypt s) nonce (tables s)\<rparr>)"
  by (simp add: reencrypt_telegram_def query_nofault exec_nofault upd_telegram_token_def token_pass_def split: option.split)

subsection \<open>The whole pass\<close>

definition node_key_pass :: "crypter \<Rightarrow> (nat \<Rightarrow> string) \<Rightarrow> db \<Rightarrow> db" where
  "node_key_pass c ns d =
     d\<lparr>nodes := enc_rows nr_reality_private_key (\<lambda>v r. r\<lparr>nr_reality_private_key := v\<rparr>) c ns 0 (nodes d)\<rparr>"

definition totp_pass :: "crypter \<Rightarrow> (nat \<Rightarrow> string) \<Rightarrow> db \<Rightarrow> db" where
  "totp_pass c ns d =
     d\<lparr>admins := enc_rows ar_totp_secret (\<lambda>v r. r\<lparr>ar_totp_secret := v\<rparr>) c ns 0 (admins d)\<rparr>"

lemma encryptExisting_nofault:
  assumes nf: "no_faults s" and ok: "db_ok (tables s)" and c: "crypt s \<noteq> None"
  shows "encryptExisting n1 n2 n3 s = (Inr (),
    s\<lparr>tables := token_pass (crypt s) n3 (totp_pass (crypt s) n2 (node_key_pass (crypt s) n1 (tables s)))\<rparr>)"
proof -
  let ?s1 = "s\<lparr>tables := node_key_pass (crypt s) n1 (tables s)\<rparr>"
  let ?s2 = "?s1\<lparr>tables := totp_pass (crypt s) n2 (tables ?s1)\<rparr>"
  have "reencryptColumn sel_private_keys upd_private_key n1 s = (Inr (), ?s1)"
    using node_keys.reencryptColumn_nofault [OF nf, of sel_private_keys upd_private_key n1] ok
    by (simp add: db_ok_defs sel_private_keys_def upd_private_key_def [abs_def] node_keys.upd_val_def [abs_def] node_key_pass_def)
  moreover have "reencryptColumn sel_totp_secrets upd_totp_secret n2 ?s1 = (Inr (), ?s2)"
    using totp_keys.reencryptColumn_nofault [of ?s1 sel_totp_secrets upd_totp_secret n2] ok nf
    by (simp add: db_ok_defs sel_totp_secrets_def upd_totp_secret_def [abs_def] totp_keys.upd_val_def [abs_def]
        totp_pass_def node_key_pass_def)
  moreover have "reencrypt_telegram n3 ?s2 = (Inr (), ?s2\<lparr>tables := token_pass (crypt s) n3 (tables ?s2)\<rparr>)"
    using reencrypt_telegram_nofault [of ?s2 n3] nf by simp
  ultimately show ?thesis using c by (auto simp: encryptExisting_def sql_bind_def)
qed

text \<open>Every stored secret, with what reading it gives.\<close>

definition stored_secrets :: "db \<Rightarrow> string list" where
  "stored_secrets d = map nr_reality_private_key (nodes d) @ map ar_totp_secret (admins d) @
     (case map_of (settings d) ''telegram_token'' of None \<Rightarrow> [] | Some v \<Rightarrow> [v])"

lemma token_stored:
  "(case map_of (settings (token_pass c n3 d)) ''telegram_token'' of None \<Rightarrow> [] | Some v \<Rightarrow> [v]) =
   (case map_of (settings d) ''telegram_token'' of None \<Rightarrow> []
    | Some v \<Rightarrow> if needs_encryption v then [encrypt c n3 v] else [v])"
  by (simp add: token_pass_def map_of_replace split: option.split)

definition encrypted :: "crypter \<Rightarrow> (nat \<Rightarrow> string) \<Rightarrow> (nat \<Rightarrow> string) \<Rightarrow> string \<Rightarrow> db \<Rightarrow> db" where
  "encrypted c n1 n2 n3 d = token_pass c n3 (totp_pass c n2 (node_key_pass c n1 d))"

lemma pass_frame [simp]:
  "nodes (token_pass c nonce d) = nodes d" "admins (token_pass c nonce d) = admins d"
  "nodes (totp_pass c ns d) = nodes d" "settings (totp_pass c ns d) = settings d"
  "admins (totp_pass c ns (node_key_pass c' ms d)) = admins (totp_pass c ns d)" "settings (node_key_pass c ns d) = settings d"
  by (simp_all add: token_pass_def totp_pass_def node_key_pass_def)

lemma stored_encrypted: "stored_secrets (encrypted c n1 n2 n3 d) =
    map nr_reality_private_key (nodes (node_key_pass c n1 d)) @ map ar_totp_secret (admins (totp_pass c n2 d)) @
    (case map_of (settings d) ''telegram_token'' of None \<Rightarrow> []
     | Some v \<Rightarrow> if needs_encryption v then [encrypt c n3 v] else [v])"
  by (simp add: stored_secrets_def encrypted_def token_stored)

lemma encrypted_marked:
  assumes c: "c \<noteq> None"
  shows "list_all (\<lambda>v. v = [] \<or> isEncrypted v) (stored_secrets (encrypted c n1 n2 n3 d))"
proof -
  have "list_all (\<lambda>v. v = [] \<or> isEncrypted v) (if needs_encryption v then [encrypt c n3 v] else [v])" for v
    using encrypt_marked [OF c, of v n3] by (simp add: needs_encryption_def)
  moreover have "list_all (\<lambda>v. v = [] \<or> isEncrypted v) (map nr_reality_private_key (nodes (node_key_pass c n1 d)))"
    "list_all (\<lambda>v. v = [] \<or> isEncrypted v) (map ar_totp_secret (admins (totp_pass c n2 d)))"
    using node_keys.enc_rows_marked [OF c, of _ n1 0 "nodes d"] totp_keys.enc_rows_marked [OF c, of _ n2 0 "admins d"]
    by (auto simp: list_all_iff node_key_pass_def totp_pass_def)
  ultimately show ?thesis by (simp add: stored_encrypted split: option.split)
qed

lemma encrypted_read:
  assumes "\<And>v nonce. v \<in> set (stored_secrets d) \<Longrightarrow> nonce \<in> insert n3 (range n1 \<union> range n2) \<Longrightarrow> crypter_ok c nonce v"
  shows "map (decrypt c) (stored_secrets (encrypted c n1 n2 n3 d)) = map (decrypt c) (stored_secrets d)"
proof -
  have "map (\<lambda>r. decrypt c (nr_reality_private_key r)) (nodes (node_key_pass c n1 d)) =
      map (\<lambda>r. decrypt c (nr_reality_private_key r)) (nodes d)"
    unfolding node_key_pass_def by simp (rule node_keys.enc_rows_read, auto intro!: assms simp: stored_secrets_def)
  moreover have "map (\<lambda>r. decrypt c (ar_totp_secret r)) (admins (totp_pass c n2 d)) =
      map (\<lambda>r. decrypt c (ar_totp_secret r)) (admins d)"
    unfolding totp_pass_def by simp (rule totp_keys.enc_rows_read, auto intro!: assms simp: stored_secrets_def)
  moreover have "decrypt c (encrypt c n3 v) = decrypt c v"
    if "map_of (settings d) ''telegram_token'' = Some v" "needs_encryption v" for v
    using that assms [of v n3] by (simp add: stored_secrets_def needs_encryption_def decrypt_encrypt decrypt_plain)
  ultimately show ?thesis
    unfolding stored_encrypted stored_secrets_def [of d] by (auto simp: comp_def split: option.split)
qed

lemma encrypted_done:
  assumes "list_all (\<lambda>v. v = [] \<or> isEncrypted v) (stored_secrets d)"
  shows "encrypted c n1 n2 n3 d = d"
proof -
  have "node_key_pass c n1 d = d"
    using assms node_keys.enc_rows_done [of "nodes d" c n1 0]
    by (simp add: node_key_pass_def stored_secrets_def list_all_iff)
  moreover have "totp_pass c n2 d = d"
    using assms totp_keys.enc_rows_done [of "admins d" c n2 0]
    by (simp add: totp_pass_def stored_secrets_def list_all_iff)
  moreover have "token_pass c n3 d = d"
    using assms by (auto simp: token_pass_def stored_secrets_def list_all_iff needs_encryption_def split: option.splits)
  ultimately show ?thesis by (simp add: encrypted_def)
qed

text \<open>C11. Turning encryption on loses no secret and leaves none in the clear. On a sound database with a
  key, and no engine failure, the pass succeeds; afterwards every node key, second-factor secret and
  bot token in the file is empty or ciphertext, each reads as exactly what it read before, and a
  second pass (every later start of the panel) changes nothing. The cipher is assumed to open what
  it sealed, for the secrets at hand.\<close>

theorem encryption_pass:
  assumes "no_faults s" "db_ok (tables s)" "crypt s = Some c"
    and "\<And>v nonce. v \<in> set (stored_secrets (tables s)) \<Longrightarrow> nonce \<in> insert n3 (range n1 \<union> range n2) \<Longrightarrow> aead_opens c nonce v"
    and "encryptExisting n1 n2 n3 s = (r, s')"
  shows "r = Inr () \<and>
    list_all (\<lambda>v. v = [] \<or> isEncrypted v) (stored_secrets (tables s')) \<and>
    map (decrypt (crypt s')) (stored_secrets (tables s')) = map (decrypt (crypt s)) (stored_secrets (tables s)) \<and>
    encryptExisting m1 m2 m3 s' = (Inr (), s')"
proof -
  have c: "crypt s \<noteq> None" using assms(3) by simp
  have s': "r = Inr ()" "s' = s\<lparr>tables := encrypted (crypt s) n1 n2 n3 (tables s)\<rparr>"
    using encryptExisting_nofault [OF assms(1,2) c, of n1 n2 n3] assms(5) by (simp_all add: encrypted_def)
  have marked: "list_all (\<lambda>v. v = [] \<or> isEncrypted v) (stored_secrets (tables s'))"
    using encrypted_marked [OF c] by (simp add: s')
  have "keeps db_ok (encryptExisting n1 n2 n3)" by (intro methods_ok stmts_ok)
  then have ok: "db_ok (tables s')" using assms(2,5) by (rule keepsD)
  have "crypter_ok (crypt s) nonce v" if "v \<in> set (stored_secrets (tables s))" "nonce \<in> insert n3 (range n1 \<union> range n2)" for v nonce
    using assms(3,4) that by (simp add: crypter_ok_def)
  then have "map (decrypt (crypt s')) (stored_secrets (tables s')) = map (decrypt (crypt s)) (stored_secrets (tables s))"
    using encrypted_read [of "tables s" n3 n1 n2 "crypt s"] by (simp add: s')
  moreover have "encryptExisting m1 m2 m3 s' = (Inr (), s')"
    using encryptExisting_nofault [of s' m1 m2 m3] encrypted_done [OF marked, of "crypt s'" m1 m2 m3] c assms(1) ok
    by (simp add: s' encrypted_def)
  ultimately show ?thesis using marked s'(1) by blast
qed

text \<open>A cipher that opens what it sealed: the sealed text is the plaintext with a tag in front.\<close>

definition toy_aead :: aead where
  "toy_aead = \<lparr>NonceSize = 2, Seal = (\<lambda>nonce s. CHR ''#'' # s),
     Open = (\<lambda>nonce s. case s of [] \<Rightarrow> None | t # v \<Rightarrow> if t = CHR ''#'' then Some v else None)\<rparr>"

definition legacy_store :: store where
  "legacy_store = \<lparr>tables = empty_db\<lparr>nodes := [\<lparr>nr_id = 1, nr_name = ''n'', nr_token = ''t'', nr_address = ''a'',
       nr_remark = [], nr_last_seen = 0, nr_created_at = 0, nr_reality_dest = ''d'', nr_reality_server_name = ''s'',
       nr_reality_private_key = ''k'', nr_reality_public_key = ''p'', nr_reality_short_id = ''i'', nr_tls_domain = [],
       nr_traffic_seq = 0, nr_agent_version = []\<rparr>], seq_nodes := 1, settings := [(''telegram_token'', ''tg'')]\<rparr>,
     faults = [], crypt = Some toy_aead\<rparr>"

lemma legacy_store_ok: "no_faults legacy_store" "db_ok (tables legacy_store)" "crypt legacy_store = Some toy_aead"
  by (simp_all add: legacy_store_def no_faults_def db_ok_defs empty_db_def)

theorem encryption_pass_witness:
  "\<exists>r s'. encryptExisting (\<lambda>_. ''ab'') (\<lambda>_. ''ab'') ''ab'' legacy_store = (r, s') \<and> r = Inr () \<and>
     map (decrypt (crypt s')) (stored_secrets (tables s')) = [''k'', ''tg'']"
proof -
  obtain r s' where e: "encryptExisting (\<lambda>_. ''ab'') (\<lambda>_. ''ab'') ''ab'' legacy_store = (r, s')" by fastforce
  have "map (decrypt (crypt legacy_store)) (stored_secrets (tables legacy_store)) = [''k'', ''tg'']" by code_simp
  with encryption_pass [OF legacy_store_ok _ e] e show ?thesis
    by (auto simp: aead_opens_def toy_aead_def)
qed

end
