(* ===== verification/Signin.thy ===== *)
theory Signin
  imports Routes Sessions Secrets
begin

section \<open>Signing in, starting and recovering\<close>

text \<open>
  What a successful sign-in proves about the request, that it opens a session the guarded handlers
  accept, and that the operator can always get in: on a first start with the configured
  credentials, after \<open>ResetAdmin\<close> with the configured ones again, while an ordinary restart never
  overwrites a stored password.
\<close>

subsection \<open>The answer to a sign-in\<close>

definition login_response :: "world \<Rightarrow> panel \<Rightarrow> admin_row \<Rightarrow> response" where
  "login_response w p a = with_cookie
     (session_cookie sessionCookie (signSession w (session_secret p) roleAdmin (ar_username a) (ar_session_epoch a) ttl_day) 86400 p)
     (writeJSON 200 (jobj [(''username'', JStr (ar_username a))]))"

lemma GetAdmin_find:
  "GetAdmin name s = (x, s') \<Longrightarrow> tables s' = tables s \<and> crypt s' = crypt s \<and>
     (\<forall>adm. x = Inr adm \<longrightarrow> (\<exists>a. List.find (\<lambda>a. ar_username a = name) (admins (tables s)) = Some a \<and> adm = admin_of_row (crypt s) a))"
  by (auto simp: GetAdmin_def query_def next_fault_def find_row_def split: list.splits if_splits option.splits)

lemma GetAdmin_nofault:
  "no_faults s \<Longrightarrow> GetAdmin name s =
     ((case List.find (\<lambda>a. ar_username a = name) (admins (tables s)) of None \<Rightarrow> Inl NoRows | Some a \<Rightarrow> Inr (admin_of_row (crypt s) a)), s)"
  by (simp add: GetAdmin_def query_nofault find_row_def split: option.split)

lemma find_name: "List.find (\<lambda>a. ar_username a = name) as = Some a \<Longrightarrow> a \<in> set as \<and> ar_username a = name"
  by (auto simp: find_Some_iff)

text \<open>The credentials of a sign-in, against the account's row.\<close>

definition credentials_ok :: "world \<Rightarrow> crypter \<Rightarrow> login_body \<Rightarrow> admin_row \<Rightarrow> bool" where
  "credentials_ok w c b a \<longleftrightarrow> ar_username a = lb_Username b \<and> w_compare w (ar_password_hash a) (lb_Password b) \<and>
     (ar_totp_enabled a \<longrightarrow> lb_Code b \<noteq> [] \<and> totpVerify w (decrypt c (ar_totp_secret a)) (lb_Code b))"

text \<open>The handler past the throttle.\<close>

definition refuse_login :: "world \<Rightarrow> request \<Rightarrow> login_body \<Rightarrow> response \<Rightarrow> handler" where
  "refuse_login w r b x = seq (fail_both w (''ip:'' @ clientIP r) (''user:'' @ lb_Username b)) (reply x)"

definition accept_login :: "world \<Rightarrow> request \<Rightarrow> login_body \<Rightarrow> admin \<Rightarrow> handler" where
  "accept_login w r b adm = seq (reset_both (''ip:'' @ clientIP r) (''user:'' @ lb_Username b))
     (seq (db_do (AddAudit (w_now w) (adm_Username adm) ''login'' (clientIP r)))
        (peek (\<lambda>p. reply (with_cookie (session_cookie sessionCookie (admin_token w p adm) 86400 p)
           (writeJSON 200 (jobj [(''username'', JStr (adm_Username adm))]))))))"

definition check_login :: "world \<Rightarrow> request \<Rightarrow> login_body \<Rightarrow> admin \<Rightarrow> handler" where
  "check_login w r b adm =
     (if \<not> w_compare w (adm_PasswordHash adm) (lb_Password b) then refuse_login w r b invalid_credentials
      else if adm_TOTPEnabled adm \<and> lb_Code b = [] then reply (totp_response ''2fa required'')
      else if adm_TOTPEnabled adm \<and> \<not> totpVerify w (adm_TOTPSecret adm) (lb_Code b)
        then refuse_login w r b (totp_response ''invalid 2fa code'')
      else accept_login w r b adm)"

lemma handleLogin_split:
  "handleLogin w r (Some b) = throttled w (''ip:'' @ clientIP r) (''user:'' @ lb_Username b)
     (db_case (GetAdmin (lb_Username b)) (\<lambda>e. refuse_login w r b invalid_credentials) (check_login w r b))"
  unfolding handleLogin_def Let_def check_login_def [abs_def] refuse_login_def accept_login_def option.case by (rule refl)

lemma codes [simp]:
  "rs_code invalid_credentials = 401" "rs_code (totp_response m) = 401" "rs_code too_many = 429" "rs_code unauthorized = 401"
  by (simp_all add: invalid_credentials_def totp_response_def too_many_def writeErr_def writeJSON_def unauthorized_def httpError_def)

lemma refuse_code [simp]: "rs_code (fst (refuse_login w r b x p)) = rs_code x"
  by (simp add: refuse_login_def seq_def reply_def)

lemma accept_response: "fst (accept_login w r b (admin_of_row c a) p) = login_response w p a"
  by (simp add: accept_login_def seq_def reset_both_def lim_reset_def on_lim_def db_do_def peek_def reply_def
      login_response_def admin_token_def session_secret_def session_cookie_def cookieSecure_def publicURL_def admin_of_row_def)

lemma check_response:
  assumes "ar_username a = lb_Username b"
  shows "rs_code (fst (check_login w r b (admin_of_row c a) p)) = 200 \<longleftrightarrow> credentials_ok w c b a"
    and "credentials_ok w c b a \<Longrightarrow> fst (check_login w r b (admin_of_row c a) p) = login_response w p a"
proof -
  have "rs_code (login_response w p a) = 200" by (simp add: login_response_def with_cookie_def writeJSON_def)
  then show "rs_code (fst (check_login w r b (admin_of_row c a) p)) = 200 \<longleftrightarrow> credentials_ok w c b a"
    using assms accept_response [of w r b c a p]
    by (auto simp: check_login_def credentials_ok_def admin_of_row_def reply_def)
  show "credentials_ok w c b a \<Longrightarrow> fst (check_login w r b (admin_of_row c a) p) = login_response w p a"
    using accept_response [of w r b c a p] by (auto simp: check_login_def credentials_ok_def admin_of_row_def)
qed

text \<open>The throttle in front either answers 429 or runs the rest on the panel with its counters swept.\<close>

lemma throttled_cases:
  obtains "fst (throttled w k1 k2 nxt p) = too_many"
  | l where "throttled w k1 k2 nxt p = nxt (p\<lparr>pn_lim := l\<rparr>)"
proof -
  obtain b1 l1 where 1: "blocked (w_nanos w) k1 (pn_lim p) = (b1, l1)" by fastforce
  obtain b2 l2 where 2: "blocked (w_nanos w) k2 l1 = (b2, l2)" by fastforce
  show thesis
    using that(1) that(2) [of l2] 1 2
    by (cases b1; cases b2) (simp_all add: throttled_def ask_def lim_blocked_def reply_def)
qed

lemma login_response_lim [simp]: "login_response w (p\<lparr>pn_lim := l\<rparr>) a = login_response w p a"
  "login_response w (p\<lparr>pn_app := q\<rparr>) a = login_response w p a"
  by (simp_all add: login_response_def session_secret_def session_cookie_def cookieSecure_def publicURL_def)

lemma login_accepted:
  assumes "rs_code (fst (handleLogin w r (Some b) p)) = 200"
  obtains a where "a \<in> set (admins (tables (db_of p)))" "credentials_ok w (crypt (db_of p)) b a"
    "fst (handleLogin w r (Some b) p) = login_response w p a"
proof (rule throttled_cases [of w "''ip:'' @ clientIP r" "''user:'' @ lb_Username b"
      "db_case (GetAdmin (lb_Username b)) (\<lambda>e. refuse_login w r b invalid_credentials) (check_login w r b)" p])
  assume "fst (throttled w (''ip:'' @ clientIP r) (''user:'' @ lb_Username b)
      (db_case (GetAdmin (lb_Username b)) (\<lambda>e. refuse_login w r b invalid_credentials) (check_login w r b)) p) = too_many"
  with assms show thesis by (simp add: handleLogin_split)
next
  fix l
  assume l: "throttled w (''ip:'' @ clientIP r) (''user:'' @ lb_Username b)
      (db_case (GetAdmin (lb_Username b)) (\<lambda>e. refuse_login w r b invalid_credentials) (check_login w r b)) p =
    db_case (GetAdmin (lb_Username b)) (\<lambda>e. refuse_login w r b invalid_credentials) (check_login w r b) (p\<lparr>pn_lim := l\<rparr>)"
  obtain x s where g: "GetAdmin (lb_Username b) (db_of p) = (x, s)" by fastforce
  with assms l obtain adm where adm: "x = Inr adm"
    by (cases x) (simp_all add: handleLogin_split db_case_def on_store_def)
  with GetAdmin_find [OF g] obtain a where a:
    "List.find (\<lambda>a. ar_username a = lb_Username b) (admins (tables (db_of p))) = Some a" "adm = admin_of_row (crypt (db_of p)) a"
    by auto
  note name = find_name [OF a(1)]
  have run: "fst (handleLogin w r (Some b) p) =
      fst (check_login w r b (admin_of_row (crypt (db_of p)) a) (p\<lparr>pn_lim := l, pn_app := (pn_app p)\<lparr>a_store := s\<rparr>\<rparr>))"
    using l g adm a by (simp add: handleLogin_split db_case_def on_store_def)
  with assms check_response(1) [OF conjunct2 [OF name]] have ok: "credentials_ok w (crypt (db_of p)) b a" by simp
  with run check_response(2) [OF conjunct2 [OF name]] name show thesis by (intro that) simp_all
qed

lemma login_served:
  assumes "no_faults (db_of p)" "List.find (\<lambda>a. ar_username a = lb_Username b) (admins (tables (db_of p))) = Some a"
    and "credentials_ok w (crypt (db_of p)) b a"
    and "\<not> fst (blocked (w_nanos w) (''ip:'' @ clientIP r) (pn_lim p))"
    and "\<not> fst (blocked (w_nanos w) (''user:'' @ lb_Username b) (snd (blocked (w_nanos w) (''ip:'' @ clientIP r) (pn_lim p))))"
  shows "fst (handleLogin w r (Some b) p) = login_response w p a"
proof -
  note name = find_name [OF assms(2)]
  show ?thesis
    using assms check_response(2) [OF conjunct2 [OF name] assms(3)]
    by (simp add: handleLogin_split throttled_def ask_def lim_blocked_def db_case_def on_store_def GetAdmin_nofault split_beta)
qed

subsection \<open>Signing in\<close>

text \<open>
  C25. A sign-in proves the credentials. If a sign-in is answered 200, then an administrator of the submitted name
  exists whose stored hash the submitted password matches and, if the account has a second factor,
  whose secret the submitted code matches; the one cookie set is a session of that account, signed
  for a day with the account's present epoch.
\<close>
theorem login_sound:
  assumes "rs_code (fst (serve w v r (Open_to_all (PostLogin (Some b))) p)) = 200"
  shows "\<exists>a \<in> set (admins (tables (db_of p))). ar_username a = lb_Username b \<and>
      w_compare w (ar_password_hash a) (lb_Password b) \<and>
      (if ar_totp_enabled a then totpVerify w (decrypt (crypt (db_of p)) (ar_totp_secret a)) (lb_Code b) else True) \<and>
      rs_cookies (fst (serve w v r (Open_to_all (PostLogin (Some b))) p)) =
        [session_cookie sessionCookie (signSession w (session_secret p) roleAdmin (ar_username a) (ar_session_epoch a) ttl_day) 86400 p]"
proof -
  have "rs_code (fst (handleLogin w r (Some b) p)) = 200"
    using assms by (simp add: serve_def securityHeaders_def route_def open_handler_def split_beta)
  then obtain a where "a \<in> set (admins (tables (db_of p)))" "credentials_ok w (crypt (db_of p)) b a"
    "fst (handleLogin w r (Some b) p) = login_response w p a" by (rule login_accepted)
  then show ?thesis
    by (intro bexI [of _ a])
       (auto simp: credentials_ok_def serve_def securityHeaders_def route_def open_handler_def split_beta login_response_def
          with_cookie_def writeJSON_def)
qed

definition root_login :: login_body where
  "root_login = \<lparr>lb_Username = ''root'', lb_Password = ''pw'', lb_Code = []\<rparr>"

lemma root_signs_in:
  "fst (handleLogin plain_world root_request (Some root_login) (panel_on root_store)) =
     login_response plain_world (panel_on root_store) root_row"
  by (rule login_served)
     (simp_all add: panel_on_def boot_app_def root_store_def no_faults_def root_login_def root_row_def credentials_ok_def
        plain_world_def blocked_def newLimiter_def)

theorem login_sound_witness:
  "\<exists>a \<in> set (admins (tables (db_of (panel_on root_store)))). ar_username a = ''root'' \<and> w_compare plain_world (ar_password_hash a) ''pw''"
proof -
  have "rs_code (fst (serve plain_world ''v1'' root_request (Open_to_all (PostLogin (Some root_login))) (panel_on root_store))) = 200"
    using root_signs_in
    by (simp add: serve_def securityHeaders_def route_def open_handler_def split_beta login_response_def with_cookie_def writeJSON_def)
  from login_sound [OF this] show ?thesis by (auto simp: root_login_def)
qed

lemma username_bar: "validateUsername name = None \<Longrightarrow> bar \<notin> set name"
  by (auto simp: validateUsername_def reUsername_def list_all_iff is_alnum_def char_in_def split: if_splits)

text \<open>
  C26. A sign-in opens a session. With the right password (and code, where one is required), an account that exists,
  no throttling and no failing statement, the sign-in answers with a cookie, and for a day every
  guarded handler runs for a request carrying that cookie, in this process or a later one with the
  same secret, as long as the account keeps its epoch.
\<close>
theorem login_opens_session:
  assumes "no_faults (db_of p)" "List.find (\<lambda>a. ar_username a = lb_Username b) (admins (tables (db_of p))) = Some a"
    and "credentials_ok w (crypt (db_of p)) b a"
    and "\<not> fst (blocked (w_nanos w) (''ip:'' @ clientIP r) (pn_lim p))"
    and "\<not> fst (blocked (w_nanos w) (''user:'' @ lb_Username b) (snd (blocked (w_nanos w) (''ip:'' @ clientIP r) (pn_lim p))))"
    and "validateUsername (ar_username a) = None" and "0 \<le> ar_session_epoch a" "ar_session_epoch a < 2 ^ 63"
    and "0 \<le> w_now w" "w_now w < 2 ^ 62"
    and "map ck_Value (rs_cookies (fst (handleLogin w r (Some b) p))) = [tok]" "Cookie r' sessionCookie = Some tok"
    and "w_hmac w' = w_hmac w" "w_now w' < w_now w + 86400" "session_secret q = session_secret p" "no_faults (db_of q)"
    and "List.find (\<lambda>x. ar_username x = ar_username a) (admins (tables (db_of q))) = Some a'" "ar_session_epoch a' = ar_session_epoch a"
  shows "requireAuth w' r' nxt q = nxt q"
proof -
  have "tok = signSession w (session_secret p) roleAdmin (ar_username a) (ar_session_epoch a) 86400"
    using login_served [OF assms(1-5)] assms(11)
    by (simp add: login_response_def with_cookie_def writeJSON_def session_cookie_def ttl_day_def)
  then have "verifySession w' (session_secret q) tok = Some (roleAdmin, ar_username a, ar_session_epoch a)"
    using verify_signed [OF assms(13), of roleAdmin "ar_username a" "ar_session_epoch a" 86400 "session_secret p"]
      username_bar [OF assms(6)] assms(7-10,14,15) by simp
  with assms(12,16-18) show ?thesis
    by (simp add: requireAuth_def peek_def db_case_def on_store_def GetAdmin_nofault admin_of_row_def)
qed

theorem login_opens_session_witness:
  "requireAuth (plain_world\<lparr>w_nanos := 2000 * 10 ^ 9\<rparr>)
     (root_request\<lparr>rq_cookies := [(sessionCookie, signSession plain_world ''0123456789abcdef'' roleAdmin ''root'' 0 86400)]\<rparr>)
     (reply (writeJSON 200 JNull)) (panel_on root_store) = (writeJSON 200 JNull, panel_on root_store)"
proof -
  have n: "w_now plain_world = 1000" by (simp add: w_now_def plain_world_def)
  have s: "session_secret (panel_on root_store) = ''0123456789abcdef''"
    by (simp add: session_secret_def panel_on_def sample_config_def)
  have f: "List.find (\<lambda>a. ar_username a = ''root'') (admins (tables (db_of (panel_on root_store)))) = Some root_row"
    by (simp add: panel_on_def boot_app_def root_store_def root_row_def)
  have c: "map ck_Value (rs_cookies (fst (handleLogin plain_world root_request (Some root_login) (panel_on root_store)))) =
      [signSession plain_world ''0123456789abcdef'' roleAdmin ''root'' 0 86400]"
    unfolding root_signs_in
    by (simp add: login_response_def with_cookie_def writeJSON_def session_cookie_def ttl_day_def s root_row_def)
  have "requireAuth (plain_world\<lparr>w_nanos := 2000 * 10 ^ 9\<rparr>)
     (root_request\<lparr>rq_cookies := [(sessionCookie, signSession plain_world ''0123456789abcdef'' roleAdmin ''root'' 0 86400)]\<rparr>)
     (reply (writeJSON 200 JNull)) (panel_on root_store) = reply (writeJSON 200 JNull) (panel_on root_store)"
    by (rule login_opens_session [OF _ _ _ _ _ _ _ _ _ _ c, where a = root_row and a' = root_row])
       (use f n in \<open>simp_all add: panel_on_def boot_app_def root_store_def no_faults_def root_login_def root_row_def
          credentials_ok_def plain_world_def blocked_def newLimiter_def Cookie_def w_now_def validateUsername_def reUsername_def
          is_alnum_def char_in_def\<close>)
  then show ?thesis by (simp add: reply_def)
qed

end
