(* ===== verification/Recovery.thy ===== *)
theory Recovery
  imports Signin
begin

section \<open>First start, restart and account recovery (internal/panel/app.go: Run, reset.go)\<close>

text \<open>
  What the start and the \<open>ResetAdmin\<close> command do to the administrators' accounts. The part of a row
  that signs in is \<open>account\<close>; the encryption pass keeps it.
\<close>

definition account :: "admin_row \<Rightarrow> string \<times> string \<times> bool \<times> int" where
  "account a = (ar_username a, ar_password_hash a, ar_totp_enabled a, ar_session_epoch a)"

definition account_of :: "string \<Rightarrow> db \<Rightarrow> (string \<times> string \<times> bool \<times> int) option" where
  "account_of name d = map_option account (List.find (\<lambda>a. ar_username a = name) (admins d))"

lemma account_of_map: "account_of name d = List.find (\<lambda>x. fst x = name) (map account (admins d))"
proof -
  have "map_option account (List.find (\<lambda>a. ar_username a = name) as) = List.find (\<lambda>x. fst x = name) (map account as)" for as
    by (induction as) (simp_all add: account_def)
  then show ?thesis by (simp add: account_of_def)
qed

lemma account_of_cong: "map account (admins d) = map account (admins d') \<Longrightarrow> account_of name d = account_of name d'"
  by (simp add: account_of_map)

lemma totp_pass_accounts: "map account (admins (totp_pass c ns d)) = map account (admins d)"
proof -
  have "map account (enc_rows ar_totp_secret (\<lambda>v r. r\<lparr>ar_totp_secret := v\<rparr>) c ns i as) = map account as" for i as
    by (induction as arbitrary: i) (simp_all add: account_def)
  then show ?thesis by (simp add: totp_pass_def)
qed

subsection \<open>An ordinary start\<close>

lemma accounts_kept:
  assumes "evolves A s t" "\<And>x. A x \<Longrightarrow> \<exists>n1 n2 n3. x = OEncryptExisting n1 n2 n3"
  shows "map account (admins (tables t)) = map account (admins (tables s))"
  using assms(1) refl
proof (rule evolves_keeps_writes [where P = "\<lambda>d. map account (admins d) = map account (admins (tables s))"])
  fix c x st assume "A x" "st \<in> writes c x"
  with assms(2) [of x] show "keeps_stmt (\<lambda>d. map account (admins d) = map account (admins (tables s))) st"
    by (auto simp: keeps_stmt_def upd_private_key_def upd_totp_secret_def upd_telegram_token_def map_upd_where account_def)
qed

lemma set_if_found_evolves: "evolves A (db_of p) (db_of (set_if_found k f p))"
proof -
  obtain x a where q: "on_store (GetSetting k) (pn_app p) = (x, a)" by fastforce
  have "evolves A (db_of p) (a_store a)" by (rule on_store_evolves [OF _ q]) (intro evolving)
  then show ?thesis using q by (auto simp: set_if_found_def Let_def split: sum.split bool.split)
qed

lemma loadSettings_evolves: "evolves A (db_of p) (db_of (loadSettings c u k p))"
  unfolding loadSettings_def Let_def
  by (rule evolves_trans [OF set_if_found_evolves])+ (simp add: ev_refl)

lemma GetSecretSetting_evolves: "sql_evolves A (GetSecretSetting k)"
proof (rule sql_evolvesI)
  fix s
  obtain x t where q: "GetSetting k s = (x, t)" by fastforce
  have "sql_evolves A (GetSetting k)" by (intro evolving)
  with q have "evolves A s t" unfolding sql_evolves_def by (metis snd_conv)
  with q show "evolves A s (snd (GetSecretSetting k s))" by (auto simp: GetSecretSetting_def split: sum.split)
qed

lemma loadTelegram_evolves: "evolves A (db_of p) (db_of (loadTelegram p))"
proof -
  obtain x a where 1: "on_store (GetSecretSetting ''telegram_token'') (pn_app p) = (x, a)" by fastforce
  obtain y a' where 2: "on_store (GetSetting ''telegram_admin_ids'') a = (y, a')" by fastforce
  have "evolves A (db_of p) (a_store a)" by (rule on_store_evolves [OF GetSecretSetting_evolves 1])
  moreover have "evolves A (a_store a) (a_store a')" by (rule on_store_evolves [OF _ 2]) (intro evolving)
  ultimately have "evolves A (db_of p) (a_store a')" by (blast intro: evolves_trans)
  then show ?thesis using 1 2 by (simp add: loadTelegram_def restartBot_def setTelegram_def on_app_def Let_def split_beta)
qed

lemma start_panel_evolves: "evolves A s (db_of (start_panel e cfg s))"
  using evolves_trans [OF loadTelegram_evolves loadSettings_evolves] unfolding start_panel_def fresh_panel_def boot_app_def
  by (metis app.select_convs(1) panel.select_convs(2))

lemma EnsureAdmin_present:
  assumes "account_of name (tables s) \<noteq> None"
  shows "tables (snd (EnsureAdmin name h s)) = tables s"
proof -
  obtain r s' where q: "query (\<lambda>d. map_sum id ar_id (find_row (\<lambda>a. ar_username a = name) (admins d))) s = (r, s')" by fastforce
  moreover from q have "tables s' = tables s" by (simp add: query_tables)
  moreover from q assms have "r \<noteq> Inl NoRows"
    by (auto simp: query_def next_fault_def account_of_def find_row_def split: list.splits if_splits option.splits)
  ultimately show ?thesis by (auto simp: EnsureAdmin_def split: sum.split sql_err.split)
qed

text \<open>
  C30. A restart keeps the passwords. Starting the panel on a database that has the configured account leaves every
  administrator's password, second-factor switch and session epoch as they are, whatever
  \<^verbatim>\<open>PANEL_ADMIN_PASS\<close> says, and whatever statements fail on the way.
\<close>
theorem restart_keeps_passwords:
  assumes "account_of (AdminUser cfg) (tables s) \<noteq> None"
  shows "map account (admins (tables (snd (Run w derive ns e cfg s)))) = map account (admins (tables s))"
proof (cases "validateSecrets (w_unicode w) cfg")
  case None
  let ?s = "s\<lparr>crypt := newCrypter derive (JWTSecret cfg)\<rparr>"
  obtain x t where enc: "encryptExisting (nc_nodes ns) (nc_admins ns) (nc_token ns) ?s = (x, t)" by fastforce
  have "evolves (\<lambda>x. \<exists>n1 n2 n3. x = OEncryptExisting n1 n2 n3) ?s t"
    using ev_op [OF ev_refl, of "\<lambda>x. \<exists>n1 n2 n3. x = OEncryptExisting n1 n2 n3" "OEncryptExisting (nc_nodes ns) (nc_admins ns) (nc_token ns)" ?s]
      enc by auto
  from accounts_kept [OF this] have t: "map account (admins (tables t)) = map account (admins (tables s))" by simp
  then have "account_of (AdminUser cfg) (tables t) \<noteq> None" using account_of_cong [OF t] assms by simp
  from EnsureAdmin_present [OF this] have u: "tables (snd (EnsureAdmin (AdminUser cfg) h t)) = tables t" for h .
  have "tables (db_of (start_panel e cfg u)) = tables u" for u
    using evolves_none [OF start_panel_evolves, of "\<lambda>_. False"] by blast
  with u t show ?thesis
    by (auto simp: Run_def None enc Let_def split: sum.split prod.split) (metis snd_conv)+
qed (simp add: Run_def)

subsection \<open>Starting without engine failures\<close>

lemma set_if_found_nofault: "no_faults (db_of p) \<Longrightarrow> db_of (set_if_found k f p) = db_of p"
  by (simp add: set_if_found_def on_store_def GetSetting_def query_nofault split: option.split)

lemma set_if_found_frame [simp]: "pn_lim (set_if_found k f p) = pn_lim p" "pn_cfg (set_if_found k f p) = pn_cfg p"
  by (auto simp: set_if_found_def Let_def split_beta split: sum.split bool.split)

lemma loadSettings_nofault: "no_faults (db_of p) \<Longrightarrow> db_of (loadSettings c u k p) = db_of p"
  by (simp add: loadSettings_def Let_def set_if_found_nofault)

lemma loadTelegram_nofault: "no_faults (db_of p) \<Longrightarrow> db_of (loadTelegram p) = db_of p"
  by (simp add: loadTelegram_def on_store_def GetSecretSetting_def GetSetting_def query_nofault Let_def restartBot_def
      setTelegram_def on_app_def split: option.split)

lemma start_panel_nofault: "no_faults s \<Longrightarrow> db_of (start_panel e cfg s) = s"
  by (simp add: start_panel_def loadTelegram_nofault loadSettings_nofault fresh_panel_def boot_app_def)

lemma start_panel_frame: "pn_lim (start_panel e cfg s) = newLimiter 8 (300 * 10 ^ 9)" "session_secret (start_panel e cfg s) = JWTSecret cfg"
  by (simp_all add: start_panel_def loadTelegram_def loadSettings_def fresh_panel_def restartBot_def setTelegram_def on_app_def
      Let_def session_secret_def split_beta)

lemma secret_set: "validateSecrets uc cfg = None \<Longrightarrow> JWTSecret cfg \<noteq> []"
  by (auto simp: validateSecrets_def split: option.splits if_splits)

lemma find_append: "List.find P (xs @ ys) = (case List.find P xs of None \<Rightarrow> List.find P ys | Some x \<Rightarrow> Some x)"
  by (induction xs) auto

lemma EnsureAdmin_nofault:
  "no_faults s \<Longrightarrow> \<exists>d. EnsureAdmin name h s = (Inr (), s\<lparr>tables := d\<rparr>) \<and>
     account_of name d = Some (case account_of name (tables s) of None \<Rightarrow> (name, h, False, 0) | Some x \<Rightarrow> x) \<and>
     nodes d = nodes (tables s) \<and> users d = users (tables s) \<and> user_nodes d = user_nodes (tables s) \<and>
     (\<forall>nm a. List.find (\<lambda>a. ar_username a = nm) (admins (tables s)) = Some a \<longrightarrow>
        List.find (\<lambda>a. ar_username a = nm) (admins d) = Some a)"
proof (cases "List.find (\<lambda>a. ar_username a = name) (admins (tables s))")
  case None
  then have "name \<notin> ar_username ` set (admins (tables s))" by (auto simp: find_None_iff)
  moreover assume "no_faults s"
  ultimately show ?thesis
    using None
    by (intro exI [of _ "tables s\<lparr>admins := admins (tables s) @ [\<lparr>ar_id = seq_admins (tables s) + 1, ar_username = name,
        ar_password_hash = h, ar_totp_secret = [], ar_totp_enabled = False, ar_session_epoch = 0\<rparr>],
        seq_admins := seq_admins (tables s) + 1\<rparr>"])
      (simp add: EnsureAdmin_def query_nofault exec_nofault find_row_def insert_admin_def account_of_def account_def find_append)
next
  case (Some a)
  moreover assume "no_faults s"
  ultimately show ?thesis
    by (intro exI [of _ "tables s"]) (simp add: EnsureAdmin_def query_nofault find_row_def account_of_def)
qed

definition node_ident :: "node_row \<Rightarrow> int \<times> string" where
  "node_ident r = (nr_id r, nr_reality_server_name r)"

lemma encrypted_rows:
  "map node_ident (nodes (encrypted c n1 n2 n3 d)) = map node_ident (nodes d)"
  "users (encrypted c n1 n2 n3 d) = users d" "user_nodes (encrypted c n1 n2 n3 d) = user_nodes d"
proof -
  have "map node_ident (enc_rows nr_reality_private_key (\<lambda>v r. r\<lparr>nr_reality_private_key := v\<rparr>) c ns i rs) = map node_ident rs" for ns i rs
    by (induction rs arbitrary: i) (simp_all add: node_ident_def)
  then show "map node_ident (nodes (encrypted c n1 n2 n3 d)) = map node_ident (nodes d)"
    by (simp add: encrypted_def node_key_pass_def)
qed (simp_all add: encrypted_def token_pass_def totp_pass_def node_key_pass_def)

lemma find_enc_rows:
  "List.find (\<lambda>a. ar_username a = name) as = Some a \<Longrightarrow> \<not> needs_encryption (ar_totp_secret a) \<Longrightarrow>
   List.find (\<lambda>a. ar_username a = name) (enc_rows ar_totp_secret (\<lambda>v r. r\<lparr>ar_totp_secret := v\<rparr>) c ns i as) = Some a"
  by (induction as arbitrary: i) (auto split: if_splits)

lemma Run_started:
  assumes "no_faults s" "db_ok (tables s)" "validateSecrets (w_unicode w) cfg = None" "w_bcrypt w (AdminPass cfg) = Inr hash"
  obtains p where "Run w derive ns e cfg s = (Inr p, db_of p)" "no_faults (db_of p)" "pn_lim p = newLimiter 8 (300 * 10 ^ 9)"
    "account_of (AdminUser cfg) (tables (db_of p)) =
       Some (case account_of (AdminUser cfg) (tables s) of None \<Rightarrow> (AdminUser cfg, hash, False, 0) | Some x \<Rightarrow> x)"
    "map node_ident (nodes (tables (db_of p))) = map node_ident (nodes (tables s))"
    "users (tables (db_of p)) = users (tables s)" "user_nodes (tables (db_of p)) = user_nodes (tables s)"
    "crypt (db_of p) = newCrypter derive (JWTSecret cfg)"
    "\<forall>nm a. List.find (\<lambda>a. ar_username a = nm) (admins (tables s)) = Some a \<longrightarrow> \<not> needs_encryption (ar_totp_secret a) \<longrightarrow>
       List.find (\<lambda>a. ar_username a = nm) (admins (tables (db_of p))) = Some a"
proof -
  let ?s = "s\<lparr>crypt := newCrypter derive (JWTSecret cfg)\<rparr>"
  let ?t = "?s\<lparr>tables := encrypted (crypt ?s) (nc_nodes ns) (nc_admins ns) (nc_token ns) (tables s)\<rparr>"
  have c: "crypt ?s \<noteq> None" using secret_set [OF assms(3)] by (simp add: newCrypter_def)
  have nf: "no_faults ?s" using assms(1) by (simp add: no_faults_def)
  have enc: "encryptExisting (nc_nodes ns) (nc_admins ns) (nc_token ns) ?s = (Inr (), ?t)"
    using encryptExisting_nofault [OF nf _ c, of "nc_nodes ns" "nc_admins ns" "nc_token ns"] assms(2)
    by (simp add: encrypted_def)
  have acc: "account_of name (tables ?t) = account_of name (tables s)" for name
    by (rule account_of_cong) (simp add: encrypted_def totp_pass_accounts)
  obtain d where d: "EnsureAdmin (AdminUser cfg) hash ?t = (Inr (), ?t\<lparr>tables := d\<rparr>)"
    "account_of (AdminUser cfg) d = Some (case account_of (AdminUser cfg) (tables s) of None \<Rightarrow> (AdminUser cfg, hash, False, 0) | Some x \<Rightarrow> x)"
    "nodes d = nodes (tables ?t)" "users d = users (tables ?t)" "user_nodes d = user_nodes (tables ?t)"
    "\<forall>nm a. List.find (\<lambda>a. ar_username a = nm) (admins (tables ?t)) = Some a \<longrightarrow>
       List.find (\<lambda>a. ar_username a = nm) (admins d) = Some a"
    using EnsureAdmin_nofault [of ?t "AdminUser cfg" hash] nf acc by auto
  have rows: "List.find (\<lambda>a. ar_username a = nm) (admins d) = Some a"
    if "List.find (\<lambda>a. ar_username a = nm) (admins (tables s)) = Some a" "\<not> needs_encryption (ar_totp_secret a)" for nm a
  proof -
    have "admins (tables ?t) = enc_rows ar_totp_secret (\<lambda>v r. r\<lparr>ar_totp_secret := v\<rparr>) (crypt ?s) (nc_admins ns) 0 (admins (tables s))"
      by (simp add: encrypted_def token_pass_def totp_pass_def node_key_pass_def)
    with find_enc_rows [OF that] d(6) show ?thesis by simp
  qed
  have db: "db_of (start_panel e cfg (?t\<lparr>tables := d\<rparr>)) = ?t\<lparr>tables := d\<rparr>"
    by (rule start_panel_nofault) (use nf in simp)
  show thesis
    by (rule that [of "start_panel e cfg (?t\<lparr>tables := d\<rparr>)"])
       (use assms(3,4) enc d(1-5) rows db nf start_panel_frame encrypted_rows in \<open>simp_all add: Run_def Let_def\<close>)
qed

lemma Run_nofault:
  assumes "no_faults s" "db_ok (tables s)" "validateSecrets (w_unicode w) cfg = None" "w_bcrypt w (AdminPass cfg) = Inr hash"
  obtains p where "Run w derive ns e cfg s = (Inr p, db_of p)" "no_faults (db_of p)" "pn_lim p = newLimiter 8 (300 * 10 ^ 9)"
    "account_of (AdminUser cfg) (tables (db_of p)) =
       Some (case account_of (AdminUser cfg) (tables s) of None \<Rightarrow> (AdminUser cfg, hash, False, 0) | Some x \<Rightarrow> x)"
    "map node_ident (nodes (tables (db_of p))) = map node_ident (nodes (tables s))"
    "users (tables (db_of p)) = users (tables s)" "user_nodes (tables (db_of p)) = user_nodes (tables s)"
  by (rule Run_started [OF assms, of derive ns e]) (rule that)

text \<open>An account without a second factor signs in with the password its hash is of.\<close>

lemma account_signs_in:
  assumes "no_faults (db_of p)" "pn_lim p = newLimiter m t" "account_of name (tables (db_of p)) = Some (name, hash, False, ep)"
    and "w_compare w hash pw"
  shows "rs_code (fst (serve w v r (Open_to_all (PostLogin (Some \<lparr>lb_Username = name, lb_Password = pw, lb_Code = code\<rparr>))) p)) = 200"
proof -
  let ?b = "\<lparr>lb_Username = name, lb_Password = pw, lb_Code = code\<rparr>"
  from assms(3) obtain a where a: "List.find (\<lambda>a. ar_username a = name) (admins (tables (db_of p))) = Some a"
    "ar_username a = name" "ar_password_hash a = hash" "\<not> ar_totp_enabled a" by (auto simp: account_of_def account_def)
  have "fst (handleLogin w r (Some ?b) p) = login_response w p a"
    by (rule login_served) (use assms a in \<open>simp_all add: credentials_ok_def blocked_def newLimiter_def\<close>)
  then show ?thesis
    by (simp add: serve_def securityHeaders_def route_def open_handler_def split_beta login_response_def with_cookie_def writeJSON_def)
qed

definition login_code :: "world \<Rightarrow> string \<Rightarrow> request \<Rightarrow> string \<Rightarrow> string \<Rightarrow> panel \<Rightarrow> int" where
  "login_code w v r name pw p =
     rs_code (fst (serve w v r (Open_to_all (PostLogin (Some \<lparr>lb_Username = name, lb_Password = pw, lb_Code = []\<rparr>))) p))"

text \<open>
  The first start. With an acceptable configuration and no engine failure, starting on a database that does not
  have the configured administrator succeeds, and the panel that comes up accepts the configured
  name and password. (\<^verbatim>\<open>bcrypt\<close> is assumed to accept the password it hashed.)
\<close>
theorem first_start_signs_in:
  assumes "validateSecrets (w_unicode w) cfg = None" "w_bcrypt w (AdminPass cfg) = Inr hash" "w_compare w hash (AdminPass cfg)"
    and "no_faults s" "db_ok (tables s)" "account_of (AdminUser cfg) (tables s) = None"
  shows "\<exists>p. Run w derive ns e cfg s = (Inr p, db_of p) \<and> login_code w v r (AdminUser cfg) (AdminPass cfg) p = 200"
proof -
  obtain p where p: "Run w derive ns e cfg s = (Inr p, db_of p)" "no_faults (db_of p)" "pn_lim p = newLimiter 8 (300 * 10 ^ 9)"
    "account_of (AdminUser cfg) (tables (db_of p)) = Some (AdminUser cfg, hash, False, 0)"
    using Run_nofault [OF assms(4,5,1,2), of derive ns e] assms(6) by auto
  from account_signs_in [OF p(2-4) assms(3)] p(1) show ?thesis unfolding login_code_def by blast
qed

subsection \<open>The reset-admin command\<close>

definition totp_off :: "string \<Rightarrow> crypter \<Rightarrow> string \<Rightarrow> db \<Rightarrow> db" where
  "totp_off nc c name d = d\<lparr>admins := upd_where (\<lambda>a. ar_username a = name)
     (\<lambda>a. a\<lparr>ar_totp_secret := encrypt c nc [], ar_totp_enabled := False\<rparr>) (admins d)\<rparr>"

lemma find_upd_where:
  "(\<And>a. ar_username (f a) = ar_username a) \<Longrightarrow> List.find (\<lambda>a. ar_username a = name) (upd_where (\<lambda>a. ar_username a = name) f as) =
     map_option f (List.find (\<lambda>a. ar_username a = name) as)"
  by (induction as) (auto simp: upd_where_def)

lemma reset_account_nofault:
  assumes "no_faults s"
  shows "\<exists>d. reset_account w cfg h s = (Inr (), s\<lparr>tables := d\<rparr>) \<and> (db_ok (tables s) \<longrightarrow> db_ok d) \<and>
    (\<exists>b. account_of (AdminUser cfg) d = Some (AdminUser cfg, h, b,
       (case account_of (AdminUser cfg) (tables s) of None \<Rightarrow> 0 | Some (_, _, _, ep) \<Rightarrow> ep + 1)))"
proof (cases "List.find (\<lambda>a. ar_username a = AdminUser cfg) (admins (tables s))")
  case None
  then have "AdminUser cfg \<notin> ar_username ` set (admins (tables s))" by (auto simp: find_None_iff)
  then have "CreateAdmin (AdminUser cfg) h s = (Inr (), s\<lparr>tables := tables s\<lparr>admins := admins (tables s) @
      [\<lparr>ar_id = seq_admins (tables s) + 1, ar_username = AdminUser cfg, ar_password_hash = h, ar_totp_secret = [],
        ar_totp_enabled = False, ar_session_epoch = 0\<rparr>], seq_admins := seq_admins (tables s) + 1\<rparr>\<rparr>)" (is "_ = (_, s\<lparr>tables := ?d\<rparr>)")
    using assms by (simp add: CreateAdmin_def exec_nofault insert_admin_def)
  moreover from this have "db_ok (tables s) \<longrightarrow> db_ok ?d" using store_step_ok [of s "OCreateAdmin (AdminUser cfg) h"] by simp
  ultimately show ?thesis
    using None assms by (intro exI [of _ ?d]) (simp add: reset_account_def GetAdmin_nofault account_of_def account_def find_append, rule exI [of _ False], simp)
next
  case (Some a)
  have "SetAdminPassword (AdminUser cfg) h s = (Inr (), s\<lparr>tables := tables s\<lparr>admins := upd_where (\<lambda>a. ar_username a = AdminUser cfg)
      (\<lambda>a. a\<lparr>ar_password_hash := h, ar_session_epoch := ar_session_epoch a + 1\<rparr>) (admins (tables s))\<rparr>\<rparr>)" (is "_ = (_, s\<lparr>tables := ?d\<rparr>)")
    using assms by (simp add: SetAdminPassword_def exec_nofault upd_admin_def)
  moreover from this have "db_ok (tables s) \<longrightarrow> db_ok ?d" using store_step_ok [of s "OSetAdminPassword (AdminUser cfg) h"] by simp
  ultimately show ?thesis
    using Some assms find_name [OF Some]
    by (intro exI [of _ ?d]) (simp add: reset_account_def GetAdmin_nofault account_of_def account_def find_upd_where)
qed


text \<open>Witnesses: the example configuration with a password that is hashed as it is.\<close>

lemma sample_boot:
  "validateSecrets (w_unicode plain_world) sample_config = None" "w_bcrypt plain_world (AdminPass sample_config) = Inr ''#pw''"
  "w_compare plain_world ''#pw'' (AdminPass sample_config)" "AdminUser sample_config = ''root''" "AdminPass sample_config = ''pw''"
  by (simp_all add: validateSecrets_def sample_config_def validateUsername_def reUsername_def is_alnum_def char_in_def plain_world_def)

definition empty_store :: store where
  "empty_store = \<lparr>tables = empty_db, faults = [], crypt = None\<rparr>"

lemma empty_store_ok: "no_faults empty_store" "db_ok (tables empty_store)" "account_of name (tables empty_store) = None"
  by (simp_all add: empty_store_def no_faults_def db_ok_empty account_of_def) (simp add: empty_db_def)

text \<open>An account whose password and second factor are lost.\<close>

definition locked_store :: store where
  "locked_store = \<lparr>tables = empty_db\<lparr>admins := [root_row\<lparr>ar_password_hash := ''#lost'', ar_totp_secret := ''X'',
     ar_totp_enabled := True\<rparr>], seq_admins := 1\<rparr>, faults = [], crypt = None\<rparr>"

lemma locked_store_ok: "no_faults locked_store" "db_ok (tables locked_store)"
  "account_of ''root'' (tables locked_store) = Some (''root'', ''#lost'', True, 0)"
  by (simp_all add: locked_store_def no_faults_def db_ok_defs account_of_def account_def root_row_def) (simp_all add: empty_db_def)

theorem restart_keeps_passwords_witness:
  "map account (admins (tables (snd (Run plain_world (\<lambda>_. toy_aead) \<lparr>nc_nodes = (\<lambda>_. ''ab''), nc_admins = (\<lambda>_. ''ab''), nc_token = ''ab''\<rparr>
     (\<lambda>_. []) (sample_config\<lparr>AdminPass := ''other''\<rparr>) root_store)))) = [(''root'', ''#pw'', False, 0)]"
  by (subst restart_keeps_passwords)
    (simp_all add: account_of_def sample_config_def root_store_def root_row_def account_def)

theorem first_start_signs_in_witness:
  "\<exists>p. Run plain_world (\<lambda>_. toy_aead) \<lparr>nc_nodes = (\<lambda>_. ''ab''), nc_admins = (\<lambda>_. ''ab''), nc_token = ''ab''\<rparr> (\<lambda>_. []) sample_config
     empty_store = (Inr p, db_of p) \<and> login_code plain_world ''v1'' root_request ''root'' ''pw'' p = 200"
  using first_start_signs_in [OF sample_boot(1-3) empty_store_ok] unfolding sample_boot .


end
