(* ===== verification/Throttle.thy ===== *)
theory Throttle
  imports Recovery
begin

section \<open>Guessing an administrator's password over HTTP\<close>

text \<open>
  The throttle's bound, carried from the counter to the served panel: which handlers touch the
  counters, with which keys, and how many wrong guesses a run of requests can contain.
\<close>

subsection \<open>Handlers that leave the throttle alone\<close>

definition same_lim :: "(panel \<Rightarrow> 'b \<times> panel) \<Rightarrow> bool" where
  "same_lim h \<longleftrightarrow> (\<forall>p. pn_lim (snd (h p)) = pn_lim p)"

definition same_lim_upd :: "(panel \<Rightarrow> panel) \<Rightarrow> bool" where
  "same_lim_upd f \<longleftrightarrow> (\<forall>p. pn_lim (f p) = pn_lim p)"

named_theorems unthrottled \<open>computations that leave the throttle alone\<close>

lemma calls_lim [unthrottled]:
  "same_lim (reply x)" "same_lim (give y)" "same_lim (fail500 w e)"
  "same_lim_upd (db_do m)" "same_lim_upd (sync_nodes w ids)" "same_lim_upd (on_app f)" "same_lim_upd (setTelegram tok ids)"
  "same_lim_upd restartBot" "same_lim_upd (put_live key v s)" "same_lim_upd id"
  by (simp_all add: same_lim_def same_lim_upd_def reply_def give_def fail500_def db_do_def sync_nodes_def on_app_def
      setTelegram_def restartBot_def put_live_def Let_def)

lemma db_case_lim [unthrottled]: "(\<And>e. same_lim (bad e)) \<Longrightarrow> (\<And>x. same_lim (good x)) \<Longrightarrow> same_lim (db_case m bad good)"
  by (auto simp: same_lim_def db_case_def split: prod.split sum.split)

lemma ask_lim [unthrottled]: "same_lim f \<Longrightarrow> (\<And>x. same_lim (g x)) \<Longrightarrow> same_lim (ask f g)"
  by (simp add: same_lim_def ask_def split_beta)

lemma compose_lim [unthrottled]:
  "same_lim_upd u \<Longrightarrow> same_lim h \<Longrightarrow> same_lim (seq u h)"
  "(\<And>q. same_lim (k q)) \<Longrightarrow> same_lim (peek k)" "same_lim_upd u \<Longrightarrow> same_lim_upd v \<Longrightarrow> same_lim_upd (u \<circ> v)"
  "(\<And>y. same_lim_upd (o' y)) \<Longrightarrow> same_lim_upd (opt_do x o')"
  by (auto simp: same_lim_def same_lim_upd_def ask_def seq_def peek_def opt_do_def split: prod.split option.split)

lemma branch_lim [unthrottled]:
  "(c \<Longrightarrow> same_lim h) \<Longrightarrow> (\<not> c \<Longrightarrow> same_lim k) \<Longrightarrow> same_lim (if c then h else k)"
  "same_lim_upd u \<Longrightarrow> same_lim_upd v \<Longrightarrow> same_lim_upd (if c then u else v)"
  "same_lim h \<Longrightarrow> (\<And>y. same_lim (g y)) \<Longrightarrow> same_lim (case x of None \<Rightarrow> h | Some y \<Rightarrow> g y)"
  "(\<And>e. same_lim (h1 e)) \<Longrightarrow> (\<And>y. same_lim (h2 y)) \<Longrightarrow> same_lim (case s of Inl e \<Rightarrow> h1 e | Inr y \<Rightarrow> h2 y)"
  "(\<And>a b. same_lim (h3 a b)) \<Longrightarrow> same_lim (case z of (a, b) \<Rightarrow> h3 a b)"
  "(\<And>a b d. same_lim (h4 a b d)) \<Longrightarrow> same_lim (case t of (a, b, d) \<Rightarrow> h4 a b d)"
  by (auto split: option.split sum.split prod.split)

lemma session_lim [unthrottled]: "same_lim (currentAdmin w r)" "same_lim (portalUser w r)"
  unfolding currentAdmin_def portalUser_def by (intro unthrottled)+

lemma audit_lim [unthrottled]: "same_lim_upd (audit w r act detail)"
  using session_lim(1) [of w r] by (simp add: same_lim_upd_def same_lim_def audit_def db_do_def split_beta)

lemma wrap_lim [unthrottled]:
  "same_lim h \<Longrightarrow> same_lim (requireAuth w r h)" "(\<And>adm. same_lim (g adm)) \<Longrightarrow> same_lim (as_admin w r g)"
  "(\<And>i. same_lim (k i)) \<Longrightarrow> same_lim (with_id r k)" "(\<And>i u. same_lim (l i u)) \<Longrightarrow> same_lim (with_user r l)"
  "(\<And>x. same_lim (m x)) \<Longrightarrow> same_lim (db_default sql d m)" "same_lim (clear_cookie name)"
  unfolding requireAuth_def as_admin_def with_id_def with_user_def db_default_def clear_cookie_def
  by (intro unthrottled; simp)+

lemma userNodesList_lim [unthrottled]: "same_lim (userNodesList w u)"
proof -
  have "same_lim (load_nodes now ids)" for now ids
  proof (induction ids)
    case Nil
    then show ?case by (simp add: same_lim_def)
  next
    case (Cons i ids)
    have "same_lim (db_case (GetNode now i) (\<lambda>e. load_nodes now ids) (\<lambda>n. ask (load_nodes now ids) (\<lambda>ns. give (n # ns))))"
      by (intro unthrottled Cons)
    then show ?case by (simp add: same_lim_def)
  qed
  then show ?thesis by (simp add: userNodesList_def)
qed

lemma account_lim: "same_lim (account_handler w v r e)"
  unfolding account_handler_def handleLogoutAll_def handleMe_def handle2FAStatus_def handle2FASetup_def handle2FAVerify_def
    handle2FADisable_def handle2FAQR_def handleListAdmins_def handleCreateAdmin_def handleDeleteAdmin_def
    handleChangeAdminPassword_def handleListAudit_def Let_def
  by (cases e; simp only: account_endpoint.case; intro unthrottled)

lemma node_lim: "same_lim (node_handler w r e)"
  unfolding node_handler_def handleStats_def handleListNodes_def handleCreateNode_def handleUpdateNode_def handleDeleteNode_def
    handleNodeInstall_def handleNodeTrafficHistory_def handleRealityKeys_def Let_def
  by (cases e; simp only: node_endpoint.case; intro unthrottled)

lemma settings_lim: "same_lim (settings_handler w r e)"
  unfolding settings_handler_def handleNotifyStatus_def handleNotifySettings_def handleNotifyTest_def handleGetSettings_def
    handlePutSettings_def handleBackup_def Let_def
  by (cases e; simp only: settings_endpoint.case; intro unthrottled)

lemma user_lim: "same_lim (user_handler w r e)"
  unfolding user_handler_def handleListUsers_def handleCreateUser_def handleUpdateUser_def handleDeleteUser_def
    handleSetUserNodes_def handleResetUserTraffic_def handleUserSubInfo_def handleUserTrafficHistory_def
    handleUserTrafficNodes_def handleUserDevices_def handleRotateSub_def handleRotateUUID_def handleSetPortalPassword_def Let_def
  by (cases e; simp only: user_endpoint.case; intro unthrottled)

lemma sub_lim: "same_lim (handleSub w r)" "same_lim (handleSubClash w r)" "same_lim (handleSubSingbox w r)"
proof -
  have load: "same_lim (singboxOutbounds w u)" "same_lim (clashProxies w u)" for u
    unfolding singboxOutbounds_def clashProxies_def Let_def by (intro unthrottled)+
  show "same_lim (handleSub w r)" "same_lim (handleSubClash w r)" "same_lim (handleSubSingbox w r)"
    unfolding handleSub_def handleSubClash_def handleSubSingbox_def Let_def by (intro unthrottled load)+
qed

lemma portal_lim: "same_lim (handlePortalMe w r)" "same_lim (handlePortalChangePassword w r b)" "same_lim (handlePortalQR w r)"
  "same_lim handlePortalLogout" "same_lim handleLogout" "same_lim healthz"
  unfolding handlePortalMe_def handlePortalChangePassword_def handlePortalQR_def handlePortalLogout_def handleLogout_def healthz_def Let_def
  by (intro unthrottled)+

subsection \<open>The two sign-in handlers\<close>

text \<open>Past the check of the counters, they leave them, record a failure under both keys, or clear both.\<close>

definition login_shaped :: "int \<Rightarrow> string \<Rightarrow> string \<Rightarrow> handler \<Rightarrow> bool" where
  "login_shaped now k1 k2 h \<longleftrightarrow> (\<forall>p. pn_lim (snd (h p)) \<in>
     {pn_lim p, fail now k2 (fail now k1 (pn_lim p)), lim_clear k2 (lim_clear k1 (pn_lim p))})"

lemma fail_both_lim: "pn_lim (fail_both w k1 k2 p) = fail (w_nanos w) k2 (fail (w_nanos w) k1 (pn_lim p))"
  by (simp add: fail_both_def lim_fail_def on_lim_def)

lemma reset_both_lim: "pn_lim (reset_both k1 k2 p) = lim_clear k2 (lim_clear k1 (pn_lim p))"
  by (simp add: reset_both_def lim_reset_def on_lim_def)

lemma refuse_lim: "refuse_login w r b x p = (x, fail_both w (''ip:'' @ clientIP r) (''user:'' @ lb_Username b) p)"
  by (simp add: refuse_login_def seq_def reply_def)

lemma accept_lim: "pn_lim (snd (accept_login w r b adm p)) =
    lim_clear (''user:'' @ lb_Username b) (lim_clear (''ip:'' @ clientIP r) (pn_lim p))" "rs_code (fst (accept_login w r b adm p)) = 200"
  by (simp_all add: accept_login_def seq_def db_do_def peek_def reply_def reset_both_lim with_cookie_def writeJSON_def)

text \<open>An administrator's sign-in past the check: accepted, asked for a code, or refused and counted.\<close>

lemma check_login_cases:
  obtains (ok) "rs_code (fst (check_login w r b adm p)) = 200"
      "pn_lim (snd (check_login w r b adm p)) = lim_clear (''user:'' @ lb_Username b) (lim_clear (''ip:'' @ clientIP r) (pn_lim p))"
  | (ask) "check_login w r b adm p = (totp_response ''2fa required'', p)"
  | (bad) x where "x \<in> {invalid_credentials, totp_response ''invalid 2fa code''}"
      "check_login w r b adm p = (x, fail_both w (''ip:'' @ clientIP r) (''user:'' @ lb_Username b) p)"
proof -
  consider "\<not> w_compare w (adm_PasswordHash adm) (lb_Password b)" | "w_compare w (adm_PasswordHash adm) (lb_Password b)" "adm_TOTPEnabled adm" "lb_Code b = []"
    | "w_compare w (adm_PasswordHash adm) (lb_Password b)" "adm_TOTPEnabled adm" "lb_Code b \<noteq> []" "\<not> totpVerify w (adm_TOTPSecret adm) (lb_Code b)"
    | "w_compare w (adm_PasswordHash adm) (lb_Password b)" "\<not> (adm_TOTPEnabled adm \<and> lb_Code b = [])"
      "\<not> (adm_TOTPEnabled adm \<and> \<not> totpVerify w (adm_TOTPSecret adm) (lb_Code b))"
    by blast
  then show thesis
  proof cases
    case 1
    show thesis by (rule bad [of invalid_credentials]) (simp_all add: check_login_def refuse_lim 1)
  next
    case 2
    show thesis by (rule ask) (simp add: check_login_def reply_def 2)
  next
    case 3
    show thesis by (rule bad [of "totp_response ''invalid 2fa code''"]) (simp_all add: check_login_def refuse_lim 3)
  next
    case 4
    then have "check_login w r b adm = accept_login w r b adm" unfolding check_login_def by (simp only: if_False if_True not_True_eq_False)
    then show thesis by (intro ok) (simp_all add: accept_lim)
  qed
qed

definition admin_check :: "world \<Rightarrow> request \<Rightarrow> login_body \<Rightarrow> handler" where
  "admin_check w r b = db_case (GetAdmin (lb_Username b)) (\<lambda>e. refuse_login w r b invalid_credentials) (check_login w r b)"

lemma admin_check_cases:
  obtains (ok) "rs_code (fst (admin_check w r b p)) = 200"
      "pn_lim (snd (admin_check w r b p)) = lim_clear (''user:'' @ lb_Username b) (lim_clear (''ip:'' @ clientIP r) (pn_lim p))"
  | (ask) "fst (admin_check w r b p) = totp_response ''2fa required''" "pn_lim (snd (admin_check w r b p)) = pn_lim p"
  | (bad) "fst (admin_check w r b p) \<in> {invalid_credentials, totp_response ''invalid 2fa code''}"
      "pn_lim (snd (admin_check w r b p)) = fail (w_nanos w) (''user:'' @ lb_Username b) (fail (w_nanos w) (''ip:'' @ clientIP r) (pn_lim p))"
proof -
  obtain x a where g: "on_store (GetAdmin (lb_Username b)) (pn_app p) = (x, a)" by fastforce
  let ?p = "p\<lparr>pn_app := a\<rparr>"
  show thesis
  proof (cases x)
    case (Inl e)
    with g that(3) show thesis by (simp add: admin_check_def db_case_def refuse_lim fail_both_lim)
  next
    case (Inr adm)
    with g have r: "admin_check w r b p = check_login w r b adm ?p" by (simp add: admin_check_def db_case_def)
    show thesis
    proof (cases rule: check_login_cases [of w r b adm ?p])
      case ok
      with r that(1) show thesis by simp
    next
      case ask
      with r that(2) show thesis by simp
    next
      case (bad x)
      with r that(3) show thesis by (simp add: fail_both_lim)
    qed
  qed
qed

lemma admin_check_shaped: "login_shaped (w_nanos w) (''ip:'' @ clientIP r) (''user:'' @ lb_Username b) (admin_check w r b)"
  unfolding login_shaped_def
proof
  fix p
  show "pn_lim (snd (admin_check w r b p)) \<in> {pn_lim p, fail (w_nanos w) (''user:'' @ lb_Username b) (fail (w_nanos w) (''ip:'' @ clientIP r) (pn_lim p)),
      lim_clear (''user:'' @ lb_Username b) (lim_clear (''ip:'' @ clientIP r) (pn_lim p))}"
    by (cases rule: admin_check_cases [of w r b p]) simp_all
qed

definition portal_check :: "world \<Rightarrow> request \<Rightarrow> login_body \<Rightarrow> handler" where
  "portal_check w r b =
     (let ipKey = ''pip:'' @ clientIP r; userKey = ''puser:'' @ lb_Username b;
          refuse = seq (fail_both w ipKey userKey) (reply invalid_credentials)
      in db_case (GetUserByName (lb_Username b))
          (\<lambda>e. let compared = w_compare w dummy_hash (lb_Password b) in refuse)
          (\<lambda>u.
            let hash = (if PortalPasswordHash u \<noteq> [] then PortalPasswordHash u else dummy_hash) in
            if \<not> w_compare w hash (lb_Password b) \<or> PortalPasswordHash u = [] then refuse
            else seq (reset_both ipKey userKey)
              (peek (\<lambda>p. reply (with_cookie (session_cookie portalCookie (portal_token w p (ID u) (SessionEpoch u)) 86400 p)
                (writeJSON 200 (jobj [(''username'', JStr (Username u))])))))))"

lemma portal_check_shaped: "login_shaped (w_nanos w) (''pip:'' @ clientIP r) (''puser:'' @ lb_Username b) (portal_check w r b)"
  by (auto simp: login_shaped_def portal_check_def db_case_def seq_def peek_def reply_def fail_both_lim reset_both_lim Let_def
      split: prod.split sum.split)

lemma login_handlers:
  "handleLogin w r (Some b) = throttled w (''ip:'' @ clientIP r) (''user:'' @ lb_Username b) (admin_check w r b)"
  "handlePortalLogin w r (Some b) = throttled w (''pip:'' @ clientIP r) (''puser:'' @ lb_Username b) (portal_check w r b)"
  by (simp_all add: handleLogin_split admin_check_def) (simp add: handlePortalLogin_def portal_check_def Let_def)

text \<open>The check in front: refused at either counter, or on with both looked up.\<close>

lemma throttled_lim:
  obtains (stop) l where "throttled w k1 k2 nxt p = (too_many, p\<lparr>pn_lim := l\<rparr>)"
      "l \<in> {snd (blocked (w_nanos w) k1 (pn_lim p)), snd (blocked (w_nanos w) k2 (snd (blocked (w_nanos w) k1 (pn_lim p))))}"
  | (go) "\<not> fst (blocked (w_nanos w) k2 (snd (blocked (w_nanos w) k1 (pn_lim p))))"
      "throttled w k1 k2 nxt p = nxt (p\<lparr>pn_lim := snd (blocked (w_nanos w) k2 (snd (blocked (w_nanos w) k1 (pn_lim p))))\<rparr>)"
  using that by (cases "fst (blocked (w_nanos w) k1 (pn_lim p))"; cases "fst (blocked (w_nanos w) k2 (snd (blocked (w_nanos w) k1 (pn_lim p))))")
    (auto simp: throttled_def ask_def lim_blocked_def reply_def split_beta)

subsection \<open>Counting wrong guesses\<close>

text \<open>
  The counter of a key, seen through the specification: the window it is in and how many failures
  have been recorded since \<open>t0\<close>.
\<close>

definition tally :: "int \<Rightarrow> int \<Rightarrow> string \<Rightarrow> int \<Rightarrow> int \<Rightarrow> int \<Rightarrow> limiter \<Rightarrow> bool" where
  "tally mx window k t0 now n l \<longleftrightarrow> lim_max l = mx \<and> lim_window l = window \<and> t0 \<le> now \<and>
     (\<exists>w. shows_windows now l w \<and> paced mx window t0 now (w k) n)"

lemma limiter_config [simp]:
  "lim_max (fail now k l) = lim_max l" "lim_window (fail now k l) = lim_window l"
  "lim_max (lim_clear k l) = lim_max l" "lim_window (lim_clear k l) = lim_window l"
  "lim_max (snd (blocked now k l)) = lim_max l" "lim_window (snd (blocked now k l)) = lim_window l"
  by (simp_all add: fail_def Let_def lim_clear_def blocked_def split: option.split)

lemma tally_later: "tally mx window k t0 t n l \<Longrightarrow> t \<le> now \<Longrightarrow> tally mx window k t0 now n l"
  unfolding tally_def using shows_later paced_later by fastforce

lemma tally_blocked: "tally mx window k t0 now n l \<Longrightarrow> tally mx window k t0 now n (snd (blocked now j l))"
  unfolding tally_def using blocked_refines(2) by fastforce

lemma tally_other:
  assumes "tally mx window k t0 now n l" "0 \<le> window" "j \<noteq> k"
  shows "tally mx window k t0 now n (fail now j l)" "tally mx window k t0 now n (lim_clear j l)"
proof -
  from assms(1) obtain w where w: "shows_windows now l w" "paced mx window t0 now (w k) n" and c: "lim_max l = mx" "lim_window l = window" "t0 \<le> now"
    by (auto simp: tally_def)
  have "spec_fail (lim_window l) now j w k = w k" "spec_clear j w k = w k" using assms(3) by (simp_all add: spec_fail_def spec_clear_def)
  with fail_refines [OF w(1), of j] clear_refines [OF w(1), of j] w(2) c assms(2)
  show "tally mx window k t0 now n (fail now j l)" "tally mx window k t0 now n (lim_clear j l)"
    unfolding tally_def by (metis limiter_config)+
qed

lemma tally_fail:
  assumes "tally mx window k t0 now n l" "0 < window" "1 \<le> mx" "\<not> fst (blocked now k l)"
  shows "tally mx window k t0 now (n + 1) (fail now k l)"
proof -
  from assms(1) obtain w where w: "shows_windows now l w" "paced mx window t0 now (w k) n" and c: "lim_max l = mx" "lim_window l = window" "t0 \<le> now"
    by (auto simp: tally_def)
  have "\<not> spec_blocked mx now k w" using blocked_refines(1) [OF w(1), of k] assms(4) c by simp
  from paced_fail [OF assms(2,3) c(3) w(2) this] fail_refines [OF w(1), of k] c assms(2)
  show ?thesis unfolding tally_def by auto
qed

text \<open>A failure of another key does not unblock one, and looking a key up does not change the answer.\<close>

lemma blocked_twice: "fst (blocked now k (snd (blocked now j l))) = fst (blocked now k l)"
  by (auto simp: blocked_def delete_conv' split: option.split)

lemma blocked_after_fail:
  assumes "tally mx window k t0 now n l" "0 \<le> window" "j \<noteq> k"
  shows "fst (blocked now k (fail now j l)) = fst (blocked now k l)"
proof -
  from assms(1) obtain w where w: "shows_windows now l w" and c: "lim_max l = mx" "lim_window l = window" by (auto simp: tally_def)
  have "spec_fail (lim_window l) now j w k = w k" using assms(3) by (simp add: spec_fail_def)
  then show ?thesis
    using blocked_refines(1) [OF w, of k] blocked_refines(1) [OF fail_refines [OF w, of j], of k] c assms(2)
    by (simp add: spec_blocked_def)
qed

lemma tally_throttled:
  assumes s: "login_shaped (w_nanos w) k1 k2 nxt" and t: "tally mx window k t0 (w_nanos w) n (pn_lim p)" "0 \<le> window" "k \<notin> {k1, k2}"
  shows "tally mx window k t0 (w_nanos w) n (pn_lim (snd (throttled w k1 k2 nxt p)))"
proof (cases rule: throttled_lim [of w k1 k2 nxt p])
  case (stop l)
  then show ?thesis using tally_blocked [OF t(1)] tally_blocked [OF tally_blocked [OF t(1)]] by auto
next
  case go
  let ?l = "snd (blocked (w_nanos w) k2 (snd (blocked (w_nanos w) k1 (pn_lim p))))"
  have l: "tally mx window k t0 (w_nanos w) n ?l" by (intro tally_blocked t)
  have "pn_lim (snd (nxt (p\<lparr>pn_lim := ?l\<rparr>))) \<in> {?l, fail (w_nanos w) k2 (fail (w_nanos w) k1 ?l), lim_clear k2 (lim_clear k1 ?l)}"
    using spec [OF s [unfolded login_shaped_def], of "p\<lparr>pn_lim := ?l\<rparr>"] by simp
  then show ?thesis
    using l tally_other [OF tally_other(1) [OF l t(2)] t(2)] tally_other [OF tally_other(2) [OF l t(2)] t(2)] t(3) go(2) by auto
qed

subsection \<open>Runs of requests\<close>

definition guesses_at :: "string \<Rightarrow> endpoint \<Rightarrow> bool" where
  "guesses_at who e \<longleftrightarrow> (case e of Open_to_all (PostLogin (Some b)) \<Rightarrow> lb_Username b = who | _ \<Rightarrow> False)"

text \<open>The answers that tell a wrong password or a wrong code.\<close>

definition refused :: "response \<Rightarrow> bool" where
  "refused x \<longleftrightarrow> rs_body x \<in> {rs_body invalid_credentials, rs_body (totp_response ''invalid 2fa code'')}"

text \<open>
  The panel serves requests one after the other, at instants that do not go back; between them
  anything may happen to the rest of the panel (nodes, timers, the bot). \<open>n\<close> counts the wrong guesses
  for an administrator, who does not sign in meanwhile.
\<close>

inductive guessing :: "string \<Rightarrow> int \<Rightarrow> panel \<Rightarrow> int \<Rightarrow> int \<Rightarrow> panel \<Rightarrow> bool" for who t0 p0 where
  begins: "guessing who t0 p0 t0 0 p0"
| request: "guessing who t0 p0 t n p \<Longrightarrow> t \<le> w_nanos w \<Longrightarrow> pn_lim q = pn_lim p \<Longrightarrow> serve w v r e q = (x, q') \<Longrightarrow>
    \<not> (guesses_at who e \<and> rs_code x = 200) \<Longrightarrow>
    guessing who t0 p0 (w_nanos w) (n + (if guesses_at who e \<and> refused x then 1 else 0)) q'"

lemma serve_parts:
  "pn_lim (snd (serve w v r e q)) = pn_lim (snd (route w v r e q))" "rs_code (fst (serve w v r e q)) = rs_code (fst (route w v r e q))"
  "refused (fst (serve w v r e q)) = refused (fst (route w v r e q))"
  by (simp_all add: serve_def securityHeaders_def split_beta refused_def)

lemma error_text: "fmap_of_list xs = fmap_of_list ys \<Longrightarrow> map_of xs ''error'' = map_of ys ''error''"
  by (metis fmlookup_of_list)

lemma refused_answers:
  "\<not> refused too_many" "\<not> refused (totp_response ''2fa required'')" "refused invalid_credentials" "refused (totp_response ''invalid 2fa code'')"
  by (auto simp: refused_def too_many_def totp_response_def invalid_credentials_def writeErr_def writeJSON_def dest!: error_text)

lemma guarded_lim: "same_lim (requireAuth w r (account_handler w v r a))" "same_lim (requireAuth w r (node_handler w r b))"
  "same_lim (requireAuth w r (settings_handler w r c))" "same_lim (requireAuth w r (user_handler w r d))"
  using account_lim node_lim settings_lim user_lim by (intro wrap_lim; simp)+

lemmas lim_kept = sub_lim [unfolded same_lim_def, rule_format] portal_lim [unfolded same_lim_def, rule_format]
  guarded_lim [unfolded same_lim_def, rule_format]

lemma other_request_tally:
  assumes "\<not> guesses_at who e" "tally mx window (''user:'' @ who) t0 (w_nanos w) n (pn_lim q)" "0 \<le> window"
  shows "tally mx window (''user:'' @ who) t0 (w_nanos w) n (pn_lim (snd (route w v r e q)))"
proof -
  show ?thesis
  proof (cases e)
    case (Open_to_all oe)
    show ?thesis
    proof (cases oe)
      case (PostLogin ob)
      show ?thesis
      proof (cases ob)
        case None
        with PostLogin Open_to_all assms(2) show ?thesis by (simp add: route_def open_handler_def handleLogin_def reply_def)
      next
        case (Some b)
        with assms(1) PostLogin Open_to_all have "lb_Username b \<noteq> who" by (simp add: guesses_at_def)
        with tally_throttled [OF admin_check_shaped assms(2,3)] show ?thesis
          by (simp add: Open_to_all PostLogin Some route_def open_handler_def login_handlers)
      qed
    next
      case (PortalLogin ob)
      show ?thesis
      proof (cases ob)
        case None
        with PortalLogin Open_to_all assms(2) show ?thesis by (simp add: route_def open_handler_def handlePortalLogin_def reply_def)
      next
        case (Some b)
        with tally_throttled [OF portal_check_shaped assms(2,3)] show ?thesis
          by (simp add: Open_to_all PortalLogin route_def open_handler_def login_handlers)
      qed
    qed (use assms(2) in \<open>simp_all add: Open_to_all route_def open_handler_def lim_kept\<close>)
  qed (use assms(2) in \<open>simp_all add: route_def lim_kept\<close>)
qed

lemma guess_tally:
  assumes "tally mx window (''user:'' @ who) t0 (w_nanos w) n (pn_lim q)" "0 < window" "1 \<le> mx" "lb_Username b = who"
    and "rs_code (fst (handleLogin w r (Some b) q)) \<noteq> 200"
  shows "tally mx window (''user:'' @ who) t0 (w_nanos w) (n + (if refused (fst (handleLogin w r (Some b) q)) then 1 else 0))
    (pn_lim (snd (handleLogin w r (Some b) q)))"
proof (cases rule: throttled_lim [of w "''ip:'' @ clientIP r" "''user:'' @ lb_Username b" "admin_check w r b" q])
  case (stop l)
  then have "tally mx window (''user:'' @ who) t0 (w_nanos w) n l"
    using tally_blocked [OF assms(1)] tally_blocked [OF tally_blocked [OF assms(1)]] by auto
  then show ?thesis using stop(1) by (simp add: login_handlers refused_answers)
next
  case go
  let ?k = "''user:'' @ who" and ?i = "''ip:'' @ clientIP r"
  define l where "l = snd (blocked (w_nanos w) ?k (snd (blocked (w_nanos w) ?i (pn_lim q))))"
  have l: "tally mx window ?k t0 (w_nanos w) n l" unfolding l_def by (intro tally_blocked assms(1))
  have free: "\<not> fst (blocked (w_nanos w) ?k l)" using go(1) unfolding l_def assms(4) by (simp only: blocked_twice) simp
  have run: "handleLogin w r (Some b) q = admin_check w r b (q\<lparr>pn_lim := l\<rparr>)"
    using go(2) by (simp only: login_handlers l_def assms(4))
  show ?thesis
  proof (cases rule: admin_check_cases [of w r b "q\<lparr>pn_lim := l\<rparr>"])
    case ok
    with assms(5) run show ?thesis by simp
  next
    case ask
    with l run show ?thesis by (simp add: refused_answers)
  next
    case bad
    have "refused (fst (admin_check w r b (q\<lparr>pn_lim := l\<rparr>)))" using bad(1) refused_answers(3,4) by auto
    moreover have "tally mx window ?k t0 (w_nanos w) n (fail (w_nanos w) ?i l)" by (rule tally_other [OF l]) (use assms(2) in auto)
    moreover have "\<not> fst (blocked (w_nanos w) ?k (fail (w_nanos w) ?i l))"
      using free blocked_after_fail [OF l, of ?i] assms(2) by simp
    ultimately show ?thesis using tally_fail assms(2,3) bad(2) by (simp add: run assms(4))
  qed
qed

lemma guessing_tally:
  assumes "guessing who t0 p0 t n p" "tally mx window (''user:'' @ who) t0 t0 0 (pn_lim p0)" "0 < window" "1 \<le> mx"
  shows "tally mx window (''user:'' @ who) t0 t n (pn_lim p)"
  using assms(1)
proof induction
  case begins
  then show ?case using assms(2) .
next
  case (request t n p w q v r e x q')
  have now: "tally mx window (''user:'' @ who) t0 (w_nanos w) n (pn_lim q)"
    using tally_later [OF request(6,2)] request(3) by simp
  have x: "x = fst (serve w v r e q)" "q' = snd (serve w v r e q)" using request(4) by simp_all
  show ?case
  proof (cases "guesses_at who e")
    case False
    with other_request_tally [OF False now] assms(3) show ?thesis by (simp add: x serve_parts)
  next
    case True
    then obtain b where e: "e = Open_to_all (PostLogin (Some b))" "lb_Username b = who"
      by (auto simp: guesses_at_def split: endpoint.splits open_endpoint.splits option.splits)
    have r: "route w v r e q = handleLogin w r (Some b) q" by (simp add: e(1) route_def open_handler_def)
    have "rs_code (fst (handleLogin w r (Some b) q)) \<noteq> 200" using request(5) True x serve_parts(2) [of w v r e q] r by simp
    from guess_tally [OF now assms(3,4) e(2) this] True show ?thesis by (simp add: x serve_parts r)
  qed
qed

lemma tally_count:
  assumes "tally mx window k t0 t n l" "0 < window" "1 \<le> mx"
  shows "n \<le> mx * ((t - t0) div window + 1)"
  using assms paced_bound by (auto simp: tally_def)


lemma wrong_guess:
  assumes "pn_lim p = newLimiter mx window" "no_faults (db_of p)" "account_of (lb_Username b) (tables (db_of p)) = Some (name, hash, False, ep)"
    and "\<not> w_compare w hash (lb_Password b)"
  shows "fst (handleLogin w r (Some b) p) = invalid_credentials"
proof -
  from assms(3) obtain a where a: "List.find (\<lambda>a. ar_username a = lb_Username b) (admins (tables (db_of p))) = Some a" "ar_password_hash a = hash"
    by (auto simp: account_of_def account_def)
  show ?thesis
    using assms a
    by (simp add: handleLogin_split throttled_def ask_def lim_blocked_def blocked_def newLimiter_def db_case_def on_store_def
        GetAdmin_nofault check_login_def admin_of_row_def refuse_login_def seq_def reply_def split_beta)
qed

definition wrong_login :: login_body where
  "wrong_login = \<lparr>lb_Username = ''root'', lb_Password = ''no'', lb_Code = []\<rparr>"


end
