(* ===== verification/Access.thy ===== *)
theory Access
  imports Routes Sessions
begin

section \<open>Access control of the HTTP surface\<close>

text \<open>
  What stands between a request and the database. The endpoints of the administrators answer nothing
  and change nothing without a live session of an existing account; the open endpoints, whatever is
  sent to them, write one log line or the asking user's own portal password.
\<close>

subsection \<open>The administrators' endpoints\<close>

text \<open>
  C21. The panel's API is closed. Under an unforgeable MAC, a request to an administrators' endpoint is answered 401
  and changes no table, unless its cookie is an unexpired session issued to an administrator that
  exists and whose session epoch is the one it was issued under.
\<close>
theorem api_is_closed:
  assumes "\<not> open_to_all ep"
    and "\<forall>tok. Cookie r sessionCookie = Some tok \<longrightarrow> no_forgery w (session_secret p) I tok"
    and "\<forall>i \<in> I. issued_ok i"
  shows "(\<exists>name epoch exp adm. (roleAdmin, name, epoch, exp) \<in> I \<and> w_now w < exp \<and>
        adm \<in> set (admins (tables (db_of p))) \<and> ar_username adm = name \<and> ar_session_epoch adm = epoch) \<or>
     (rs_code (fst (serve w v r ep p)) = 401 \<and> tables (db_of (snd (serve w v r ep p))) = tables (db_of p))"
proof -
  obtain h where h: "route w v r ep = requireAuth w r h" using assms(1) by (rule route_guarded)
  show ?thesis
  proof (rule requireAuth_cases [of w r h p])
    assume "fst (requireAuth w r h p) = unauthorized" "tables (db_of (snd (requireAuth w r h p))) = tables (db_of p)"
    then show ?thesis using h by (simp add: serve_def securityHeaders_def split_beta unauthorized_def httpError_def)
  next
    fix c name epoch adm
    assume c: "Cookie r sessionCookie = Some c" "verifySession w (session_secret p) c = Some (roleAdmin, name, epoch)"
      "adm \<in> set (admins (tables (db_of p)))" "ar_username adm = name" "ar_session_epoch adm = epoch"
    from assms(2) c(1) have "no_forgery w (session_secret p) I c" by blast
    from verified_issued [OF this assms(3) c(2)] c show ?thesis by blast
  qed
qed

theorem api_is_closed_witness:
  "rs_code (fst (serve plain_world ''v1'' root_request (Users DelUser) (panel_on (root_store\<lparr>tables := empty_db\<rparr>)))) = 401"
proof -
  let ?I = "{(roleAdmin, ''root'', 0, 87400)}"
  have n: "w_now plain_world = 1000" by (simp add: w_now_def plain_world_def)
  have "no_forgery plain_world (session_secret (panel_on s)) ?I tok"
    if "Cookie root_request sessionCookie = Some tok" for tok s
    unfolding no_forgery_def
  proof (intro allI impI)
    let ?k = "session_secret (panel_on s)" and ?p = "session_payload roleAdmin ''root'' 0 87400"
    have k: "?k = ''0123456789abcdef''" by (simp add: session_secret_def panel_on_def sample_config_def)
    fix m assume m: "RawURLDecode tok = Some (m @ [bar] @ hmacHex plain_world ?k m)"
    have "tok = RawURLEncode (?p @ [bar] @ hmacHex plain_world ?k ?p)"
      using that root_token(1) by (simp add: signSession_def Let_def n k)
    with m have eq: "?p @ [bar] @ hmacHex plain_world ?k ?p = m @ [bar] @ hmacHex plain_world ?k m" by simp
    then have "length ?p = length m" by (auto simp: hmacHex_def plain_world_def dest!: arg_cong [of _ _ length])
    with eq show "m \<in> payload_of ` ?I" by (simp add: payload_of_def)
  qed
  then have "\<forall>tok. Cookie root_request sessionCookie = Some tok \<longrightarrow>
      no_forgery plain_world (session_secret (panel_on (root_store\<lparr>tables := empty_db\<rparr>))) ?I tok" by blast
  from api_is_closed [OF _ this, of "Users DelUser" "''v1''"] show ?thesis
    by (simp add: issued_ok_def panel_on_def boot_app_def empty_db_def)
qed

subsection \<open>The open endpoints\<close>

text \<open>The user a request's portal cookie stands for: the token is live, and the row has its epoch.\<close>

definition portal_id :: "world \<Rightarrow> request \<Rightarrow> panel \<Rightarrow> int option" where
  "portal_id w r p =
     (case Cookie r portalCookie of None \<Rightarrow> None
      | Some c \<Rightarrow> (case verifySession w (session_secret p) c of None \<Rightarrow> None
        | Some (role, subject, epoch) \<Rightarrow> (case ParseInt64 subject of None \<Rightarrow> None
          | Some i \<Rightarrow>
              if role = roleUser \<and> (\<exists>u \<in> set (users (tables (db_of p))). ur_id u = i \<and> ur_session_epoch u = epoch)
              then Some i else None)))"

lemma GetUser_row:
  assumes "GetUser i s = (Inr u, s')"
  shows "\<exists>row \<in> set (users (tables s)). ur_id row = i \<and> ur_session_epoch row = SessionEpoch u \<and> ID u = i"
proof -
  from assms obtain row where "List.find (\<lambda>u. ur_id u = i) (users (tables s)) = Some row"
    "SessionEpoch u = ur_session_epoch row" "ID u = ur_id row"
    by (auto simp: GetUser_def sql_bind_def sql_return_def query_def find_row_def user_of_row_def next_fault_def
        split: sum.splits prod.splits option.splits list.splits if_splits)
  then show ?thesis by (auto simp: find_Some_iff intro!: bexI [of _ row] nth_mem)
qed

lemma portalUser_id:
  assumes "portalUser w r p = (Some u, q)"
  shows "portal_id w r p = Some (ID u)"
proof -
  from assms obtain c where c: "Cookie r portalCookie = Some c"
    by (auto simp: portalUser_def peek_def give_def split: option.splits)
  with assms obtain role subject epoch where v: "verifySession w (session_secret p) c = Some (role, subject, epoch)"
    by (auto simp: portalUser_def peek_def give_def split: option.splits)
  with c assms have role: "role = roleUser" by (auto simp: portalUser_def peek_def give_def split: if_splits)
  with c v assms obtain i where i: "ParseInt64 subject = Some i"
    by (auto simp: portalUser_def peek_def give_def split: option.splits)
  obtain x s where g: "GetUser i (db_of p) = (x, s)" by fastforce
  with c v role i assms have x: "x = Inr u" "SessionEpoch u = epoch"
    by (auto simp: portalUser_def peek_def give_def db_case_def on_store_def split: sum.splits if_splits)
  with g GetUser_row [of i "db_of p" u s] obtain row where
    "row \<in> set (users (tables (db_of p)))" "ur_id row = i" "ur_session_epoch row = epoch" "ID u = i" by auto
  then show ?thesis using c v role i by (auto simp: portal_id_def)
qed

text \<open>What an open endpoint may do to the database, and what that leaves in place.\<close>

definition open_op :: "int option \<Rightarrow> store_op \<Rightarrow> bool" where
  "open_op who x \<longleftrightarrow> (case x of OAddAudit t a b c \<Rightarrow> b = ''login'' | OChangeUserPortalPassword i h \<Rightarrow> who = Some i | _ \<Rightarrow> False)"

lemma change_password_surface:
  "evolves (open_op (portal_id w r p)) (db_of p) (db_of (snd (handlePortalChangePassword w r b p)))"
proof -
  let ?A = "open_op (portal_id w r p)"
  obtain who q where q: "portalUser w r p = (who, q)" by fastforce
  then have e: "evolves ?A (db_of p) (db_of q)" using confinedD [OF session_confined(2), of ?A p w r] by simp
  show ?thesis
  proof (cases who)
    case None
    with e q show ?thesis by (simp add: handlePortalChangePassword_def ask_def reply_def)
  next
    case (Some u)
    then have A: "?A (OChangeUserPortalPassword (ID u) h)" for h using portalUser_id q by (simp add: open_op_def)
    define k where "k = (case b of None \<Rightarrow> reply (writeErr 400 ''bad body'')
       | Some pw \<Rightarrow> (case validatePasswordStrength (w_unicode w) (TrimSpace pw) of Some e \<Rightarrow> reply (writeErr 400 e)
         | None \<Rightarrow> (case w_bcrypt w pw of Inl e \<Rightarrow> reply (writeErr 500 e)
           | Inr hash \<Rightarrow> db_case (ChangeUserPortalPassword (ID u) hash) (fail500 w)
               (\<lambda>x. db_case (GetUser (ID u)) (fail500 w)
                 (\<lambda>fresh. peek (\<lambda>p. reply (with_cookie
                    (session_cookie portalCookie (portal_token w p (ID u) (SessionEpoch fresh)) 86400 p)
                    (writeJSON 200 ok_json))))))))"
    have "confined ?A k" unfolding k_def by (intro evolving A)
    moreover have "handlePortalChangePassword w r b p = k q"
      using q Some by (simp add: handlePortalChangePassword_def ask_def k_def)
    ultimately show ?thesis using e confinedD evolves_trans by metis
  qed
qed

lemma open_surface: "evolves (open_op (portal_id w r p)) (db_of p) (db_of (snd (open_handler w r ep p)))"
proof -
  let ?A = "open_op (portal_id w r p)"
  have "confined ?A (handleLogin w r b)" for b by (rule handleLogin_confined) (simp add: open_op_def)
  then show ?thesis
    by (cases ep) (simp_all add: open_handler_def change_password_surface confinedD portal_confined subs_confined
        healthz_def reply_confined)
qed

text \<open>\<open>d'\<close> is \<open>d\<close> but for appended \<^verbatim>\<open>login\<close> lines of the log and the password of user \<open>who\<close>.\<close>

definition but_password :: "user_row \<Rightarrow> user_row" where
  "but_password u = u\<lparr>ur_portal_password_hash := [], ur_must_change_pw := False, ur_session_epoch := 0\<rparr>"

definition only_own_row :: "int option \<Rightarrow> db \<Rightarrow> db \<Rightarrow> bool" where
  "only_own_row who d d' \<longleftrightarrow>
     d'\<lparr>users := users d, audit_log := audit_log d, seq_audit := seq_audit d\<rparr> = d \<and>
     map but_password (users d') = map but_password (users d) \<and>
     filter (\<lambda>u. Some (ur_id u) \<noteq> who) (users d') = filter (\<lambda>u. Some (ur_id u) \<noteq> who) (users d) \<and>
     (\<exists>new. audit_log d' = audit_log d @ new \<and> list_all (\<lambda>e. au_action e = ''login'') new)"

lemma filter_upd_where: "(\<And>x. P x \<Longrightarrow> \<not> Q x) \<Longrightarrow> (\<And>x. Q (f x) = Q x) \<Longrightarrow> filter Q (upd_where P f xs) = filter Q xs"
  by (induction xs) (auto simp: upd_where_def)

lemma open_op_keeps:
  assumes "open_op who x" "st \<in> writes c x"
  shows "keeps_stmt (only_own_row who d) st"
proof (cases x)
  case (OAddAudit t a b e)
  with assms show ?thesis
    by (auto simp: keeps_stmt_def open_op_def only_own_row_def insert_audit_def)
next
  case (OChangeUserPortalPassword i h)
  with assms have "st = upd_user i (\<lambda>u. u\<lparr>ur_portal_password_hash := h, ur_must_change_pw := False,
      ur_session_epoch := ur_session_epoch u + 1\<rparr>)" "who = Some i" by (auto simp: open_op_def)
  then show ?thesis
    by (auto simp: keeps_stmt_def only_own_row_def upd_user_def filter_upd_where map_upd_where but_password_def)
qed (use assms in \<open>simp_all add: open_op_def\<close>)

text \<open>
  C22. The open endpoints are isolated. Whatever is sent to an endpoint that needs no administrator's session, and
  whichever statements fail: beside appended login lines of the audit log, the only thing it can
  change in the database is the portal password (with its change flag and session epoch) of the user
  whose live portal session the request carries. Without such a session no row of any table but
  the log changes. In particular no administrator, node, setting, quota or assignment can be
  changed from the portal, nor another user's row.
\<close>
theorem open_endpoints_isolated:
  "only_own_row (portal_id w r p) (tables (db_of p)) (tables (db_of (snd (serve w v r (Open_to_all ep) p))))"
proof -
  have "evolves (open_op (portal_id w r p)) (db_of p) (db_of (snd (serve w v r (Open_to_all ep) p)))"
    by (simp add: route_def open_surface)
  then show ?thesis
    by (rule evolves_keeps_writes [where P = "only_own_row (portal_id w r p) (tables (db_of p))"])
       (auto simp: only_own_row_def open_op_keeps)
qed

end
