(* ===== verification/System.thy ===== *)
theory System
  imports Access
begin

section \<open>The panel as a whole\<close>

text \<open>
  One step relation over everything that drives the panel: HTTP requests, updates of the bot, the
  sessions of the nodes, and the timers. Every text that reaches a generated configuration, an
  \<^verbatim>\<open>nginx\<close> map or a session token is validated before it is stored; \<open>names_ok\<close> says what the
  database therefore holds, and is kept by every step.
\<close>

subsection \<open>What the nodes and the timers write\<close>

definition usage_op :: "store_op \<Rightarrow> bool" where
  "usage_op x \<longleftrightarrow> (case x of OTouchNode t i \<Rightarrow> True | OSetNodeTrafficSeq i q \<Rightarrow> True | OSetNodeAgentVersion i v \<Rightarrow> True
     | OAddTraffic t u i up dn \<Rightarrow> True | OUpsertDevice u i ip inb k t \<Rightarrow> True | OPurgeDevices t \<Rightarrow> True
     | OResetUserTraffic i \<Rightarrow> True | OSetUserLastReset i t \<Rightarrow> True | _ \<Rightarrow> False)"

lemma usage_evolve:
  "sql_evolves usage_op (TouchNode now i)" "sql_evolves usage_op (SetNodeTrafficSeq i q)"
  "sql_evolves usage_op (SetNodeAgentVersion i v)" "sql_evolves usage_op (AddTraffic now u i up dn)"
  "sql_evolves usage_op (UpsertDevice u i ip inb k seen)" "sql_evolves usage_op (PurgeDevices seen)"
  "sql_evolves usage_op (ResetUserTraffic i)" "sql_evolves usage_op (SetUserLastReset i seen)"
proof -
  note op = step_evolves [of usage_op]
  show "sql_evolves usage_op (TouchNode now i)" by (rule op [of "OTouchNode now i"]) (simp_all add: usage_op_def)
  show "sql_evolves usage_op (SetNodeTrafficSeq i q)" by (rule op [of "OSetNodeTrafficSeq i q"]) (simp_all add: usage_op_def)
  show "sql_evolves usage_op (SetNodeAgentVersion i v)" by (rule op [of "OSetNodeAgentVersion i v"]) (simp_all add: usage_op_def)
  show "sql_evolves usage_op (AddTraffic now u i up dn)" by (rule op [of "OAddTraffic now u i up dn"]) (simp_all add: usage_op_def)
  show "sql_evolves usage_op (UpsertDevice u i ip inb k seen)" by (rule op [of "OUpsertDevice u i ip inb k seen"]) (simp_all add: usage_op_def)
  show "sql_evolves usage_op (PurgeDevices seen)" by (rule op [of "OPurgeDevices seen"]) (simp_all add: usage_op_def)
  show "sql_evolves usage_op (ResetUserTraffic i)" by (rule op [of "OResetUserTraffic i"]) (simp_all add: usage_op_def)
  show "sql_evolves usage_op (SetUserLastReset i seen)" by (rule op [of "OSetUserLastReset i seen"]) (simp_all add: usage_op_def)
qed

lemma frame_store [simp]:
  "a_store (recordRate now n u d a) = a_store a" "a_store (setNodeMetrics n x a) = a_store a"
  "a_store (register n c a) = a_store a" "a_store (unregister n c a) = a_store a" "a_store (noticeOnline n nm a) = a_store a"
  "a_store (check_user now usr a) = a_store a" "a_store (snd (writeNext c a)) = a_store a" "a_store (snd (new_conn n a)) = a_store a"
  by (auto simp: recordRate_def setNodeMetrics_def register_def unregister_def noticeOnline_def check_user_def writeNext_def
      new_conn_def conn_close_def notifyAdmins_def scheduleOfflineNotice_def Let_def split: option.splits list.splits)

lemma ingest_item_evolves: "evolves usage_op (a_store (snd (snd st))) (a_store (snd (snd (ingest_item now n al it st))))"
  by (cases st) (auto simp: ingest_item_def ev_refl do_store_evolves usage_evolve split: option.split)

lemma ingest_items_evolve: "evolves usage_op (a_store (snd (snd st))) (a_store (snd (snd (fold (ingest_item now n al) its st))))"
proof (induction its arbitrary: st)
  case (Cons it its)
  from Cons.IH [of "ingest_item now n al it st"] show ?case
    by simp (rule evolves_trans, assumption, rule ingest_item_evolves)
qed (simp add: ev_refl)

lemma ingestTraffic_evolves: "evolves usage_op (a_store a) (a_store (ingestTraffic H now n q its a))"
proof -
  obtain r b where b: "on_store (NodeTrafficSeq n) a = (r, b)" by fastforce
  obtain us c where c: "on_store (UsersForNode n) b = (us, c)" by fastforce
  have ab: "evolves usage_op (a_store a) (a_store b)" by (rule on_store_evolves [OF reads_evolve(1) b])
  moreover have "evolves usage_op (a_store b) (a_store c)" by (rule on_store_evolves [OF reads_evolve(15) c])
  ultimately have ac: "evolves usage_op (a_store a) (a_store c)" by (metis evolves_trans)
  have go: "evolves usage_op (a_store a) (a_store (syncNode H now n
      (if q \<noteq> 0 then do_store (SetNodeTrafficSeq n q) (recordRate now n u d e) else recordRate now n u d e)))"
    if "fold (ingest_item now n al) its (0, 0, c) = (u, d, e)" for al u d e
  proof -
    have "evolves usage_op (a_store c) (a_store e)" using ingest_items_evolve [of "(0, 0, c)" now n al its] that by simp
    then have "evolves usage_op (a_store a) (a_store (if q \<noteq> 0 then do_store (SetNodeTrafficSeq n q) (recordRate now n u d e)
        else recordRate now n u d e))"
      using ac do_store_evolves [OF usage_evolve(2) [of n q], of "recordRate now n u d e"] by (auto intro: evolves_trans)
    then show ?thesis using syncs_evolve(1) evolves_trans by metis
  qed
  show ?thesis using ab ac b c go by (auto simp: ingestTraffic_def Let_def split: sum.split prod.split)
qed

lemma ingestDevices_evolves: "evolves usage_op (a_store a) (a_store (ingestDevices now n its a))"
proof -
  obtain r b where b: "on_store (UsersForNode n) a = (r, b)" by fastforce
  have ab: "evolves usage_op (a_store a) (a_store b)" by (rule on_store_evolves [OF reads_evolve(15) b])
  have "evolves usage_op (a_store c) (a_store (ingest_device now n al it c))" for c it al
    by (auto simp: ingest_device_def ev_refl Let_def do_store_evolves usage_evolve split: option.split)
  then have "evolves usage_op (a_store b) (a_store (fold (ingest_device now n al) its b))" for al
    by (rule fold_evolves)
  with ab b show ?thesis by (auto simp: ingestDevices_def split: sum.split intro: evolves_trans)
qed

lemma readMsg_evolves: "evolves usage_op (a_store a) (a_store (readMsg H now n c m a))"
  using ingestTraffic_evolves [of a H now n "m_seq m" "m_items m"] ingestDevices_evolves [of a now n "m_devices m"]
    do_store_evolves [OF usage_evolve(1) [of now n], of a]
  by (auto simp: readMsg_def Let_def trySend_store ev_refl split: msg_type.split option.split)

lemma handleWS_evolves: "evolves usage_op (a_store a) (a_store (snd (handleWS H now rg a)))"
proof -
  obtain r b where b: "on_store (GetNodeByToken now (m_token rg)) a = (r, b)" by fastforce
  have ab: "evolves usage_op (a_store a) (a_store b)" by (rule on_store_evolves [OF reads_evolve(12) b])
  have "evolves usage_op (a_store b) (a_store (forceSyncNode H now i (noticeOnline i nm
      (do_store (SetNodeAgentVersion i v) (do_store (TouchNode now i) (register i c (snd (new_conn i b))))))))" for i nm v c
    using evolves_trans [OF syncs_evolve(2)] do_store_evolves [OF usage_evolve(1) [of now i], of "register i c (snd (new_conn i b))"]
      do_store_evolves [OF usage_evolve(3) [of i v], of "do_store (TouchNode now i) (register i c (snd (new_conn i b)))"]
    by (metis evolves_trans frame_store(3,5,8))
  with ab b show ?thesis
    by (auto simp: handleWS_def Let_def split_beta ev_refl split: sum.split intro: evolves_trans [OF _ ab])
qed

lemma timers_evolve:
  "evolves usage_op (a_store a) (a_store (enforcementTick H now ids a))"
  "evolves usage_op (a_store a) (a_store (autoResetCheck H now a))"
  "evolves usage_op (a_store a) (a_store (purgeDevicesNow now a))"
  "evolves usage_op (a_store a) (a_store (offlineTimerFires now n a))"
proof -
  have "evolves usage_op (a_store b) (a_store (checkUserTransitions now b))" for b
  proof -
    obtain r c where c: "on_store ListUsers b = (r, c)" by fastforce
    have "evolves usage_op (a_store b) (a_store c)" by (rule on_store_evolves [OF composite_reads_evolve(1) c])
    moreover have "a_store (fold (check_user now) us c) = a_store c" for us by (induction us arbitrary: c) simp_all
    ultimately show ?thesis using c by (auto simp: checkUserTransitions_def split: sum.split)
  qed
  then show "evolves usage_op (a_store a) (a_store (enforcementTick H now ids a))"
    unfolding enforcementTick_def by (rule evolves_trans) (rule syncNodes_evolve)
  have one: "evolves usage_op (a_store b) (a_store (reset_user H now u b))" for b u
  proof -
    obtain r c where c: "on_store (ResetUserTraffic (ID u)) b = (r, c)" by fastforce
    have bc: "evolves usage_op (a_store b) (a_store c)" by (rule on_store_evolves [OF usage_evolve(7) c])
    moreover have "evolves usage_op (a_store c) (a_store (fold (syncNode H now) (NodeIDs u) (do_store (SetUserLastReset (ID u) now) c)))"
      by (rule evolves_trans [OF syncNodes_evolve do_store_evolves [OF usage_evolve(8)]])
    ultimately show ?thesis using c by (auto simp: reset_user_def ev_refl split: sum.split intro: evolves_trans)
  qed
  obtain r c where c: "on_store ListUsers a = (r, c)" by fastforce
  have "evolves usage_op (a_store a) (a_store c)" by (rule on_store_evolves [OF composite_reads_evolve(1) c])
  moreover have "evolves usage_op (a_store c) (a_store (fold (reset_user H now) us c))" for us by (rule fold_evolves) (rule one)
  ultimately show "evolves usage_op (a_store a) (a_store (autoResetCheck H now a))"
    using c by (auto simp: autoResetCheck_def split: sum.split intro: evolves_trans)
  show "evolves usage_op (a_store a) (a_store (purgeDevicesNow now a))"
    unfolding purgeDevicesNow_def by (rule do_store_evolves [OF usage_evolve(6)])
  obtain x d where d: "on_store (GetNode now n) a = (x, d)" by fastforce
  have "evolves usage_op (a_store a) (a_store d)" by (rule on_store_evolves [OF reads_evolve(11) d])
  then show "evolves usage_op (a_store a) (a_store (offlineTimerFires now n a))"
    using d by (auto simp: offlineTimerFires_def notifyAdmins_def ev_refl split: sum.split)
qed

subsection \<open>Steps\<close>

text \<open>
  \<open>w\<close> varies from step to step: each happens at its own time with its own randomness. An attached
  connection's messages carry its node's id; the sender of a chat message is whatever Telegram says.
\<close>

inductive panel_step :: "panel \<Rightarrow> panel \<Rightarrow> bool" where
  Request: "panel_step p (snd (serve w v r ep p))"
| Chat: "panel_step p (snd (botUpdates w us offset p))"
| NodeJoins: "panel_step p (p\<lparr>pn_app := snd (handleWS H now rg (pn_app p))\<rparr>)"
| NodeSends: "panel_step p (p\<lparr>pn_app := readMsg H now n c m (pn_app p)\<rparr>)"
| NodeReads: "panel_step p (p\<lparr>pn_app := snd (writeNext c (pn_app p))\<rparr>)"
| NodeLeaves: "panel_step p (p\<lparr>pn_app := unregister n c (pn_app p)\<rparr>)"
| Enforcement: "panel_step p (p\<lparr>pn_app := enforcementTick H now ids (pn_app p)\<rparr>)"
| Reset: "panel_step p (p\<lparr>pn_app := autoResetCheck H now (pn_app p)\<rparr>)"
| Cleanup: "panel_step p (p\<lparr>pn_app := purgeDevicesNow now (pn_app p)\<rparr>)"
| Snapshot: "panel_step p (snd (backupLoop dir made v files p))"
| OfflineNotice: "panel_step p (p\<lparr>pn_app := offlineTimerFires now n (pn_app p)\<rparr>)"

text \<open>Every store call of the running panel.\<close>

definition panel_op :: "store_op \<Rightarrow> bool" where
  "panel_op x \<longleftrightarrow> usage_op x \<or> (\<exists>w. admin_surface w x) \<or> (\<exists>who. open_op who x)"

lemma botUpdates_confined:
  assumes "\<And>x. api_op w x \<Longrightarrow> A x"
  shows "evolves A (db_of p) (db_of (snd (botUpdates w us offset p)))"
proof (induction us arbitrary: offset p)
  case (Cons u us)
  show ?case
  proof (cases "tg_Message u")
    case None
    with Cons show ?thesis by simp
  next
    case (Some m)
    obtain chat tx where m: "m = (chat, tx)" by fastforce
    obtain b q where q: "botHandle w chat tx p = (b, q)" by fastforce
    have "confined A (botHandle w chat tx)" by (rule confined_weaken [OF botHandle_confined]) (rule assms)
    from confinedD [OF this, of p] q have "evolves A (db_of p) (db_of q)" by simp
    with Cons.IH [of p] Cons.IH [of q] Some m q show ?thesis by (cases b) (auto intro: evolves_trans)
  qed
qed (simp add: ev_refl)

lemma botUpdates_evolves: "evolves panel_op (db_of p) (db_of (snd (botUpdates w us offset p)))"
  by (rule botUpdates_confined) (auto simp: panel_op_def admin_surface_def)

lemma usage_panel: "evolves usage_op s t \<Longrightarrow> evolves panel_op s t"
  by (erule evolves_mono) (simp add: panel_op_def)

lemma panel_step_evolves: "panel_step p p' \<Longrightarrow> evolves panel_op (db_of p) (db_of p')"
proof (induction rule: panel_step.induct)
  case (Request p w v r ep)
  show ?case
  proof (cases "open_to_all ep")
    case True
    then obtain e where "ep = Open_to_all e" by (cases ep) auto
    then have "evolves (open_op (portal_id w r p)) (db_of p) (db_of (snd (serve w v r ep p)))"
      using open_surface [of w r p e] by (simp add: route_def)
    then show ?thesis by (rule evolves_mono) (auto simp: panel_op_def)
  next
    case False
    then have "evolves (admin_surface w) (db_of p) (db_of (snd (serve w v r ep p)))"
      using confinedD [OF route_surface] by simp
    then show ?thesis by (rule evolves_mono) (auto simp: panel_op_def)
  qed
next
  case (Chat p w us offset)
  show ?case by (rule botUpdates_evolves)
next
  case (Snapshot p dir made v files)
  show ?case by (rule backupLoop_evolves)
qed (simp_all add: ev_refl handleWS_evolves [THEN usage_panel] readMsg_evolves [THEN usage_panel] timers_evolve [THEN usage_panel])

lemma panel_run_evolves: "panel_step\<^sup>*\<^sup>* p p' \<Longrightarrow> evolves panel_op (db_of p) (db_of p')"
  by (induction rule: rtranclp_induct) (auto intro: ev_refl evolves_trans panel_step_evolves)

subsection \<open>What is in the database has been validated\<close>

text \<open>The node's stored texts, except the encrypted private key, pass the code's own check.\<close>

definition node_row_ok :: "node_row \<Rightarrow> bool" where
  "node_row_ok r \<longleftrightarrow> validateNode ((node_of_row None 0 r)\<lparr>n_RealityPrivateKey := []\<rparr>) = None"

definition id_char :: "char \<Rightarrow> bool" where
  "id_char c \<longleftrightarrow> is_alnum c \<or> c = CHR ''-'' \<or> c = CHR ''_''"

definition user_row_ok :: "user_row \<Rightarrow> bool" where
  "user_row_ok u \<longleftrightarrow> validateUsername (ur_username u) = None \<and> list_all id_char (ur_uuid u) \<and> list_all id_char (ur_sub_token u)"

definition names_ok :: "db \<Rightarrow> bool" where
  "names_ok d \<longleftrightarrow> list_all node_row_ok (nodes d) \<and> list_all user_row_ok (users d) \<and>
     list_all (\<lambda>a. validateUsername (ar_username a) = None) (admins d)"

lemma node_row_ok_iff: "node_row_ok r \<longleftrightarrow>
    (nr_address r = [] \<or> validHostname (nr_address r)) \<and> (nr_tls_domain r = [] \<or> validHostname (nr_tls_domain r)) \<and>
    (nr_reality_server_name r = [] \<or> validHostname (nr_reality_server_name r)) \<and> validateDest (nr_reality_dest r) = None \<and>
    reShortID (nr_reality_short_id r) \<and> reB64Key (nr_reality_public_key r)"
  by (auto simp: node_row_ok_def validateNode_def node_of_row_def reB64Key_def split: option.splits if_splits)

lemma validateNode_row: "validateNode n = None \<Longrightarrow> nr_address r = n_Address n \<Longrightarrow> nr_tls_domain r = n_TLSDomain n \<Longrightarrow>
    nr_reality_server_name r = n_RealityServerName n \<Longrightarrow> nr_reality_dest r = n_RealityDest n \<Longrightarrow>
    nr_reality_short_id r = n_RealityShortID n \<Longrightarrow> nr_reality_public_key r = n_RealityPublicKey n \<Longrightarrow> node_row_ok r"
  by (auto simp: node_row_ok_iff validateNode_def split: option.splits if_splits)

lemma b64enc_chars:
  assumes al: "alphabet al"
  shows "set (b64enc al False s) \<subseteq> set al"
proof (induction s rule: b64enc.induct [where ?P = "\<lambda>al' pad s. set (b64enc al False s) \<subseteq> set al"])
  case (4 al' pad a b c s)
  then show ?case using al sextet_bounds [OF byte_less byte_less] by (simp add: alphabet_def)
qed (use al sextet_bounds [OF byte_less byte_less] in \<open>simp_all add: alphabet_def\<close>)

lemma generated_ids: "list_all id_char (newUUID b)" "list_all id_char (randToken b)"
proof -
  show "list_all id_char (newUUID b)"
    by (auto simp: list_all_iff id_char_def is_alnum_def is_lower_hex_def char_in_def dest!: newUUID_chars)
  have "list_all id_char alphaURL" by code_simp
  then show "list_all id_char (randToken b)"
    using b64enc_chars [OF alphabet_url] by (auto simp: randToken_def RawURLEncode_def list_all_iff)
qed

text \<open>A call that stores no name, or only checked and generated ones.\<close>

definition checked_op :: "store_op \<Rightarrow> bool" where
  "checked_op x \<longleftrightarrow> (case x of
       OCreateNode nc t n \<Rightarrow> validateNode n = None | OUpdateNode nc n \<Rightarrow> validateNode n = None
     | OCreateUser t u \<Rightarrow> validateUsername (Username u) = None \<and> list_all id_char (UUID u) \<and> list_all id_char (SubToken u)
     | OSetUserSubToken i tok \<Rightarrow> list_all id_char tok | OSetUserUUID i v \<Rightarrow> list_all id_char v
     | OCreateAdmin u h \<Rightarrow> validateUsername u = None | OEnsureAdmin u h \<Rightarrow> validateUsername u = None
     | _ \<Rightarrow> True)"

lemma panel_op_checked: "panel_op x \<Longrightarrow> checked_op x"
  using generated_ids
  by (cases x) (auto simp: panel_op_def usage_op_def admin_surface_def admin_api_op_def api_op_def open_op_def checked_op_def)

lemma list_all_upd_where: "list_all P xs \<Longrightarrow> (\<And>x. P x \<Longrightarrow> P (f x)) \<Longrightarrow> list_all P (upd_where Q f xs)"
  by (auto simp: list_all_iff set_upd_where)

lemma list_all_del_where: "list_all P xs \<Longrightarrow> list_all P (del_where Q xs)"
  by (auto simp: list_all_iff del_where_def)

lemma names_same:
  "(\<And>d d'. st d = Inr d' \<Longrightarrow> nodes d' = nodes d \<and> users d' = users d \<and> admins d' = admins d) \<Longrightarrow> keeps_stmt names_ok st"
  by (rule keeps_stmtI) (simp add: names_ok_def)

lemma names_upd:
  "(\<And>r. node_row_ok r \<Longrightarrow> node_row_ok (f r)) \<Longrightarrow> keeps_stmt names_ok (upd_node i f)"
  "(\<And>u. user_row_ok u \<Longrightarrow> user_row_ok (g u)) \<Longrightarrow> keeps_stmt names_ok (upd_user i g)"
  "(\<And>a. ar_username (h a) = ar_username a) \<Longrightarrow> keeps_stmt names_ok (upd_admin u h)"
  by (auto simp: keeps_stmt_def names_ok_def upd_node_def upd_user_def upd_admin_def intro!: list_all_upd_where)

lemma user_row_ok_upd: "ur_username (g u) = ur_username u \<Longrightarrow> ur_uuid (g u) = ur_uuid u \<Longrightarrow> ur_sub_token (g u) = ur_sub_token u \<Longrightarrow>
    user_row_ok u \<Longrightarrow> user_row_ok (g u)"
  by (simp add: user_row_ok_def)

lemma names_users: "(\<And>u. ur_username (g u) = ur_username u \<and> ur_uuid (g u) = ur_uuid u \<and> ur_sub_token (g u) = ur_sub_token u) \<Longrightarrow>
    keeps_stmt names_ok (upd_user i g)"
  by (rule names_upd(2)) (simp add: user_row_ok_def)

lemma names_stmts:
  "keeps_stmt names_ok (put_setting k v)" "keeps_stmt names_ok (put_device u n ip inb c seen)"
  "keeps_stmt names_ok (insert_audit now a b e)" "keeps_stmt names_ok (add_node_traffic now u n up dn)"
  "keeps_stmt names_ok (\<lambda>d. Inr (d\<lparr>user_nodes := f1 d\<rparr>))" "keeps_stmt names_ok (\<lambda>d. Inr (d\<lparr>node_traffic := f2 d\<rparr>))"
  "keeps_stmt names_ok (\<lambda>d. Inr (d\<lparr>traffic_daily := f3 d\<rparr>))" "keeps_stmt names_ok (\<lambda>d. Inr (d\<lparr>node_traffic_daily := f4 d\<rparr>))"
  "keeps_stmt names_ok (\<lambda>d. Inr (d\<lparr>user_devices := f5 d\<rparr>))"
  "keeps_stmt names_ok (upd_admin nm (\<lambda>a. a\<lparr>ar_session_epoch := k1 a\<rparr>))"
  "keeps_stmt names_ok (upd_admin nm (\<lambda>a. a\<lparr>ar_totp_secret := k2, ar_totp_enabled := k3\<rparr>))"
  "keeps_stmt names_ok (upd_admin nm (\<lambda>a. a\<lparr>ar_password_hash := k4, ar_session_epoch := k1 a\<rparr>))"
  "keeps_stmt names_ok (upd_node i (\<lambda>r. r\<lparr>nr_traffic_seq := q\<rparr>))" "keeps_stmt names_ok (upd_node i (\<lambda>r. r\<lparr>nr_last_seen := q\<rparr>))"
  "keeps_stmt names_ok (upd_node i (\<lambda>r. r\<lparr>nr_agent_version := ver\<rparr>))"
  "keeps_stmt names_ok (upd_user i (\<lambda>r. r\<lparr>ur_session_epoch := l1 r\<rparr>))" "keeps_stmt names_ok (upd_user i (\<lambda>r. r\<lparr>ur_last_reset := l2\<rparr>))"
  "keeps_stmt names_ok (upd_user i (\<lambda>r. r\<lparr>ur_data_used := l3 r\<rparr>))"
  "keeps_stmt names_ok (upd_user i (\<lambda>r. r\<lparr>ur_portal_password_hash := ph, ur_must_change_pw := mc\<rparr>))"
  "keeps_stmt names_ok (upd_user i (\<lambda>r. r\<lparr>ur_portal_password_hash := ph, ur_must_change_pw := mc, ur_session_epoch := l1 r\<rparr>))"
  "keeps_stmt names_ok (upd_user i (\<lambda>r. r\<lparr>ur_data_limit := u1, ur_expire_at := u2, ur_enabled := u3, ur_reset_day := u4, ur_note := u5\<rparr>))"
  by ((rule names_users names_upd(1,3); simp add: node_row_ok_iff) |
      (rule names_same; auto simp: put_setting_def put_device_def insert_audit_def add_node_traffic_def))+

lemma names_insert_admin: "validateUsername name = None \<Longrightarrow> keeps_stmt names_ok (insert_admin name h)"
  by (auto simp: keeps_stmt_def names_ok_def insert_admin_def split: if_splits)

lemma checked_writes:
  assumes "checked_op x" "st \<in> writes c x"
  shows "keeps_stmt names_ok st"
proof (cases x)
  case (OEncryptExisting n1 n2 n3)
  with assms(2) show ?thesis
    by (auto simp: keeps_stmt_def names_ok_def upd_private_key_def upd_totp_secret_def upd_telegram_token_def node_row_ok_iff
        intro!: list_all_upd_where)
next
  case (OCreateNode nc now n)
  with assms show ?thesis
    by (auto simp: keeps_stmt_def names_ok_def checked_op_def insert_node_def map_sum_eq_Inr split: if_splits
        intro!: validateNode_row [of n])
next
  case (OUpdateNode nc n)
  with assms show ?thesis
    by (auto simp: checked_op_def intro!: names_upd(1) validateNode_row [of n])
next
  case (OCreateUser now u)
  with assms show ?thesis
    by (auto simp: keeps_stmt_def names_ok_def checked_op_def insert_user_def map_sum_eq_Inr user_row_ok_def split: if_splits)
next
  case (OSetUserSubToken i tok)
  with assms show ?thesis
    by (auto simp: keeps_stmt_def names_ok_def checked_op_def upd_sub_token_def upd_user_def user_row_ok_def
        split: if_splits intro!: list_all_upd_where)
next
  case (OSetUserUUID i v)
  with assms show ?thesis
    by (auto simp: checked_op_def user_row_ok_def intro!: names_upd(2))
next
  case (ODeleteNode i)
  with assms(2) show ?thesis by (auto simp: keeps_stmt_def names_ok_def intro: list_all_del_where)
next
  case (ODeleteUser i)
  with assms(2) show ?thesis by (auto simp: keeps_stmt_def names_ok_def intro: list_all_del_where)
next
  case (ODeleteAdmin u)
  with assms(2) show ?thesis by (auto simp: keeps_stmt_def names_ok_def intro: list_all_del_where)
next
  case (OSetUserNodes i ns)
  with assms(2) show ?thesis by (auto simp: keeps_stmt_def names_ok_def insert_or_ignore_def split: if_splits)
qed (use assms in \<open>auto simp: names_stmts names_insert_admin checked_op_def upd_seq_def\<close>)

lemma names_ok_evolves: "evolves panel_op s t \<Longrightarrow> names_ok (tables s) \<Longrightarrow> names_ok (tables t)"
  by (erule evolves_keeps_writes [where P = names_ok]) (auto intro: checked_writes panel_op_checked)

end
