(* ===== verification/Sync.thy ===== *)
theory Sync
  imports Traffic StoreInv Samples
begin

section \<open>A node's provisioning follows the users\<close>

text \<open>
  The hub caches, per node, the signature of the user set it last handed to the node, and
  \<open>syncNode\<close> pushes only when the signature changed. The history variable \<open>handed\<close> keeps the clients
  of the last configuration handed to each node's write queue. The invariant ties the cache to it,
  over all interleavings of syncs, forced syncs and anything that leaves the cache alone; engine
  failures included.
\<close>

type_synonym clients_of = "(string \<times> string) list" \<comment> \<open>name and uuid\<close>

definition active_clients :: "int \<Rightarrow> int \<Rightarrow> db \<Rightarrow> clients_of" where
  "active_clients now n d = map (\<lambda>u. (Username u, UUID u)) (filter (active now) (users_for_node n d))"

definition client_line :: "string \<times> string \<Rightarrow> string" where
  "client_line p = fst p @ '':'' @ snd p"

definition sig_text :: "clients_of \<Rightarrow> string" where
  "sig_text cl = sprint_strings (sort_strings (map client_line cl))"

definition clients_sig :: "(string \<Rightarrow> string) \<Rightarrow> clients_of \<Rightarrow> string" where
  "clients_sig H cl = H (sig_text cl)"

lemma activeSignature_clients: "activeSignature H now (users_for_node n d) = clients_sig H (active_clients now n d)"
proof -
  have "map user_line us = map client_line (map (\<lambda>u. (Username u, UUID u)) us)" for us
    by (simp add: user_line_def client_line_def)
  then show ?thesis
    by (simp only: activeSignature_def clients_sig_def sig_text_def active_clients_def)
qed

subsection \<open>Reads keep the tables, with or without engine failures\<close>

lemma UsersForNode_result:
  "on_store (UsersForNode n) a = (r, a') \<Longrightarrow> tables (a_store a') = tables (a_store a) \<and>
    (\<forall>us. r = Inr us \<longrightarrow> us = users_for_node n (tables (a_store a))) \<and> (\<exists>s. a' = a\<lparr>a_store := s\<rparr>)"
  by (auto simp: on_store_def UsersForNode_def query_def next_fault_def intro: exI [of _ "a_store a'"]
      split: list.splits if_splits)

lemma GetNode_result:
  "on_store (GetNode now n) a = (r, a') \<Longrightarrow> tables (a_store a') = tables (a_store a) \<and> (\<exists>s. a' = a\<lparr>a_store := s\<rparr>)"
  by (auto simp: on_store_def GetNode_def query_def next_fault_def intro: exI [of _ "a_store a'"]
      split: list.splits if_splits option.splits)

text \<open>
  What \<open>PushConfig\<close> hands over: on success the connection's queue grows by one configuration, built
  for exactly the active users of the node.
\<close>

lemma PushConfig_result:
  assumes "PushConfig now n a = (sent, a')"
  shows "tables (a_store a') = tables (a_store a) \<and> a_activeCache a' = a_activeCache a \<and>
    (sent \<longrightarrow> (\<exists>c cn nd. map_of (a_conns a) n = Some c \<and> map_of (a_heap a) c = Some cn \<and> \<not> cn_closed cn \<and>
       map_of (a_heap a') c = Some (cn\<lparr>cn_send := cn_send cn @
         [config_msg (Build (node_params_of nd) (map (\<lambda>(name, uuid). \<lparr>cl_UUID = uuid, cl_Email = name\<rparr>)
             (active_clients now n (tables (a_store a))))) (n_TLSDomain nd)]\<rparr>)))"
proof (cases "map_of (a_conns a) n")
  case None
  with assms show ?thesis by (auto simp: PushConfig_def)
next
  case (Some c)
  obtain r1 a1 where g: "on_store (GetNode now n) a = (r1, a1)" by fastforce
  from GetNode_result [OF g] obtain s1 where a1: "a1 = a\<lparr>a_store := s1\<rparr>" "tables s1 = tables (a_store a)" by auto
  show ?thesis
  proof (cases r1)
    case (Inl e)
    with assms Some g a1 show ?thesis by (auto simp: PushConfig_def)
  next
    case (Inr nd)
    obtain r2 a2 where u: "on_store (UsersForNode n) a1 = (r2, a2)" by fastforce
    from UsersForNode_result [OF u] a1 obtain s2 where a2: "a2 = a\<lparr>a_store := s2\<rparr>" "tables s2 = tables (a_store a)"
      and us: "\<And>us. r2 = Inr us \<Longrightarrow> us = users_for_node n (tables (a_store a))" by auto
    show ?thesis
    proof (cases r2)
      case (Inl e)
      with assms Some g Inr u a2 show ?thesis by (auto simp: PushConfig_def)
    next
      case (Inr ul)
      with us have ul: "ul = users_for_node n (tables (a_store a))" by simp
      have push: "trySend c (config_msg (buildXrayConfig now nd ul) (n_TLSDomain nd)) a2 = (sent, a')"
        using assms Some g \<open>r1 = Inr nd\<close> u Inr by (simp add: PushConfig_def)
      have cfg: "buildXrayConfig now nd ul = Build (node_params_of nd)
          (map (\<lambda>(name, uuid). \<lparr>cl_UUID = uuid, cl_Email = name\<rparr>) (active_clients now n (tables (a_store a))))"
        by (simp add: buildXrayConfig_def active_clients_def ul comp_def)
      from push a2 Some show ?thesis
        by (fastforce simp: trySend_def cfg split: option.splits if_splits)
    qed
  qed
qed

subsection \<open>The history of pushes\<close>

type_synonym handed = "int \<Rightarrow> clients_of option"

text \<open>What a call of \<open>PushConfig\<close> adds to the history.\<close>

definition push_clients :: "int \<Rightarrow> int \<Rightarrow> app \<Rightarrow> clients_of option" where
  "push_clients now n a = (if fst (PushConfig now n a) then Some (active_clients now n (tables (a_store a))) else None)"

definition note_push :: "int \<Rightarrow> clients_of option \<Rightarrow> handed \<Rightarrow> handed" where
  "note_push n p h = (case p of None \<Rightarrow> h | Some cl \<Rightarrow> h(n := Some cl))"

text \<open>\<open>syncNode\<close> calls \<open>PushConfig\<close> unless the read fails or the signature is cached.\<close>

definition sync_push :: "(string \<Rightarrow> string) \<Rightarrow> int \<Rightarrow> int \<Rightarrow> app \<Rightarrow> clients_of option" where
  "sync_push H now n a =
     (case on_store (UsersForNode n) a of
        (Inl e, a1) \<Rightarrow> None
      | (Inr us, a1) \<Rightarrow> if map_of (a_activeCache a1) n = Some (activeSignature H now us) then None
                        else push_clients now n a1)"

definition force_push :: "int \<Rightarrow> int \<Rightarrow> app \<Rightarrow> clients_of option" where
  "force_push now n a =
     (case on_store (UsersForNode n) a of (Inl e, a1) \<Rightarrow> None | (Inr us, a1) \<Rightarrow> push_clients now n a1)"

definition cache_true :: "(string \<Rightarrow> string) \<Rightarrow> app \<Rightarrow> handed \<Rightarrow> bool" where
  "cache_true H a h \<longleftrightarrow>
     (\<forall>n sig. map_of (a_activeCache a) n = Some sig \<longrightarrow> (\<exists>cl. h n = Some cl \<and> sig = clients_sig H cl))"

inductive sync_step :: "(string \<Rightarrow> string) \<Rightarrow> app \<times> handed \<Rightarrow> app \<times> handed \<Rightarrow> bool" for H where
  Sync: "sync_step H (a, h) (syncNode H now n a, note_push n (sync_push H now n a) h)"
| Force: "sync_step H (a, h) (forceSyncNode H now n a, note_push n (force_push now n a) h)"
| Elsewhere: "a_activeCache a' = a_activeCache a \<Longrightarrow> sync_step H (a, h) (a', h)"

lemma syncNode_true:
  assumes "cache_true H a h"
  shows "cache_true H (syncNode H now n a) (note_push n (sync_push H now n a) h)"
proof -
  obtain r a1 where u: "on_store (UsersForNode n) a = (r, a1)" by fastforce
  from UsersForNode_result [OF u] obtain s where a1: "a1 = a\<lparr>a_store := s\<rparr>" "tables s = tables (a_store a)"
    and us: "\<And>us. r = Inr us \<Longrightarrow> us = users_for_node n (tables (a_store a))" by auto
  show ?thesis
  proof (cases r)
    case (Inl e)
    with assms u a1 show ?thesis by (simp add: syncNode_def sync_push_def note_push_def cache_true_def)
  next
    case (Inr ul)
    with us have sig: "activeSignature H now ul = clients_sig H (active_clients now n (tables (a_store a)))"
      by (simp add: activeSignature_clients)
    obtain sent a2 where p: "PushConfig now n a1 = (sent, a2)" by fastforce
    from PushConfig_result [OF p] a1 have "a_activeCache a2 = a_activeCache a" "tables (a_store a2) = tables (a_store a)"
      by simp_all
    with assms u a1 Inr sig p show ?thesis
      by (auto simp: syncNode_def sync_push_def push_clients_def note_push_def cache_true_def Let_def update_conv')
  qed
qed

lemma forceSyncNode_true:
  assumes "cache_true H a h"
  shows "cache_true H (forceSyncNode H now n a) (note_push n (force_push now n a) h)"
proof -
  obtain r a1 where u: "on_store (UsersForNode n) a = (r, a1)" by fastforce
  from UsersForNode_result [OF u] obtain s where a1: "a1 = a\<lparr>a_store := s\<rparr>" "tables s = tables (a_store a)"
    and us: "\<And>us. r = Inr us \<Longrightarrow> us = users_for_node n (tables (a_store a))" by auto
  show ?thesis
  proof (cases r)
    case (Inl e)
    with assms u a1 show ?thesis by (simp add: forceSyncNode_def force_push_def note_push_def cache_true_def)
  next
    case (Inr ul)
    with us have sig: "activeSignature H now ul = clients_sig H (active_clients now n (tables (a_store a)))"
      by (simp add: activeSignature_clients)
    obtain sent a2 where p: "PushConfig now n a1 = (sent, a2)" by fastforce
    from PushConfig_result [OF p] a1 have "a_activeCache a2 = a_activeCache a" "tables (a_store a2) = tables (a_store a)"
      by simp_all
    with assms u a1 Inr sig p show ?thesis
      by (auto simp: forceSyncNode_def force_push_def push_clients_def note_push_def cache_true_def Let_def
          update_conv' delete_conv')
  qed
qed

lemma cache_true_step: "sync_step H x y \<Longrightarrow> cache_true H (fst x) (snd x) \<Longrightarrow> cache_true H (fst y) (snd y)"
proof (induction rule: sync_step.induct)
  case (Elsewhere a' a h)
  then show ?case by (simp add: cache_true_def)
qed (simp_all add: syncNode_true forceSyncNode_true)

lemma cache_true_run: "(sync_step H)\<^sup>*\<^sup>* x y \<Longrightarrow> cache_true H (fst x) (snd x) \<Longrightarrow> cache_true H (fst y) (snd y)"
  by (induction rule: rtranclp_induct) (auto dest: cache_true_step)

text \<open>The other handlers are \<open>Elsewhere\<close> steps followed by syncs; a connection is one with a forced sync.\<close>

lemma handleWS_force:
  "handleWS H now reg a = (Some (n, c), a') \<Longrightarrow>
   \<exists>b. a_activeCache b = a_activeCache a \<and> a' = forceSyncNode H now n b"
proof -
  assume w: "handleWS H now reg a = (Some (n, c), a')"
  have cl: "a_activeCache (conn_close d b) = a_activeCache b" for d b
    by (simp add: conn_close_def split: option.split)
  have ds: "a_activeCache (do_store m b) = a_activeCache b" for m :: "unit sql" and b
    by (simp add: do_store_def on_store_def split_def Let_def)
  have os: "a_activeCache (snd (on_store m b)) = a_activeCache b" for m :: "node sql" and b
    by (simp add: on_store_def split_def Let_def)
  have nt: "a_activeCache (noticeOnline i nm b) = a_activeCache b" for i nm b
    by (simp add: noticeOnline_def notifyAdmins_def Let_def)
  have rg: "a_activeCache (register i d b) = a_activeCache b" for i d b
    by (simp add: register_def Let_def cl split: option.split)
  obtain r a1 where g: "on_store (GetNodeByToken now (m_token reg)) a = (r, a1)" by fastforce
  with os [of "GetNodeByToken now (m_token reg)" a] have a1: "a_activeCache a1 = a_activeCache a" by simp
  from w g obtain nd where "r = Inr nd" "n = n_ID nd"
    and "a' = forceSyncNode H now (n_ID nd) (noticeOnline (n_ID nd) (n_Name nd) (do_store (SetNodeAgentVersion (n_ID nd) (m_version reg))
       (do_store (TouchNode now (n_ID nd)) (register (n_ID nd) (fst (new_conn (n_ID nd) a1)) (snd (new_conn (n_ID nd) a1))))))"
    by (auto simp: handleWS_def Let_def split_def split: if_splits sum.splits)
  then show ?thesis
    by (intro exI conjI) (auto simp: nt ds rg new_conn_def a1)
qed

subsection \<open>The signature determines the clients\<close>

definition clean_client :: "string \<times> string \<Rightarrow> bool" where
  "clean_client p \<longleftrightarrow> CHR '' '' \<notin> set (fst p) \<and> CHR '':'' \<notin> set (fst p) \<and> CHR '' '' \<notin> set (snd p)"

lemma client_line_inj:
  "clean_client p \<Longrightarrow> clean_client q \<Longrightarrow> client_line p = client_line q \<Longrightarrow> p = q"
proof -
  assume c: "clean_client p" "clean_client q" and "client_line p = client_line q"
  then have e: "fst p @ '':'' @ snd p = fst q @ '':'' @ snd q" by (simp add: client_line_def)
  have "takeWhile (\<lambda>c. c \<noteq> CHR '':'') (s @ CHR '':'' # t) = s" if "CHR '':'' \<notin> set s" for s t
    using that by (induction s) auto
  with c e have "fst p = fst q" by (simp add: clean_client_def) metis
  with e show "p = q" by (simp add: prod_eq_iff)
qed

lemma Join_space_inj:
  assumes "\<And>l. l \<in> set ls \<Longrightarrow> CHR '' '' \<notin> set l \<and> l \<noteq> []" and "\<And>l. l \<in> set ks \<Longrightarrow> CHR '' '' \<notin> set l \<and> l \<noteq> []"
    and "Join ls '' '' = Join ks '' ''"
  shows "ls = ks"
proof -
  have empty: "Join xs '' '' = [] \<longleftrightarrow> xs = []" if "\<And>l. l \<in> set xs \<Longrightarrow> l \<noteq> []" for xs
    using that by (cases xs; cases "tl xs") auto
  show ?thesis
  proof (cases "ls = [] \<or> ks = []")
    case True
    with empty [of ls] empty [of ks] assms show ?thesis by metis
  next
    case False
    with splitc_Join [of ls "CHR '' ''"] splitc_Join [of ks "CHR '' ''"] assms show ?thesis by metis
  qed
qed

lemma mset_of_map_inj:
  assumes "inj_on f (set xs \<union> set ys)" and "mset (map f xs) = mset (map f ys)"
  shows "mset xs = mset ys"
proof -
  let ?g = "inv_into (set xs \<union> set ys) f"
  have "map ?g (map f zs) = zs" if "set zs \<subseteq> set xs \<union> set ys" for zs
  proof -
    have "map (?g \<circ> f) zs = zs"
      by (rule map_idI) (use that assms(1) in \<open>auto simp: inv_into_f_f\<close>)
    then show ?thesis by simp
  qed
  then have "mset xs = image_mset ?g (mset (map f xs))" "mset ys = image_mset ?g (mset (map f ys))"
    by (metis Un_upper1 mset_map, metis Un_upper2 mset_map)
  with assms(2) show ?thesis by (simp only:)
qed

lemma sig_text_inj:
  assumes "\<forall>p \<in> set xs \<union> set ys. clean_client p" and "sig_text xs = sig_text ys"
  shows "mset xs = mset ys"
proof -
  have ne: "CHR '' '' \<notin> set l \<and> l \<noteq> []" if "l \<in> set (sort_strings (map client_line zs))" "\<forall>p \<in> set zs. clean_client p" for l zs
    using that by (fastforce simp: sort_strings_def clean_client_def client_line_def)
  have "sort_strings (map client_line xs) = sort_strings (map client_line ys)"
  proof (rule Join_space_inj)
    show "Join (sort_strings (map client_line xs)) '' '' = Join (sort_strings (map client_line ys)) '' ''"
      using assms(2) by (simp add: sig_text_def sprint_strings_def)
  qed (use assms(1) ne in blast)+
  then have "mset (map client_line xs) = mset (map client_line ys)"
    by (metis sort_strings_def mset_sort)
  moreover have "inj_on client_line (set xs \<union> set ys)"
    using assms(1) by (intro inj_onI client_line_inj) blast+
  ultimately show ?thesis by (rule mset_of_map_inj [rotated])
qed

subsection \<open>What a sync achieves\<close>

text \<open>
  A sync at a connected node with room in its queue, no engine failure: afterwards the last
  configuration handed to the node carries exactly the active users, whether it was pushed now or
  skipped because the signature was cached.
\<close>

lemma PushConfig_sent:
  assumes "no_faults (a_store a)" and "map_of (a_conns a) n = Some c" and "map_of (a_heap a) c = Some cn"
    and "\<not> cn_closed cn" and "length (cn_send cn) < queue_cap"
    and "find_row (\<lambda>r. nr_id r = n) (nodes (tables (a_store a))) = Inr nr"
  shows "fst (PushConfig now n a)"
  using assms by (simp add: PushConfig_def on_store_def GetNode_def UsersForNode_def nofault trySend_def)

lemma sync_provisions:
  assumes inv: "cache_true H a h"
    and ready: "no_faults (a_store a)" "map_of (a_conns a) n = Some c" "map_of (a_heap a) c = Some cn"
      "\<not> cn_closed cn" "length (cn_send cn) < queue_cap"
      "find_row (\<lambda>r. nr_id r = n) (nodes (tables (a_store a))) = Inr nr"
    and h': "h' = note_push n (sync_push H now n a) h"
  shows "\<exists>cl. h' n = Some cl \<and> clients_sig H cl = clients_sig H (active_clients now n (tables (a_store a)))"
proof (cases "map_of (a_activeCache a) n = Some (activeSignature H now (users_for_node n (tables (a_store a))))")
  case True
  with ready(1) have "h' = h"
    by (simp add: h' sync_push_def on_store_def UsersForNode_def nofault note_push_def)
  with True inv show ?thesis unfolding cache_true_def by (metis activeSignature_clients)
next
  case False
  have "fst (PushConfig now n a)" by (rule PushConfig_sent [OF ready])
  with False ready(1) have "h' = h(n := Some (active_clients now n (tables (a_store a))))"
    by (simp add: h' sync_push_def on_store_def UsersForNode_def nofault note_push_def push_clients_def)
  then show ?thesis by simp
qed


text \<open>The panel after its node connected, and after the forced sync of the connection.\<close>

definition connected_panel :: app where
  "connected_panel = register 1 0 (snd (new_conn 1 (sample_panel [])))"

definition synced_panel :: app where
  "synced_panel = forceSyncNode (\<lambda>s. s) 9 1 connected_panel"

lemma synced_panel_values:
  "force_push 9 1 connected_panel = Some [(''alice'', ''u'')]"
  "sync_push (\<lambda>s. s) 9 1 synced_panel = None"
  "no_faults (a_store synced_panel)" "map_of (a_conns synced_panel) 1 = Some 0"
  "active_clients 9 1 (tables (a_store synced_panel)) = [(''alice'', ''u'')]"
  "map_option (\<lambda>cn. (cn_closed cn, length (cn_send cn))) (map_of (a_heap synced_panel) 0) = Some (False, 1)"
  "find_row (\<lambda>r. nr_id r = 1) (nodes (tables (a_store synced_panel))) = Inr (hd (nodes sample_db))"
  "clean_client (''alice'', ''u'')"
  by code_simp+

lemma synced_panel_run:
  "(sync_step (\<lambda>s. s))\<^sup>*\<^sup>* (sample_panel [], \<lambda>_. None) (synced_panel, (\<lambda>_. None)(1 := Some [(''alice'', ''u'')]))"
proof -
  have "a_activeCache connected_panel = a_activeCache (sample_panel [])" by code_simp
  then have "sync_step (\<lambda>s. s) (sample_panel [], \<lambda>_. None) (connected_panel, \<lambda>_. None)" by (rule Elsewhere)
  moreover have "sync_step (\<lambda>s. s) (connected_panel, \<lambda>_. None)
      (synced_panel, note_push 1 (force_push 9 1 connected_panel) (\<lambda>_. None))"
    unfolding synced_panel_def by (rule Force)
  ultimately show ?thesis by (simp add: synced_panel_values note_push_def)
qed


end
