(* ===== verification/Names.thy ===== *)
theory Names
  imports System Apply Sync Recovery
begin

section \<open>Names, from the form to the node\<close>

text \<open>
  The panel's validation and the agent's parsers meet: what an administrator, a chat or a user can put
  into the database is checked on the way in, and what the panel then pushes is understood by the
  agent as exactly the users that are active, with a server name the \<^verbatim>\<open>nginx\<close> generator accepts.
\<close>

subsection \<open>From the start of the panel\<close>

lemma checked_names: "evolves checked_op s t \<Longrightarrow> names_ok (tables s) \<Longrightarrow> names_ok (tables t)"
  by (erule evolves_keeps_writes [where P = names_ok]) (auto intro: checked_writes)

lemma Run_evolves:
  assumes "Run w derive ns e cfg s = (Inr p, t)"
  shows "evolves checked_op (s\<lparr>crypt := newCrypter derive (JWTSecret cfg)\<rparr>) (db_of p)"
proof -
  let ?s = "s\<lparr>crypt := newCrypter derive (JWTSecret cfg)\<rparr>"
  have v: "validateSecrets (w_unicode w) cfg = None" using assms(1) by (auto simp: Run_def split: option.splits)
  then have name: "validateUsername (AdminUser cfg) = None" by (auto simp: validateSecrets_def split: option.splits)
  obtain x s1 where enc: "encryptExisting (nc_nodes ns) (nc_admins ns) (nc_token ns) ?s = (x, s1)" by fastforce
  have "sql_evolves checked_op (encryptExisting (nc_nodes ns) (nc_admins ns) (nc_token ns))"
    by (intro evolving) (simp add: checked_op_def)
  then have 1: "evolves checked_op ?s s1" using enc unfolding sql_evolves_def by (metis snd_conv)
  obtain hash where h: "w_bcrypt w (AdminPass cfg) = Inr hash"
    using assms(1) v enc by (auto simp: Run_def Let_def split: sum.splits)
  obtain y s2 where adm: "EnsureAdmin (AdminUser cfg) hash s1 = (y, s2)" by fastforce
  have "sql_evolves checked_op (EnsureAdmin (AdminUser cfg) hash)" by (intro evolving) (simp add: checked_op_def name)
  then have 2: "evolves checked_op s1 s2" using adm unfolding sql_evolves_def by (metis snd_conv)
  have p: "p = start_panel e cfg s2" using assms(1) v enc h adm by (auto simp: Run_def Let_def split: sum.splits)
  show ?thesis unfolding p by (rule evolves_trans [OF start_panel_evolves evolves_trans [OF 2 1]])
qed

lemma Run_names:
  assumes "Run w derive ns e cfg s = (Inr p, t)" "names_ok (tables s)"
  shows "names_ok (tables (db_of p))"
  by (rule checked_names [OF Run_evolves [OF assms(1)]]) (simp add: assms(2))

lemma Run_db_ok:
  assumes "Run w derive ns e cfg s = (Inr p, t)" "db_ok (tables s)"
  shows "db_ok (tables (db_of p))"
  by (rule evolves_integrity [OF Run_evolves [OF assms(1)]]) (simp add: assms(2))

text \<open>
  C32. Stored names are validated names. In a database the panel has been started on empty (or sound), whatever
  requests, chat commands, node messages and timer ticks follow, and whichever statements fail: every
  node's address, domains, destination, short id and public key pass \<open>validateNode\<close>, every user and
  administrator name passes \<open>validateUsername\<close>, and UUIDs and subscription tokens consist of
  letters, digits, dash and underscore.
\<close>
theorem stored_names_validated:
  assumes "Run w derive ns e cfg s = (Inr p0, t)" "names_ok (tables s)" "panel_step\<^sup>*\<^sup>* p0 p"
  shows "names_ok (tables (db_of p))"
  using panel_run_evolves [OF assms(3)] Run_names [OF assms(1,2)] by (rule names_ok_evolves)

theorem stored_names_validated_witness:
  "\<exists>p0 t. Run plain_world (\<lambda>_. toy_aead) \<lparr>nc_nodes = (\<lambda>_. ''ab''), nc_admins = (\<lambda>_. ''ab''), nc_token = ''ab''\<rparr> (\<lambda>_. []) sample_config
     empty_store = (Inr p0, t) \<and> names_ok (tables (db_of (snd (serve plain_world ''v1'' root_request (Users DelUser) p0))))"
proof -
  obtain p0 where p0: "Run plain_world (\<lambda>_. toy_aead) \<lparr>nc_nodes = (\<lambda>_. ''ab''), nc_admins = (\<lambda>_. ''ab''), nc_token = ''ab''\<rparr> (\<lambda>_. [])
      sample_config empty_store = (Inr p0, db_of p0)"
    using Run_nofault [OF empty_store_ok(1,2) sample_boot(1,2), of "\<lambda>_. toy_aead"
        "\<lparr>nc_nodes = (\<lambda>_. ''ab''), nc_admins = (\<lambda>_. ''ab''), nc_token = ''ab''\<rparr>" "\<lambda>_. []"] by blast
  moreover have "names_ok (tables empty_store)" by (simp add: names_ok_def empty_store_def empty_db_def)
  ultimately show ?thesis using stored_names_validated [OF p0 _ r_into_rtranclp [of panel_step, OF Request]] by blast
qed

subsection \<open>What the agent makes of a pushed configuration\<close>

lemma alnum_sni: "is_alnum c \<Longrightarrow> sni_char c"
  unfolding is_alnum_def char_in_def sni_char_def Let_def by blast

lemma dot_dash_sni: "sni_char (CHR ''.'')" "sni_char (CHR ''-'')" "sni_char (CHR ''*'')"
  by code_simp+

lemma host_body_sni: "host_body s \<Longrightarrow> validSNI s"
  unfolding host_body_def validSNI_def list_all_iff using alnum_sni dot_dash_sni(1,2) by (metis insertE list.simps(15) empty_iff empty_set)

text \<open>Every host name the panel accepts is a server name the agent accepts.\<close>

lemma validHostname_validSNI: "validHostname s \<Longrightarrow> validSNI s"
proof (cases "HasPrefix s ''*.''")
  case True
  then obtain t where s: "s = CHR ''*'' # CHR ''.'' # t" unfolding HasPrefix_iff by auto
  assume "validHostname s"
  then have "host_body t" by (simp add: validHostname_def reHostname_def HasPrefix_def s)
  with host_body_sni [of t] show ?thesis by (simp add: validSNI_def s dot_dash_sni)
next
  case False
  assume "validHostname s"
  with False show ?thesis using host_body_sni [of s] by (simp add: validHostname_def reHostname_def)
qed

lemma reality_name_Build: "realitySNIFromConfig (Some (Build p cs)) = np_RealityServerName p"
proof -
  obtain m where m: "Build p cs = JObj m" "jget ''inbounds'' m = JArr (inbounds_of p (map client_json cs))"
    using config_frame_obj [of "inbounds_of p (map client_json cs)"] by (auto simp: Build_def)
  have "has_tag tagReality (reality_inbound p cl)" "\<not> has_tag tagReality api_inbound" "\<not> has_tag tagReality (tls_inbound cl)" for cl
    by (simp_all add: has_tag_def reality_inbound_def api_inbound_def tls_inbound_def tagReality_def)
  then show ?thesis
    using m by (simp add: realitySNIFromConfig_def arr_or_nil_def inbounds_of_def)
       (simp add: reality_inbound_def obj_or_nil_def arr_or_nil_def jstrs_def)
qed


lemma name_clean:
  assumes "validateUsername s = None"
  shows "s \<noteq> []" "CHR '' '' \<notin> set s" "CHR '':'' \<notin> set s" "CHR ''>'' \<notin> set s" "bar \<notin> set s"
proof -
  have r: "reUsername s" using assms by (simp add: validateUsername_def split: if_splits)
  then show "s \<noteq> []" by (auto simp: reUsername_def)
  have "\<not> (is_alnum c \<or> c \<in> set ''._-'')" if "c \<in> {CHR '' '', CHR '':'', CHR ''>'', bar}" for c
    using that by (elim insertE emptyE) (simp_all add: is_alnum_def char_in_def)
  then show "CHR '' '' \<notin> set s" "CHR '':'' \<notin> set s" "CHR ''>'' \<notin> set s" "bar \<notin> set s"
    using r unfolding reUsername_def list_all_iff by blast+
qed

lemma id_clean: "list_all id_char s \<Longrightarrow> CHR '' '' \<notin> set s"
  by (auto simp: list_all_iff id_char_def is_alnum_def char_in_def)

lemma users_clean:
  assumes "names_ok d" "u \<in> set (users_for_node n d)"
  shows "validateUsername (Username u) = None" "list_all id_char (UUID u)"
  using assms by (auto simp: names_ok_def users_for_node_def user_of_row_def user_row_ok_def list_all_iff)

lemma users_distinct: "db_ok d \<Longrightarrow> distinct (map Username (users_for_node n d))"
proof -
  assume "db_ok d"
  then have "distinct (map ur_username (users d))" by (simp add: db_ok_defs)
  then have "distinct (map ur_username (sort_key ur_id (filter P (users d))))" for P
    by (simp add: distinct_map_filter distinct_map inj_on_def)
  then show ?thesis by (simp add: users_for_node_def comp_def user_of_row_def)
qed

text \<open>
  C33. The agent understands what the panel pushes. In every state the panel reaches, for every node of its
  database, the agent reads from the generated configuration the node's own REALITY name, which is
  empty or a server name the agent writes into \<^verbatim>\<open>nginx.conf\<close>, and for the inbounds it manages live
  exactly the names and UUIDs of the users that are active on the node. None of these names or
  UUIDs has a blank or a colon in the wrong place, so that two different user sets never have the
  same signature text.
\<close>
theorem pushed_config_understood:
  assumes "Run w derive ns e cfg s = (Inr p0, t)" "names_ok (tables s)" "db_ok (tables s)" "panel_step\<^sup>*\<^sup>* p0 p"
    and "r \<in> set (nodes (tables (db_of p)))"
  shows "let d = tables (db_of p); raw = Some (buildXrayConfig now (node_of_row c seen r) (users_for_node (nr_id r) d)) in
    realitySNIFromConfig raw = nr_reality_server_name r \<and>
    (if nr_reality_server_name r = [] then True else validSNI (nr_reality_server_name r)) \<and>
    (\<exists>skel sets. parseClients raw = Some (skel, sets) \<and>
       map fst sets = (if nr_tls_domain r = [] then [] else [tagTLS]) @ [tagReality] \<and>
       list_all (\<lambda>(tag, cs). map_of cs = map_of (active_clients now (nr_id r) d)) sets) \<and>
    list_all clean_client (active_clients now (nr_id r) d)"
proof -
  define d where "d = tables (db_of p)"
  define us where "us = filter (active now) (users_for_node (nr_id r) d)"
  define cs where "cs = map (\<lambda>u. \<lparr>cl_UUID = UUID u, cl_Email = Username u\<rparr>) us"
  have names: "names_ok d"
    unfolding d_def using panel_run_evolves [OF assms(4)] Run_names [OF assms(1,2)] by (rule names_ok_evolves)
  have ok: "db_ok d"
    unfolding d_def using panel_run_evolves [OF assms(4)] Run_db_ok [OF assms(1,3)] by (rule evolves_integrity)
  have raw: "buildXrayConfig now (node_of_row c seen r) (users_for_node (nr_id r) d) = Build (node_params_of (node_of_row c seen r)) cs"
    by (simp add: buildXrayConfig_def us_def cs_def)
  have par: "np_RealityServerName (node_params_of (node_of_row c seen r)) = nr_reality_server_name r"
    "np_TLSDomain (node_params_of (node_of_row c seen r)) = nr_tls_domain r"
    by (simp_all add: node_params_of_def node_of_row_def)
  have sni: "validSNI (nr_reality_server_name r)" if "nr_reality_server_name r \<noteq> []"
    using names assms(5) that validHostname_validSNI by (auto simp: names_ok_def list_all_iff node_row_ok_iff d_def)
  have u: "validateUsername (Username x) = None" "list_all id_char (UUID x)" if "x \<in> set us" for x
    using users_clean [OF names, of x "nr_id r"] that by (auto simp: us_def)
  have "list_all (\<lambda>c. cl_Email c \<noteq> []) cs" using name_clean(1) [OF u(1)] by (auto simp: list_all_iff cs_def)
  from parse_Build [OF this, of "node_params_of (node_of_row c seen r)"] par(2)
  have parsed: "parseClients (Some (Build (node_params_of (node_of_row c seen r)) cs)) = Some (skeleton_of (node_params_of (node_of_row c seen r)),
      (if nr_tls_domain r = [] then [] else [(tagTLS, client_set cs)]) @ [(tagReality, client_set cs)])"
    by (simp split: if_splits)
  have "distinct (map Username us)" using users_distinct [OF ok] by (simp add: us_def distinct_map_filter)
  then have "map_of (client_set cs) = map_of (active_clients now (nr_id r) d)"
    by (subst client_set_map) (simp_all add: cs_def comp_def active_clients_def us_def)
  moreover have "list_all clean_client (active_clients now (nr_id r) d)"
    using u name_clean id_clean by (auto simp: list_all_iff active_clients_def clean_client_def us_def)
  ultimately show ?thesis
    unfolding Let_def d_def [symmetric] raw reality_name_Build par(1) parsed using sni by auto
qed

text \<open>A database with one node and one active user.\<close>

definition small_store :: store where
  "small_store = \<lparr>tables = sample_db\<lparr>nodes := map (\<lambda>r. r\<lparr>nr_reality_dest := [],
     nr_reality_server_name := ''www.example.com'', nr_reality_short_id := ''ab''\<rparr>) (nodes sample_db)\<rparr>, faults = [], crypt = None\<rparr>"

definition plain_nonces :: nonce_source where
  "plain_nonces = \<lparr>nc_nodes = (\<lambda>_. ''ab''), nc_admins = (\<lambda>_. ''ab''), nc_token = ''ab''\<rparr>"

lemma small_store_ok: "no_faults small_store" "db_ok (tables small_store)" "names_ok (tables small_store)"
proof -
  show "no_faults small_store" by (simp add: small_store_def no_faults_def)
  show "db_ok (tables small_store)" unfolding small_store_def by code_simp
  have host: "validHostname ''a''" "validHostname ''www.example.com''"
    by (simp_all add: validHostname_def reHostname_def HasPrefix_def host_body_def is_alnum_def char_in_def)
  show "names_ok (tables small_store)"
    using host by (simp add: validateDest_def names_ok_def small_store_def sample_db_def node_row_ok_iff user_row_ok_def empty_db_def
        validateUsername_def reUsername_def id_char_def is_alnum_def char_in_def reShortID_def is_hex_def reB64Key_def)
qed

theorem pushed_config_understood_witness:
  "\<exists>p r. r \<in> set (nodes (tables (db_of p))) \<and> nr_reality_server_name r = ''www.example.com'' \<and>
     realitySNIFromConfig (Some (buildXrayConfig 9 (node_of_row None 9 r) (users_for_node (nr_id r) (tables (db_of p))))) = ''www.example.com'' \<and>
     active_clients 9 (nr_id r) (tables (db_of p)) = [(''alice'', ''u'')]"
proof -
  obtain p where run: "Run plain_world (\<lambda>_. toy_aead) plain_nonces (\<lambda>_. []) sample_config small_store = (Inr p, db_of p)"
    and p: "map node_ident (nodes (tables (db_of p))) = map node_ident (nodes (tables small_store))"
      "users (tables (db_of p)) = users (tables small_store)" "user_nodes (tables (db_of p)) = user_nodes (tables small_store)"
    using Run_nofault [OF small_store_ok(1,2) sample_boot(1,2), of "\<lambda>_. toy_aead" plain_nonces "\<lambda>_. []"] by blast
  have "map node_ident (nodes (tables small_store)) = [(1, ''www.example.com'')]"
    by (simp add: small_store_def sample_db_def node_ident_def)
  with p(1) obtain r where r: "r \<in> set (nodes (tables (db_of p)))" "nr_reality_server_name r = ''www.example.com''" "nr_id r = 1"
    by (cases "nodes (tables (db_of p))") (auto simp: node_ident_def)
  have "active_clients 9 1 (tables small_store) = [(''alice'', ''u'')]" unfolding small_store_def by code_simp
  then have "active_clients 9 1 (tables (db_of p)) = [(''alice'', ''u'')]"
    using p(2,3) by (simp add: active_clients_def users_for_node_def)
  with pushed_config_understood [OF run small_store_ok(3,2) rtranclp.rtrancl_refl r(1), of 9 None 9] r
  show ?thesis by (intro exI [of _ p] exI [of _ r]) (simp add: Let_def)
qed

end
