(* ===== verification/AtRest.thy ===== *)
theory AtRest
  imports Names Secrets
begin

section \<open>Secrets at rest, from the start of the panel on\<close>

text \<open>
  What the encryption pass of the start leaves is kept by everything the panel does afterwards, and so
  holds of the copies it hands out: the download and the scheduled snapshots.
\<close>

definition sealed :: "db \<Rightarrow> bool" where
  "sealed d \<longleftrightarrow> list_all (\<lambda>v. v = [] \<or> isEncrypted v) (stored_secrets d)"

subsection \<open>A pass that succeeds\<close>

text \<open>An engine failure ends a call with an error, so that a call that succeeds did what it does without failures.\<close>

definition clean :: "'a sql \<Rightarrow> bool" where
  "clean m \<longleftrightarrow> (\<forall>s x s'. m s = (Inr x, s') \<longrightarrow> m (s\<lparr>faults := []\<rparr>) = (Inr x, s'\<lparr>faults := []\<rparr>))"

lemma cleanD: "clean m \<Longrightarrow> m s = (Inr x, s') \<Longrightarrow> m (s\<lparr>faults := []\<rparr>) = (Inr x, s'\<lparr>faults := []\<rparr>)"
  by (simp add: clean_def)

lemma next_fault_reset: "next_fault s = (b, s') \<Longrightarrow> s'\<lparr>faults := []\<rparr> = s\<lparr>faults := []\<rparr>"
  by (auto simp: next_fault_def split: list.splits)

lemma query_any: "fst (query q s) \<noteq> Inl EngineErr \<Longrightarrow>
    query q (s\<lparr>faults := []\<rparr>) = (fst (query q s), snd (query q s)\<lparr>faults := []\<rparr>)"
proof -
  assume ne: "fst (query q s) \<noteq> Inl EngineErr"
  obtain b t where t: "next_fault s = (b, t)" by fastforce
  with ne have "\<not> b" by (auto simp: query_def)
  then have "query q s = (q (tables s), t)" using t next_fault_tables [OF t] by (simp add: query_def)
  moreover have "query q (s\<lparr>faults := []\<rparr>) = (q (tables s), s\<lparr>faults := []\<rparr>)"
    by (simp add: query_nofault no_faults_def)
  ultimately show ?thesis using next_fault_reset [OF t] by simp
qed

lemma exec_clean: "exec st s = (Inr x, s') \<Longrightarrow> exec st (s\<lparr>faults := []\<rparr>) = (Inr x, s'\<lparr>faults := []\<rparr>)"
proof -
  assume e: "exec st s = (Inr x, s')"
  obtain b t where t: "next_fault s = (b, t)" by fastforce
  with e have "\<not> b" "st (tables s) = Inr (tables s')" "s' = t\<lparr>tables := tables s'\<rparr>"
    using exec_tables [OF e] by (auto simp: exec_def exec_res_def split: sum.splits if_splits)
  then have "s'\<lparr>faults := []\<rparr> = s\<lparr>tables := tables s', faults := []\<rparr>"
    using next_fault_reset [OF t] by (metis store.surjective store.update_convs(1,2))
  with \<open>st (tables s) = Inr (tables s')\<close> show ?thesis by (simp add: exec_nofault no_faults_def)
qed

lemma bind_clean: "clean m \<Longrightarrow> (\<And>x. clean (f x)) \<Longrightarrow> clean (sql_bind m f)"
  unfolding clean_def sql_bind_def by (auto split: prod.splits sum.splits)

lemma rows_clean: "reencrypt_rows ups nonces i vs s = (Inr x, s') \<Longrightarrow>
    reencrypt_rows ups nonces i vs (s\<lparr>faults := []\<rparr>) = (Inr x, s'\<lparr>faults := []\<rparr>)"
proof (induction ups nonces i vs s rule: reencrypt_rows.induct)
  case (3 up ups nonces i v vs s)
  obtain r t where e: "exec (up (encrypt (crypt s) (nonces i) v)) s = (r, t)" by fastforce
  with 3 exec_clean [of _ s] show ?case by (auto split: sum.splits)
qed auto

lemma column_clean: "clean (reencryptColumn sel upd nonces)"
proof -
  let ?q = "\<lambda>d. Inr (filter (\<lambda>(i, v). needs_encryption v) (sel d)) :: sql_err + (int \<times> string) list"
  have "reencryptColumn sel upd nonces (s\<lparr>faults := []\<rparr>) = (Inr x, s'\<lparr>faults := []\<rparr>)"
    if r: "reencryptColumn sel upd nonces s = (Inr x, s')" for s x s'
  proof -
    obtain todo t where q: "query ?q s = (Inr todo, t)"
      and rows: "reencrypt_rows (map (upd \<circ> fst) todo) nonces 0 (map snd todo) t = (Inr x, s')"
      using r by (auto simp: reencryptColumn_def split: prod.splits sum.splits)
    have "query ?q (s\<lparr>faults := []\<rparr>) = (Inr todo, t\<lparr>faults := []\<rparr>)" using query_any [of ?q s] q by simp
    then show ?thesis using rows_clean [OF rows] by (simp add: reencryptColumn_def)
  qed
  then show ?thesis by (simp add: clean_def)
qed

lemma telegram_clean: "clean (reencrypt_telegram nc)"
proof -
  let ?q = "\<lambda>d. case map_of (settings d) ''telegram_token'' of None \<Rightarrow> Inl NoRows | Some v \<Rightarrow> Inr v"
  have "reencrypt_telegram nc (s\<lparr>faults := []\<rparr>) = (Inr x, s'\<lparr>faults := []\<rparr>)"
    if r: "reencrypt_telegram nc s = (Inr x, s')" for s x s'
  proof -
    obtain y t where q: "query ?q s = (y, t)" by fastforce
    with r have y: "y \<noteq> Inl EngineErr" by (auto simp: reencrypt_telegram_def)
    from query_any [of ?q s] q y have "query ?q (s\<lparr>faults := []\<rparr>) = (y, t\<lparr>faults := []\<rparr>)" by simp
    with r q show ?thesis
      using exec_clean [of _ t x s'] by (auto simp: reencrypt_telegram_def split: sum.splits sql_err.splits if_splits)
  qed
  then show ?thesis by (simp add: clean_def)
qed

lemma pass_seals:
  assumes "encryptExisting n1 n2 n3 s = (Inr u, t)" "db_ok (tables s)" "crypt s \<noteq> None"
  shows "sealed (tables t) \<and> crypt t = crypt s"
proof -
  have "clean (sql_bind (reencryptColumn sel_private_keys upd_private_key n1) (\<lambda>_.
      sql_bind (reencryptColumn sel_totp_secrets upd_totp_secret n2) (\<lambda>_. reencrypt_telegram n3)))"
    by (intro bind_clean column_clean telegram_clean)
  moreover obtain k where k: "crypt s = Some k" using assms(3) by blast
  ultimately have "encryptExisting n1 n2 n3 (s\<lparr>faults := []\<rparr>) = (Inr u, t\<lparr>faults := []\<rparr>)"
    using cleanD [of _ s u t] assms(1) by (simp add: encryptExisting_def)
  then have t: "t\<lparr>faults := []\<rparr> = s\<lparr>faults := [], tables := encrypted (crypt s) n1 n2 n3 (tables s)\<rparr>"
    using encryptExisting_nofault [of "s\<lparr>faults := []\<rparr>" n1 n2 n3] assms(2,3) by (simp add: no_faults_def encrypted_def)
  have "tables t = tables (t\<lparr>faults := []\<rparr>)" "crypt t = crypt (t\<lparr>faults := []\<rparr>)" by simp_all
  with encrypted_marked [OF assms(3)] show ?thesis unfolding t by (simp add: sealed_def)
qed

subsection \<open>Everything else\<close>

text \<open>No call changes the key.\<close>

lemma next_fault_crypt: "crypt (snd (next_fault s)) = crypt s"
  by (auto simp: next_fault_def split: list.split)

lemma exec_crypt: "crypt (snd (exec st s)) = crypt s"
  using exec_tables [of st s "fst (exec st s)" "snd (exec st s)"] by simp

lemma exec_res_crypt: "crypt (snd (exec_res st s)) = crypt s"
  using next_fault_crypt [of s] by (auto simp: exec_res_def split: prod.splits sum.splits)

lemma run_stmts_crypt: "crypt (snd (run_stmts sts s)) = crypt s"
proof (induction sts arbitrary: s)
  case (Cons st sts)
  obtain r t where "exec st s = (r, t)" by fastforce
  with Cons exec_crypt [of st s] show ?case by (cases r) auto
qed simp

lemma tx_crypt: "crypt (snd (tx sts s)) = crypt s"
proof -
  obtain a s1 where 1: "exec Inr s = (a, s1)" by fastforce
  obtain b s2 where 2: "run_stmts sts s1 = (b, s2)" by fastforce
  obtain c s3 where 3: "exec Inr s2 = (c, s3)" by fastforce
  have "crypt s1 = crypt s" "crypt s2 = crypt s1" "crypt s3 = crypt s2"
    using 1 2 3 exec_crypt [of Inr] run_stmts_crypt [of sts s1] by (metis snd_conv)+
  with 1 2 3 show ?thesis by (cases a; cases b; cases c) (simp_all add: tx_def)
qed

lemma query_crypt: "crypt (snd (query q s)) = crypt s"
  using query_tables [of q s "fst (query q s)" "snd (query q s)"] by simp

lemma rows_crypt: "crypt (snd (reencrypt_rows ups nonces i vs s)) = crypt s"
proof (induction ups nonces i vs s rule: reencrypt_rows.induct)
  case (3 up ups nonces i v vs s)
  obtain r t where e: "exec (up (encrypt (crypt s) (nonces i) v)) s = (r, t)" by fastforce
  with 3 exec_tables [OF e] show ?case by (cases r) auto
qed auto

lemma bind_crypt: "(\<And>s. crypt (snd (m s)) = crypt s) \<Longrightarrow> (\<And>x s. crypt (snd (f x s)) = crypt s) \<Longrightarrow> crypt (snd (sql_bind m f s)) = crypt s"
proof -
  assume m: "\<And>s. crypt (snd (m s)) = crypt s" and f: "\<And>x s. crypt (snd (f x s)) = crypt s"
  obtain r t where r: "m s = (r, t)" by fastforce
  with m [of s] f show ?thesis by (cases r) (simp_all add: sql_bind_def)
qed

lemma column_crypt: "crypt (snd (reencryptColumn sel upd nonces s)) = crypt s"
proof -
  let ?q = "\<lambda>d. Inr (filter (\<lambda>(i, v). needs_encryption v) (sel d)) :: sql_err + (int \<times> string) list"
  obtain r t where r: "query ?q s = (r, t)" by fastforce
  with query_crypt [of ?q s] rows_crypt show ?thesis by (cases r) (simp_all add: reencryptColumn_def)
qed

lemma telegram_crypt: "crypt (snd (reencrypt_telegram nc s)) = crypt s"
proof -
  let ?q = "\<lambda>d. case map_of (settings d) ''telegram_token'' of None \<Rightarrow> Inl NoRows | Some v \<Rightarrow> Inr v"
  obtain r t where r: "query ?q s = (r, t)" by fastforce
  with query_crypt [of ?q s] exec_crypt show ?thesis
    by (auto simp: reencrypt_telegram_def split: sum.split sql_err.split)
qed

lemma pass_crypt: "crypt (snd (encryptExisting n1 n2 n3 s)) = crypt s"
  by (simp add: encryptExisting_def bind_crypt column_crypt telegram_crypt)

lemma EnsureAdmin_crypt: "crypt (snd (EnsureAdmin u h s)) = crypt s"
proof -
  let ?q = "\<lambda>d. map_sum id ar_id (find_row (\<lambda>a. ar_username a = u) (admins d))"
  obtain r t where r: "query ?q s = (r, t)" by fastforce
  with query_crypt [of ?q s] exec_crypt show ?thesis by (auto simp: EnsureAdmin_def split: sum.split sql_err.split)
qed

lemma store_step_crypt: "crypt (store_step x s) = crypt s"
  by (cases x) (simp_all only: store_step.simps ops_at pass_crypt EnsureAdmin_crypt exec_crypt tx_crypt exec_res_crypt PurgeDevices_def)

lemma evolves_crypt: "evolves A s t \<Longrightarrow> crypt t = crypt s"
  by (induction rule: evolves.induct) (simp_all add: store_step_crypt)

lemma evolves_keeps_keyed:
  assumes "evolves A s t" "P (tables s)" "\<And>x st. A x \<Longrightarrow> st \<in> writes (crypt s) x \<Longrightarrow> keeps_stmt P st"
  shows "P (tables t)"
  using assms
proof (induction rule: evolves.induct)
  case (ev_op s s' x)
  then show ?case using store_step_keeps [of s' x P] evolves_crypt [OF ev_op(1)] by simp
qed simp_all

lemma sealed_iff: "sealed d \<longleftrightarrow> list_all (\<lambda>r. nr_reality_private_key r = [] \<or> isEncrypted (nr_reality_private_key r)) (nodes d) \<and>
    list_all (\<lambda>a. ar_totp_secret a = [] \<or> isEncrypted (ar_totp_secret a)) (admins d) \<and>
    (case map_of (settings d) ''telegram_token'' of None \<Rightarrow> True | Some v \<Rightarrow> v = [] \<or> isEncrypted v)"
  by (auto simp: sealed_def stored_secrets_def list_all_iff split: option.split)

lemma encrypt_sealed: "c \<noteq> None \<Longrightarrow> encrypt c nc v = [] \<or> isEncrypted (encrypt c nc v)"
  using encrypt_marked [of c v nc] by (cases "v = []") simp_all

text \<open>The calls of the running panel: the bot token is only ever written encrypted.\<close>

definition sealing_op :: "store_op \<Rightarrow> bool" where
  "sealing_op x \<longleftrightarrow> (case x of OSetSetting k v \<Rightarrow> k \<noteq> ''telegram_token'' | OEncryptExisting n1 n2 n3 \<Rightarrow> False | _ \<Rightarrow> True)"

lemma panel_op_sealing: "panel_op x \<Longrightarrow> sealing_op x"
  by (cases x) (auto simp: panel_op_def usage_op_def admin_surface_def admin_api_op_def api_op_def open_op_def sealing_op_def)

lemma sealed_same:
  "(\<And>d d'. st d = Inr d' \<Longrightarrow> nodes d' = nodes d \<and> settings d' = settings d \<and> admins d' = admins d) \<Longrightarrow> keeps_stmt sealed st"
  by (rule keeps_stmtI) (simp add: sealed_iff)

lemma sealed_upd:
  "(\<And>r. nr_reality_private_key (f r) = nr_reality_private_key r) \<Longrightarrow> keeps_stmt sealed (upd_node i f)"
  "keeps_stmt sealed (upd_user i g)"
  "(\<And>a. ar_totp_secret (h a) = ar_totp_secret a) \<Longrightarrow> keeps_stmt sealed (upd_admin u h)"
  by (auto simp: keeps_stmt_def sealed_iff upd_node_def upd_user_def upd_admin_def intro!: list_all_upd_where)

lemma sealed_put: "k \<noteq> ''telegram_token'' \<or> v = [] \<or> isEncrypted v \<Longrightarrow> keeps_stmt sealed (put_setting k v)"
  by (auto simp: keeps_stmt_def sealed_iff put_setting_def update_conv split: option.splits)

lemma sealed_insert_admin: "keeps_stmt sealed (insert_admin name h)"
  by (auto simp: keeps_stmt_def sealed_iff insert_admin_def split: if_splits)

lemma sealed_writes:
  assumes "sealing_op x" "st \<in> writes c x" "c \<noteq> None"
  shows "keeps_stmt sealed st"
proof (cases x)
  case (OSetAdminTOTP nc u t e)
  with assms encrypt_sealed [OF assms(3), of nc t] show ?thesis
    by (auto simp: keeps_stmt_def sealed_iff upd_admin_def intro!: list_all_upd_where)
next
  case (OCreateNode nc now n)
  with assms encrypt_sealed [OF assms(3), of nc "n_RealityPrivateKey n"] show ?thesis
    by (auto simp: keeps_stmt_def sealed_iff insert_node_def map_sum_eq_Inr split: if_splits)
next
  case (OUpdateNode nc n)
  with assms encrypt_sealed [OF assms(3), of nc "n_RealityPrivateKey n"] show ?thesis
    by (auto simp: keeps_stmt_def sealed_iff upd_node_def intro!: list_all_upd_where)
next
  case (ODeleteNode i)
  with assms(2) show ?thesis by (auto simp: keeps_stmt_def sealed_iff intro: list_all_del_where)
next
  case (ODeleteAdmin u)
  with assms(2) show ?thesis by (auto simp: keeps_stmt_def sealed_iff intro: list_all_del_where)
next
  case (OSetSecretSetting nc k v)
  with assms(2) encrypt_sealed [OF assms(3)] show ?thesis by (auto intro: sealed_put)
next
  case (OSetUserNodes i ns)
  with assms(2) show ?thesis by (auto simp: keeps_stmt_def sealed_iff insert_or_ignore_def split: if_splits)
qed (use assms in \<open>auto simp: sealing_op_def upd_seq_def sealed_upd sealed_put sealed_insert_admin
      intro!: sealed_same simp: put_device_def insert_audit_def add_node_traffic_def insert_user_def upd_sub_token_def
        upd_user_def map_sum_eq_Inr split: if_splits\<close>)

lemma sealed_evolves:
  "evolves A s t \<Longrightarrow> (\<And>x. A x \<Longrightarrow> sealing_op x) \<Longrightarrow> crypt s \<noteq> None \<Longrightarrow> sealed (tables s) \<Longrightarrow> sealed (tables t)"
  by (erule evolves_keeps_keyed) (blast intro: sealed_writes)+

lemma Run_seals:
  assumes "Run w derive ns e cfg s = (Inr p, t)" "db_ok (tables s)"
  shows "sealed (tables (db_of p)) \<and> crypt (db_of p) \<noteq> None"
proof -
  let ?s = "s\<lparr>crypt := newCrypter derive (JWTSecret cfg)\<rparr>"
  have v: "validateSecrets (w_unicode w) cfg = None" using assms(1) by (auto simp: Run_def split: option.splits)
  then have key: "crypt ?s \<noteq> None" by (auto simp: validateSecrets_def newCrypter_def split: option.splits if_splits)
  obtain x s1 where enc: "encryptExisting (nc_nodes ns) (nc_admins ns) (nc_token ns) ?s = (x, s1)" by fastforce
  obtain u where x: "x = Inr u" using assms(1) v enc by (auto simp: Run_def Let_def split: sum.splits)
  have 1: "sealed (tables s1)" "crypt s1 \<noteq> None"
    using pass_seals [OF enc [unfolded x] _ key] assms(2) key by auto
  obtain hash where h: "w_bcrypt w (AdminPass cfg) = Inr hash"
    using assms(1) v enc by (auto simp: Run_def Let_def split: sum.splits)
  obtain y s2 where adm: "EnsureAdmin (AdminUser cfg) hash s1 = (y, s2)" by fastforce
  have p: "p = start_panel e cfg s2" using assms(1) v enc h adm by (auto simp: Run_def Let_def split: sum.splits)
  have "sql_evolves sealing_op (EnsureAdmin (AdminUser cfg) hash)" by (intro evolving) (simp add: sealing_op_def)
  then have 2: "evolves sealing_op s1 s2" using adm unfolding sql_evolves_def by (metis snd_conv)
  have ev: "evolves sealing_op s1 (db_of p)" unfolding p by (rule evolves_trans [OF start_panel_evolves 2])
  show ?thesis using sealed_evolves [OF ev _ 1(2,1)] evolves_crypt [OF ev] 1(2) by simp
qed

lemma panel_sealed:
  assumes "Run w derive ns e cfg s = (Inr p0, t)" "db_ok (tables s)" "panel_step\<^sup>*\<^sup>* p0 p"
  shows "sealed (tables (db_of p))"
  using sealed_evolves [OF panel_run_evolves [OF assms(3)] panel_op_sealing] Run_seals [OF assms(1,2)] by simp

subsection \<open>What leaves the panel\<close>

lemma fold_remove_files: "set (fold (remove_file v) fs dir) \<subseteq> set dir"
proof (induction fs arbitrary: dir)
  case (Cons f fs)
  have "set (remove_file v f dir) \<subseteq> set dir" by (auto simp: remove_file_def)
  with Cons [of "remove_file v f dir"] show ?case by auto
qed simp

lemma BackupTo_result: "on_store (BackupTo b) a = (Inr d, a') \<Longrightarrow> d = tables (a_store a)"
proof -
  assume r: "on_store (BackupTo b) a = (Inr d, a')"
  obtain bad s where nf: "next_fault (a_store a) = (bad, s)" by fastforce
  with r next_fault_tables [OF nf] show ?thesis by (simp add: on_store_def BackupTo_def query_def split: if_splits)
qed

lemma snapshot_tables:
  assumes "(f, Complete d) \<in> set (fst (backup_run v dir p))"
  shows "(f, Complete d) \<in> set dir \<or> d = tables (db_of p)"
proof -
  let ?n = "snapshot_name (bk_day v)" and ?dir = "remove_file v (snapshot_name (bk_day v)) dir"
  obtain x a where x: "on_store (BackupTo (?n \<in> fst ` set ?dir)) (pn_app p) = (x, a)" by fastforce
  have rm: "set ?dir \<subseteq> set dir" using fold_remove_files [of v "[?n]" dir] by simp
  show ?thesis
  proof (cases x)
    case (Inl e)
    with assms x rm show ?thesis by (auto simp: backup_run_def Let_def split: if_splits)
  next
    case (Inr e)
    define d2 where "d2 = ?dir @ [(?n, Complete e)]"
    define gone where "gone = take (length (snapshots (map fst d2)) - nat (backupKeep p)) (snapshots (map fst d2))"
    have "fst (backup_run v dir p) = dir \<or> fst (backup_run v dir p) = d2 \<or> fst (backup_run v dir p) = fold (remove_file v) gone d2"
      using x by (simp add: backup_run_def Let_def Inr d2_def gone_def)
    moreover have "set d2 \<subseteq> insert (?n, Complete e) (set dir)" using rm by (auto simp: d2_def)
    ultimately have "set (fst (backup_run v dir p)) \<subseteq> insert (?n, Complete e) (set dir)"
      using fold_remove_files [of v gone d2] by (elim disjE) auto
    with assms BackupTo_result [OF x [unfolded Inr]] show ?thesis by auto
  qed
qed

lemma requireAuth_result:
  "fst (requireAuth w r nxt p) = unauthorized \<or>
   (\<exists>q. tables (db_of q) = tables (db_of p) \<and> fst (requireAuth w r nxt p) = fst (nxt q))"
proof (cases "\<exists>c role name epoch. Cookie r sessionCookie = Some c \<and> verifySession w (session_secret p) c = Some (role, name, epoch) \<and> role = roleAdmin")
  case False
  then show ?thesis by (auto simp: requireAuth_def peek_def reply_def split: option.split)
next
  case True
  then obtain c name epoch where c: "Cookie r sessionCookie = Some c" "verifySession w (session_secret p) c = Some (roleAdmin, name, epoch)"
    by blast
  obtain x s' where g: "GetAdmin name (db_of p) = (x, s')" by fastforce
  let ?q = "p\<lparr>pn_app := (pn_app p)\<lparr>a_store := s'\<rparr>\<rparr>"
  have "tables (db_of ?q) = tables (db_of p)" using GetAdmin_find [OF g] by simp
  moreover have "fst (requireAuth w r nxt p) \<in> {unauthorized, fst (nxt ?q)}"
    using c g by (cases x) (simp_all add: requireAuth_def peek_def reply_def db_case_def on_store_def)
  ultimately show ?thesis by blast
qed

lemma download_body:
  assumes "rs_body (fst (handleBackup w b q)) = SnapshotBody d"
  shows "d = tables (db_of q)"
proof -
  obtain x a where x: "on_store (BackupTo False) (pn_app q) = (x, a)" by fastforce
  show ?thesis
    using assms x BackupTo_result [of False "pn_app q" _ a]
    by (cases x) (auto simp: handleBackup_def db_case_def reply_def writeErr_def writeJSON_def split: option.splits)
qed

lemma download_tables:
  assumes "rs_body (fst (serve w v r (Settings (GetBackup b)) p)) = SnapshotBody d"
  shows "d = tables (db_of p)"
proof -
  have "rs_body (fst (requireAuth w r (handleBackup w b) p)) = SnapshotBody d"
    using assms by (simp add: serve_def securityHeaders_def route_def settings_handler_def split: prod.splits)
  with requireAuth_result [of w r "handleBackup w b" p] show ?thesis
    by (auto simp: unauthorized_def httpError_def dest: download_body)
qed

text \<open>
  C12. No secret leaves in the clear. From a start of the panel on any sound database, plaintext of an
  older version or not, through any requests, chat commands, node messages and timers, whichever
  statements fail: every node key, second-factor secret and bot token in the file is empty or
  ciphertext, and so is every one in a downloaded copy and in every snapshot the panel writes.
\<close>
theorem secrets_stay_sealed:
  assumes "Run w derive ns e cfg s = (Inr p0, t)" "db_ok (tables s)" "panel_step\<^sup>*\<^sup>* p0 p"
  shows "sealed (tables (db_of p)) \<and>
    (\<forall>d. rs_body (fst (serve w' v r (Settings (GetBackup b)) p)) = SnapshotBody d \<longrightarrow> sealed d) \<and>
    (\<forall>f d. (f, Complete d) \<in> set (fst (backup_run bv dir p)) \<longrightarrow> (f, Complete d) \<in> set dir \<or> sealed d)"
proof (intro conjI allI impI)
  show s: "sealed (tables (db_of p))" by (rule panel_sealed [OF assms])
  show "sealed d" if "rs_body (fst (serve w' v r (Settings (GetBackup b)) p)) = SnapshotBody d" for d
    using download_tables [OF that] s by simp
  show "(f, Complete d) \<in> set dir \<or> sealed d" if "(f, Complete d) \<in> set (fst (backup_run bv dir p))" for f d
    using snapshot_tables [OF that] s by auto
qed

text \<open>A second-factor secret in the clear, written before the panel had a key.\<close>

definition old_store :: store where
  "old_store = \<lparr>tables = empty_db\<lparr>admins := [root_row\<lparr>ar_totp_secret := ''JBSWY3DP''\<rparr>], seq_admins := 1\<rparr>, faults = [], crypt = None\<rparr>"

theorem secrets_stay_sealed_witness:
  "\<not> sealed (tables old_store) \<and>
   (\<exists>p. Run plain_world (\<lambda>_. toy_aead) plain_nonces (\<lambda>_. []) sample_config old_store = (Inr p, db_of p) \<and> sealed (tables (db_of p)))"
proof -
  have ok: "no_faults old_store" "db_ok (tables old_store)" by (simp_all add: old_store_def no_faults_def) code_simp
  obtain p where run: "Run plain_world (\<lambda>_. toy_aead) plain_nonces (\<lambda>_. []) sample_config old_store = (Inr p, db_of p)"
    using Run_nofault [OF ok sample_boot(1,2), of "\<lambda>_. toy_aead" plain_nonces "\<lambda>_. []"] by blast
  have "\<not> sealed (tables old_store)"
    by (simp add: sealed_iff old_store_def empty_db_def root_row_def isEncrypted_def encPrefix_def)
  with run secrets_stay_sealed [OF run ok(2) rtranclp.rtrancl_refl] show ?thesis by blast
qed

end
