(* ===== verification/TwoFactor.thy ===== *)
theory TwoFactor
  imports AtRest
begin

section \<open>The second factor of an account (internal/panel/twofa.go)\<close>

text \<open>
  What can turn an enabled second factor off while the panel runs: deleting the account, or a disable
  request of a session of the account with a current code. The handler asks for the code so that a
  stolen session is not enough; a second theorem shows that it is, because the same session may
  download the secret.
\<close>

subsection \<open>The account behind a request\<close>

lemma currentAdmin_result:
  assumes "currentAdmin w r p = (who, q)"
  shows "tables (db_of q) = tables (db_of p)" "crypt (db_of q) = crypt (db_of p)" "pn_cfg q = pn_cfg p"
    and "who = Some adm \<Longrightarrow> \<exists>c epoch a. Cookie r sessionCookie = Some c \<and>
      verifySession w (session_secret p) c = Some (roleAdmin, ar_username a, epoch) \<and> adm = admin_of_row (crypt (db_of p)) a \<and>
      List.find (\<lambda>x. ar_username x = ar_username a) (admins (tables (db_of p))) = Some a \<and> ar_session_epoch a = epoch"
proof -
  have all: "tables (db_of q) = tables (db_of p) \<and> crypt (db_of q) = crypt (db_of p) \<and> pn_cfg q = pn_cfg p \<and>
    (\<forall>adm. who = Some adm \<longrightarrow> (\<exists>c epoch a. Cookie r sessionCookie = Some c \<and>
      verifySession w (session_secret p) c = Some (roleAdmin, ar_username a, epoch) \<and> adm = admin_of_row (crypt (db_of p)) a \<and>
      List.find (\<lambda>x. ar_username x = ar_username a) (admins (tables (db_of p))) = Some a \<and> ar_session_epoch a = epoch))"
  proof (cases "\<exists>c role name epoch. Cookie r sessionCookie = Some c \<and> verifySession w (session_secret p) c = Some (role, name, epoch) \<and> role = roleAdmin")
    case False
    with assms show ?thesis by (auto simp: currentAdmin_def peek_def give_def split: option.splits if_splits)
  next
    case True
    then obtain c name epoch where c: "Cookie r sessionCookie = Some c" "verifySession w (session_secret p) c = Some (roleAdmin, name, epoch)"
      by blast
    obtain x s' where g: "GetAdmin name (db_of p) = (x, s')" by fastforce
    note row = GetAdmin_find [OF g]
    show ?thesis
    proof (cases x)
      case (Inl e)
      with assms c g row show ?thesis by (auto simp: currentAdmin_def peek_def give_def db_case_def on_store_def)
    next
      case (Inr adm)
      with row obtain a where a: "List.find (\<lambda>a. ar_username a = name) (admins (tables (db_of p))) = Some a"
        "adm = admin_of_row (crypt (db_of p)) a" by blast
      note n = find_name [OF a(1)]
      have who: "who = (if ar_session_epoch a \<noteq> epoch then None else Some adm)"
        "q = p\<lparr>pn_app := (pn_app p)\<lparr>a_store := s'\<rparr>\<rparr>"
        using assms c g Inr a(2)
        by (auto simp: currentAdmin_def peek_def give_def db_case_def on_store_def admin_of_row_def)
      show ?thesis
      proof (intro conjI allI impI)
        fix adm' assume "who = Some adm'"
        with who have e: "ar_session_epoch a = epoch" "adm' = adm" by (auto split: if_splits)
        show "\<exists>c epoch a. Cookie r sessionCookie = Some c \<and>
          verifySession w (session_secret p) c = Some (roleAdmin, ar_username a, epoch) \<and> adm' = admin_of_row (crypt (db_of p)) a \<and>
          List.find (\<lambda>x. ar_username x = ar_username a) (admins (tables (db_of p))) = Some a \<and> ar_session_epoch a = epoch"
          using c a n e by blast
      qed (use who row in simp_all)
    qed
  qed
  then show "tables (db_of q) = tables (db_of p)" "crypt (db_of q) = crypt (db_of p)" "pn_cfg q = pn_cfg p" by simp_all
  from all show "who = Some adm \<Longrightarrow> \<exists>c epoch a. Cookie r sessionCookie = Some c \<and>
      verifySession w (session_secret p) c = Some (roleAdmin, ar_username a, epoch) \<and> adm = admin_of_row (crypt (db_of p)) a \<and>
      List.find (\<lambda>x. ar_username x = ar_username a) (admins (tables (db_of p))) = Some a \<and> ar_session_epoch a = epoch" by blast
qed

lemma requireAuth_run:
  obtains q where "tables (db_of q) = tables (db_of p)" "crypt (db_of q) = crypt (db_of p)" "pn_cfg q = pn_cfg p"
    "requireAuth w r nxt p = (unauthorized, q) \<or> requireAuth w r nxt p = nxt q"
proof (cases "\<exists>c role name epoch. Cookie r sessionCookie = Some c \<and> verifySession w (session_secret p) c = Some (role, name, epoch) \<and> role = roleAdmin")
  case False
  show thesis
    by (rule that [of p]) (use False in \<open>auto simp: requireAuth_def peek_def reply_def split: option.split\<close>)
next
  case True
  then obtain c name epoch where c: "Cookie r sessionCookie = Some c" "verifySession w (session_secret p) c = Some (roleAdmin, name, epoch)"
    by blast
  obtain x s' where g: "GetAdmin name (db_of p) = (x, s')" by fastforce
  show thesis
    by (rule that [of "p\<lparr>pn_app := (pn_app p)\<lparr>a_store := s'\<rparr>\<rparr>"])
       (use GetAdmin_find [OF g] c g in \<open>cases x; simp add: requireAuth_def peek_def reply_def db_case_def on_store_def\<close>)+
qed

subsection \<open>What leaves a second factor enabled\<close>

definition enrolled :: "string \<Rightarrow> string \<Rightarrow> store \<Rightarrow> bool" where
  "enrolled name sec s \<longleftrightarrow> (case List.find (\<lambda>a. ar_username a = name) (admins (tables s)) of None \<Rightarrow> False
     | Some a \<Rightarrow> ar_totp_enabled a \<and> decrypt (crypt s) (ar_totp_secret a) = sec)"

definition enrolled_in :: "crypter \<Rightarrow> string \<Rightarrow> string \<Rightarrow> db \<Rightarrow> bool" where
  "enrolled_in c name sec d \<longleftrightarrow> (\<exists>a. List.find (\<lambda>a. ar_username a = name) (admins d) = Some a \<and>
     ar_totp_enabled a \<and> decrypt c (ar_totp_secret a) = sec)"

lemma enrolled_iff: "enrolled name sec s \<longleftrightarrow> enrolled_in (crypt s) name sec (tables s)"
  by (auto simp: enrolled_def enrolled_in_def split: option.split)

definition sparing_op :: "crypter \<Rightarrow> string \<Rightarrow> string \<Rightarrow> store_op \<Rightarrow> bool" where
  "sparing_op c name sec x \<longleftrightarrow> (case x of
       ODeleteAdmin u \<Rightarrow> u \<noteq> name
     | OSetAdminTOTP nc u t e \<Rightarrow> u \<noteq> name \<or> (e \<and> t = sec \<and> decrypt c (encrypt c nc sec) = sec)
     | OEncryptExisting n1 n2 n3 \<Rightarrow> False | _ \<Rightarrow> True)"

lemma find_upd_admin:
  "(\<And>a. ar_username (f a) = ar_username a) \<Longrightarrow> List.find (\<lambda>a. ar_username a = name) (upd_where (\<lambda>a. ar_username a = u) f as) =
     map_option (\<lambda>a. if u = name then f a else a) (List.find (\<lambda>a. ar_username a = name) as)"
  by (induction as) (auto simp: upd_where_def)

lemma enrolled_upd:
  assumes "\<And>a. ar_username (f a) = ar_username a"
    and "\<And>a. u = name \<Longrightarrow> ar_totp_enabled a \<Longrightarrow> decrypt c (ar_totp_secret a) = sec \<Longrightarrow>
      ar_totp_enabled (f a) \<and> decrypt c (ar_totp_secret (f a)) = sec"
  shows "keeps_stmt (enrolled_in c name sec) (upd_admin u f)"
proof (rule keeps_stmtI)
  fix d d' assume "enrolled_in c name sec d" "upd_admin u f d = Inr d'"
  then obtain a where a: "List.find (\<lambda>a. ar_username a = name) (admins d) = Some a" "ar_totp_enabled a"
    "decrypt c (ar_totp_secret a) = sec" "admins d' = upd_where (\<lambda>a. ar_username a = u) f (admins d)"
    by (auto simp: enrolled_in_def upd_admin_def)
  have "List.find (\<lambda>a. ar_username a = name) (admins d') = Some (if u = name then f a else a)"
    using a(1) by (simp only: a(4) find_upd_admin [OF assms(1)] option.map)
  with a(2,3) assms(2) [of a] show "enrolled_in c name sec d'" by (auto simp: enrolled_in_def)
qed

lemma find_del_admin:
  "u \<noteq> name \<Longrightarrow> List.find (\<lambda>a. ar_username a = name) (del_where (\<lambda>a. ar_username a = u) as) = List.find (\<lambda>a. ar_username a = name) as"
  by (induction as) (auto simp: del_where_def)

lemma sparing_writes:
  assumes "sparing_op c name sec x" "st \<in> writes c x"
  shows "keeps_stmt (enrolled_in c name sec) st"
proof (cases "admin_op x")
  case False
  from other_op_admins [OF False assms(2)] show ?thesis by (simp add: keeps_stmt_def enrolled_in_def)
next
  case True
  have ins: "keeps_stmt (enrolled_in c name sec) (insert_admin u h)" for u h
    by (auto simp: keeps_stmt_def enrolled_in_def insert_admin_def find_append split: if_splits option.splits)
  have del: "keeps_stmt (enrolled_in c name sec) (\<lambda>d. Inr (d\<lparr>admins := del_where (\<lambda>a. ar_username a = u) (admins d)\<rparr>))" if "u \<noteq> name" for u
    using that by (auto simp: keeps_stmt_def enrolled_in_def find_del_admin)
  show ?thesis
    using True assms ins del
    by (cases x) (auto simp: sparing_op_def intro!: enrolled_upd)
qed

lemma sparing_kept: "evolves (sparing_op (crypt s) name sec) s t \<Longrightarrow> enrolled name sec s \<Longrightarrow> enrolled name sec t"
  using evolves_keeps_keyed [of "sparing_op (crypt s) name sec" s t "enrolled_in (crypt s) name sec"] evolves_crypt
  by (metis enrolled_iff sparing_writes)

lemma sparing_ops:
  "usage_op x \<Longrightarrow> sparing_op c name sec x" "api_op w x \<Longrightarrow> sparing_op c name sec x" "open_op who x \<Longrightarrow> sparing_op c name sec x"
  by (cases x; simp add: usage_op_def api_op_def open_op_def sparing_op_def)+

subsection \<open>Requests\<close>

text \<open>The requests that may turn off the second factor \<open>sec\<close> of the account \<open>name\<close>.\<close>

definition session_of :: "world \<Rightarrow> request \<Rightarrow> panel \<Rightarrow> string \<Rightarrow> bool" where
  "session_of w r p name \<longleftrightarrow> (case Cookie r sessionCookie of None \<Rightarrow> False
     | Some c \<Rightarrow> (case verifySession w (session_secret p) c of None \<Rightarrow> False
       | Some (role, n, epoch) \<Rightarrow> role = roleAdmin \<and> n = name \<and>
           list_ex (\<lambda>a. ar_username a = name \<and> ar_session_epoch a = epoch) (admins (tables (db_of p)))))"

definition given_code :: "string option \<Rightarrow> string" where
  "given_code b = (case b of None \<Rightarrow> [] | Some code \<Rightarrow> code)"

fun turns_off :: "world \<Rightarrow> request \<Rightarrow> endpoint \<Rightarrow> string \<Rightarrow> string \<Rightarrow> panel \<Rightarrow> bool" where
  "turns_off w r (Account DelAdmin) name sec p \<longleftrightarrow> PathValue r ''username'' = name"
| "turns_off w r (Account (Post2FADisable b)) name sec p \<longleftrightarrow> session_of w r p name \<and> totpVerify w sec (given_code b)"
| "turns_off w r (Account (Post2FAVerify b)) name sec p \<longleftrightarrow>
     session_of w r p name \<and> decrypt (crypt (db_of p)) (encrypt (crypt (db_of p)) (nonce w) sec) \<noteq> sec"
| "turns_off w r _ name sec p \<longleftrightarrow> False"

lemma sparing_handlers:
  "confined (sparing_op c name sec) (handleCreateAdmin w r b1)"
  "confined (sparing_op c name sec) (handleChangeAdminPassword w r b2)"
  "confined (sparing_op c name sec) (handlePutSettings w r b3)" "confined (sparing_op c name sec) (handleNotifySettings w r b4)"
  "confined (sparing_op c name sec) (handleLogoutAll w r)"
  unfolding handleCreateAdmin_def handleChangeAdminPassword_def handlePutSettings_def handleNotifySettings_def Let_def
  by ((intro evolving; simp add: sparing_op_def) | (rule handleLogoutAll_confined, simp add: sparing_op_def))+

lemma sparing_delete: "PathValue r ''username'' \<noteq> name \<Longrightarrow> confined (sparing_op c name sec) (handleDeleteAdmin w r)"
  unfolding handleDeleteAdmin_def Let_def by (intro evolving; simp add: sparing_op_def)

text \<open>The three handlers of the enrolment, given the account they found.\<close>

definition setup_for :: "world \<Rightarrow> admin \<Rightarrow> handler" where
  "setup_for w adm = (if adm_TOTPEnabled adm then reply (writeErr 400 ''2fa already enabled; disable it first'')
     else let secret = newTOTPSecret (w_draw w 0 20) in
       db_case (SetAdminTOTP (nonce w) (adm_Username adm) secret False) (fail500 w) (\<lambda>x.
         reply (writeJSON 200 (jobj [(''secret'', JStr secret),
           (''otpauth_url'', JStr (otpauthURL ''Xuanwu'' (adm_Username adm) secret))]))))"

definition verify_for :: "world \<Rightarrow> request \<Rightarrow> string option \<Rightarrow> admin \<Rightarrow> handler" where
  "verify_for w r b adm = (case b of None \<Rightarrow> reply bad_body
     | Some code \<Rightarrow>
         if adm_TOTPSecret adm = [] \<or> \<not> totpVerify w (adm_TOTPSecret adm) code then reply (writeErr 400 ''invalid code'')
         else db_case (SetAdminTOTP (nonce w) (adm_Username adm) (adm_TOTPSecret adm) True) (fail500 w) (\<lambda>x.
           seq (audit w r ''2fa.enable'' (adm_Username adm)) (reply (writeJSON 200 (jobj [(''enabled'', JBool True)])))))"

definition disable_for :: "world \<Rightarrow> request \<Rightarrow> string option \<Rightarrow> admin \<Rightarrow> handler" where
  "disable_for w r b adm =
     (if adm_TOTPEnabled adm \<and> \<not> totpVerify w (adm_TOTPSecret adm) (given_code b) then reply (writeErr 400 ''invalid code'')
      else db_case (SetAdminTOTP (nonce w) (adm_Username adm) [] False) (fail500 w) (\<lambda>x.
        seq (audit w r ''2fa.disable'' (adm_Username adm)) (reply (writeJSON 200 (jobj [(''enabled'', JBool False)])))))"

lemma enrolment_handlers:
  "handle2FASetup w r = as_admin w r (setup_for w)" "handle2FAVerify w r b = as_admin w r (verify_for w r b)"
  "handle2FADisable w r b = as_admin w r (disable_for w r b)"
  unfolding handle2FASetup_def setup_for_def [abs_def] handle2FAVerify_def verify_for_def [abs_def] handle2FADisable_def
    disable_for_def [abs_def] given_code_def Let_def by (rule refl)+

lemma sparing_enrolment:
  "(adm_Username adm = name \<Longrightarrow> adm_TOTPEnabled adm) \<Longrightarrow> confined (sparing_op c name sec) (setup_for w adm)"
  "(adm_Username adm = name \<Longrightarrow> adm_TOTPSecret adm = sec \<and> decrypt c (encrypt c (nonce w) sec) = sec) \<Longrightarrow>
     confined (sparing_op c name sec) (verify_for w r b adm)"
  "(adm_Username adm = name \<Longrightarrow> adm_TOTPEnabled adm \<and> \<not> totpVerify w (adm_TOTPSecret adm) (given_code b)) \<Longrightarrow>
     confined (sparing_op c name sec) (disable_for w r b adm)"
  unfolding setup_for_def verify_for_def disable_for_def Let_def
  by (intro evolving; auto simp: sparing_op_def)+

text \<open>Behind \<open>requireAuth\<close> and \<open>as_admin\<close> an enrolled account stays so if it does for the account found.\<close>

lemma as_admin_enrolled:
  assumes p: "enrolled name sec (db_of p)"
    and h: "\<And>adm. adm_Username adm = name \<Longrightarrow> session_of w r p name \<Longrightarrow> adm_TOTPEnabled adm \<Longrightarrow> adm_TOTPSecret adm = sec \<Longrightarrow>
        confined (sparing_op (crypt (db_of p)) name sec) (h adm)"
    and h': "\<And>adm. adm_Username adm \<noteq> name \<Longrightarrow> confined (sparing_op (crypt (db_of p)) name sec) (h adm)"
  shows "enrolled name sec (db_of (snd (requireAuth w r (as_admin w r h) p)))"
proof (rule requireAuth_run [of p w r "as_admin w r h"])
  fix q assume q: "tables (db_of q) = tables (db_of p)" "crypt (db_of q) = crypt (db_of p)" "pn_cfg q = pn_cfg p"
    "requireAuth w r (as_admin w r h) p = (unauthorized, q) \<or> requireAuth w r (as_admin w r h) p = as_admin w r h q"
  have same: "enrolled name sec (db_of q')" if "tables (db_of q') = tables (db_of q)" "crypt (db_of q') = crypt (db_of q)" for q'
    using p q(1,2) that by (simp add: enrolled_iff)
  obtain who q' where who: "currentAdmin w r q = (who, q')" by fastforce
  note res = currentAdmin_result [OF who]
  have "enrolled name sec (db_of (snd (as_admin w r h q)))"
  proof (cases who)
    case None
    with who same res(1,2) show ?thesis by (simp add: as_admin_def ask_def reply_def)
  next
    case (Some adm)
    from res(4) [OF Some] obtain c epoch a where a: "Cookie r sessionCookie = Some c"
      "verifySession w (session_secret q) c = Some (roleAdmin, ar_username a, epoch)" "adm = admin_of_row (crypt (db_of q)) a"
      "List.find (\<lambda>x. ar_username x = ar_username a) (admins (tables (db_of q))) = Some a" "ar_session_epoch a = epoch" by blast
    have "session_of w r p (ar_username a)"
      using a q(1,3) find_name [OF a(4)] by (auto simp: session_of_def session_secret_def list_ex_iff)
    moreover have "ar_totp_enabled a \<and> decrypt (crypt (db_of q)) (ar_totp_secret a) = sec" if "ar_username a = name"
      using p q(1,2) a(4) that by (simp add: enrolled_def)
    ultimately have "confined (sparing_op (crypt (db_of p)) name sec) (h adm)"
      using h [of adm] h' [of adm] a(3) by (cases "ar_username a = name") (simp_all add: admin_of_row_def)
    then have "evolves (sparing_op (crypt (db_of q')) name sec) (db_of q') (db_of (snd (h adm q')))"
      using res(2) q(2) by (simp add: confinedD)
    from sparing_kept [OF this same [OF res(1,2)]] show ?thesis using who Some by (simp add: as_admin_def ask_def)
  qed
  with q(4) same [OF refl refl] show ?thesis by auto
qed

lemma request_enrolled:
  assumes "enrolled name sec (db_of p)" "\<not> turns_off w r ep name sec p"
  shows "enrolled name sec (db_of (snd (serve w v r ep p)))"
proof -
  let ?A = "sparing_op (crypt (db_of p)) name sec"
  have conf: "enrolled name sec (db_of (snd (route w v r ep p)))" if "confined ?A (route w v r ep)"
    by (rule sparing_kept [OF confinedD [OF that] assms(1)])
  note users = api_handlers_confined [THEN confined_weaken, OF sparing_ops(2)]
  have "enrolled name sec (db_of (snd (route w v r ep p)))"
  proof (cases ep)
    case (Open_to_all e)
    have "evolves ?A (db_of p) (db_of (snd (open_handler w r e p)))"
      by (rule evolves_mono [OF open_surface sparing_ops(3)])
    from sparing_kept [OF this assms(1)] show ?thesis by (simp add: Open_to_all route_def)
  next
    case (Nodes e)
    then show ?thesis
      by (intro conf) (simp add: route_def requireAuth_confined node_handler_def users read_handlers_confined split: node_endpoint.split)
  next
    case (Users e)
    then show ?thesis
      by (intro conf) (simp add: route_def requireAuth_confined user_handler_def users read_handlers_confined split: user_endpoint.split)
  next
    case (Settings e)
    then show ?thesis
      by (intro conf) (simp add: route_def requireAuth_confined settings_handler_def sparing_handlers lists_confined handleBackup_confined
          split: settings_endpoint.split)
  next
    case (Account e)
    show ?thesis
    proof (cases e)
      case Post2FASetup
      have "enrolled name sec (db_of (snd (requireAuth w r (as_admin w r (setup_for w)) p)))"
        by (intro as_admin_enrolled [OF assms(1)] sparing_enrolment) auto
      then show ?thesis by (simp add: Account Post2FASetup route_def account_handler_def enrolment_handlers)
    next
      case (Post2FAVerify b)
      have "enrolled name sec (db_of (snd (requireAuth w r (as_admin w r (verify_for w r b)) p)))"
        using assms(2) by (intro as_admin_enrolled [OF assms(1)] sparing_enrolment) (auto simp: Account Post2FAVerify)
      then show ?thesis by (simp add: Account Post2FAVerify route_def account_handler_def enrolment_handlers)
    next
      case (Post2FADisable b)
      have "enrolled name sec (db_of (snd (requireAuth w r (as_admin w r (disable_for w r b)) p)))"
        using assms(2) by (intro as_admin_enrolled [OF assms(1)] sparing_enrolment) (auto simp: Account Post2FADisable)
      then show ?thesis by (simp add: Account Post2FADisable route_def account_handler_def enrolment_handlers)
    next
      case DelAdmin
      with assms(2) Account have "PathValue r ''username'' \<noteq> name" by simp
      then show ?thesis
        by (intro conf) (simp add: Account DelAdmin route_def requireAuth_confined account_handler_def sparing_delete)
    qed (rule conf, simp add: Account route_def requireAuth_confined account_handler_def sparing_handlers lists_confined portal_confined)+
  qed
  then show ?thesis by simp
qed

lemma step_enrolled:
  assumes "panel_step p q" "enrolled name sec (db_of p)"
    and "\<And>w v r ep. q = snd (serve w v r ep p) \<Longrightarrow> \<not> turns_off w r ep name sec p"
  shows "enrolled name sec (db_of q)"
  using assms
proof (induction rule: panel_step.induct)
  case (Request p w v r ep)
  then show ?case using request_enrolled by blast
next
  case (Chat p w us offset)
  have "evolves (sparing_op (crypt (db_of p)) name sec) (db_of p) (db_of (snd (botUpdates w us offset p)))"
    by (rule botUpdates_confined [OF sparing_ops(2)])
  then show ?case using Chat.prems(1) by (rule sparing_kept)
next
  case (Snapshot p dir made v files)
  show ?case by (rule sparing_kept [OF backupLoop_evolves Snapshot.prems(1)])
qed (simp_all add: sparing_kept [OF evolves_mono [OF handleWS_evolves sparing_ops(1)]] sparing_kept [OF evolves_mono [OF readMsg_evolves sparing_ops(1)]]
    sparing_kept [OF evolves_mono [OF timers_evolve(1) sparing_ops(1)]] sparing_kept [OF evolves_mono [OF timers_evolve(2) sparing_ops(1)]]
    sparing_kept [OF evolves_mono [OF timers_evolve(3) sparing_ops(1)]] sparing_kept [OF evolves_mono [OF timers_evolve(4) sparing_ops(1)]])

lemma run_enrolled:
  assumes "panel_step\<^sup>*\<^sup>* p q" "enrolled name sec (db_of p)" "\<not> enrolled name sec (db_of q)"
  shows "\<exists>p' w v r ep. panel_step\<^sup>*\<^sup>* p p' \<and> enrolled name sec (db_of p') \<and> turns_off w r ep name sec p' \<and>
     panel_step\<^sup>*\<^sup>* (snd (serve w v r ep p')) q"
  using assms(1,3)
proof (induction rule: rtranclp_induct)
  case (step y z)
  show ?case
  proof (cases "enrolled name sec (db_of y)")
    case True
    with step_enrolled [OF step.hyps(2) True] step.prems obtain w v r ep where
      "z = snd (serve w v r ep y)" "turns_off w r ep name sec y" by blast
    with True step.hyps(1) show ?thesis by blast
  next
    case False
    from step.IH [OF this] step.hyps(2) show ?thesis by (meson rtranclp.rtrancl_into_rtrancl)
  qed
qed (use assms(2) in simp)

subsection \<open>A session that turns it off\<close>

text \<open>An account of the database with its second factor on, and a live session of it.\<close>

definition signed_in :: "world \<Rightarrow> request \<Rightarrow> panel \<Rightarrow> admin_row \<Rightarrow> bool" where
  "signed_in w r p a \<longleftrightarrow> List.find (\<lambda>x. ar_username x = ar_username a) (admins (tables (db_of p))) = Some a \<and>
     (case Cookie r sessionCookie of None \<Rightarrow> False
      | Some c \<Rightarrow> verifySession w (session_secret p) c = Some (roleAdmin, ar_username a, ar_session_epoch a))"

lemma signed_in_passes:
  assumes "no_faults (db_of p)" "signed_in w r p a"
  shows "requireAuth w r nxt p = nxt p" "currentAdmin w r p = (Some (admin_of_row (crypt (db_of p)) a), p)"
proof -
  from assms(2) obtain c where c: "Cookie r sessionCookie = Some c"
    "verifySession w (session_secret p) c = Some (roleAdmin, ar_username a, ar_session_epoch a)"
    "List.find (\<lambda>x. ar_username x = ar_username a) (admins (tables (db_of p))) = Some a"
    by (auto simp: signed_in_def split: option.splits)
  have g: "GetAdmin (ar_username a) (db_of p) = (Inr (admin_of_row (crypt (db_of p)) a), db_of p)"
    by (simp add: GetAdmin_nofault [OF assms(1)] c(3))
  show "requireAuth w r nxt p = nxt p" "currentAdmin w r p = (Some (admin_of_row (crypt (db_of p)) a), p)"
    by (simp_all add: requireAuth_def currentAdmin_def peek_def db_case_def on_store_def g give_def c(1,2))
      (simp_all add: admin_of_row_def)
qed

lemma qr_served:
  assumes "no_faults (db_of p)" "signed_in w r p a" "decrypt (crypt (db_of p)) (ar_totp_secret a) \<noteq> []"
    and "w_qr w (otpauthURL ''Xuanwu'' (ar_username a) (decrypt (crypt (db_of p)) (ar_totp_secret a)))"
  shows "rs_body (fst (serve w v r (Account Get2FAQR) p)) =
      PngBody (otpauthURL ''Xuanwu'' (ar_username a) (decrypt (crypt (db_of p)) (ar_totp_secret a)))"
    and "snd (serve w v r (Account Get2FAQR) p) = p"
  using assms
  by (simp_all add: serve_def securityHeaders_def route_def account_handler_def signed_in_passes handle2FAQR_def ask_def
      admin_of_row_def reply_def png_def)

lemma code_verifies: "totpCode w sec (w_now w) = Some code \<Longrightarrow> totpVerify w sec code"
proof -
  assume c: "totpCode w sec (w_now w) = Some code"
  then obtain mac where "code = pad_left 6 (FormatInt (int (unat (truncate31 mac))))"
    by (auto simp: totpCode_def split: option.splits)
  with code_shape [OF truncate31_less [of mac]] have "length code = 6" "TrimSpace code = code" by simp_all
  with c show ?thesis by (simp add: totpVerify_def)
qed

lemma disable_served:
  assumes "no_faults (db_of p)" "signed_in w r p a"
    and "totpCode w (decrypt (crypt (db_of p)) (ar_totp_secret a)) (w_now w) = Some code"
  shows "rs_code (fst (serve w v r (Account (Post2FADisable (Some code))) p)) = 200"
    and "\<not> enrolled (ar_username a) sec (db_of (snd (serve w v r (Account (Post2FADisable (Some code))) p)))"
proof -
  let ?adm = "admin_of_row (crypt (db_of p)) a"
  let ?f = "\<lambda>b. b\<lparr>ar_totp_secret := encrypt (crypt (db_of p)) (nonce w) [], ar_totp_enabled := False\<rparr>"
  let ?d = "(tables (db_of p))\<lparr>admins := upd_where (\<lambda>b. ar_username b = ar_username a) ?f (admins (tables (db_of p)))\<rparr>"
  let ?q = "p\<lparr>pn_app := (pn_app p)\<lparr>a_store := (db_of p)\<lparr>tables := ?d\<rparr>\<rparr>\<rparr>"
  have set: "SetAdminTOTP (nonce w) (ar_username a) [] False (db_of p) = (Inr (), (db_of p)\<lparr>tables := ?d\<rparr>)"
    using assms(1) by (simp add: SetAdminTOTP_def exec_nofault upd_admin_def)
  have run: "route w v r (Account (Post2FADisable (Some code))) p =
      (writeJSON 200 (jobj [(''enabled'', JBool False)]), audit w r ''2fa.disable'' (ar_username a) ?q)"
    using signed_in_passes [OF assms(1,2)] code_verifies [OF assms(3)] set
    by (simp add: route_def account_handler_def enrolment_handlers as_admin_def ask_def disable_for_def given_code_def
        admin_of_row_def db_case_def on_store_def seq_def reply_def)
  have "List.find (\<lambda>b. ar_username b = ar_username a) (admins ?d) = Some (?f a)"
    using assms(2) find_upd_where [of ?f "ar_username a" "admins (tables (db_of p))"] by (simp add: signed_in_def)
  moreover have "admins (tables (db_of (audit w r ''2fa.disable'' (ar_username a) ?q))) = admins ?d"
  proof -
    let ?A = "\<lambda>x. \<exists>t u v w. x = OAddAudit t u v w"
    have "confined_upd ?A (audit w r ''2fa.disable'' (ar_username a))" by (rule audit_confined) blast
    then have "evolves ?A (db_of ?q) (db_of (audit w r ''2fa.disable'' (ar_username a) ?q))" by (simp only: confined_upd_def)
    then have "admins (tables (db_of (audit w r ''2fa.disable'' (ar_username a) ?q))) = admins (tables (db_of ?q))"
      by (rule evolves_keeps_writes [where P = "\<lambda>d. admins d = admins (tables (db_of ?q))"]) (auto simp: keeps_stmt_def insert_audit_def)
    then show ?thesis by simp
  qed
  ultimately show "\<not> enrolled (ar_username a) sec (db_of (snd (serve w v r (Account (Post2FADisable (Some code))) p)))"
    by (simp add: run enrolled_def)
  show "rs_code (fst (serve w v r (Account (Post2FADisable (Some code))) p)) = 200"
    by (simp add: serve_def securityHeaders_def run writeJSON_def)
qed

subsection \<open>A changed panel secret\<close>

text \<open>The code of the empty secret: a function of the clock alone.\<close>

definition clock_code :: "world \<Rightarrow> string" where
  "clock_code w = pad_left 6 (FormatInt (int (unat (truncate31 (w_hmac1 w [] (be64 (totp_counter (w_now w))))))))"

lemma totpCode_empty: "totpCode w [] (w_now w) = Some (clock_code w)"
proof -
  have "b32decode [] = Some []" by (simp add: b32decode_def)
  then show ?thesis by (simp add: totpCode_def clock_code_def TrimSpace_def trim_by_def ToUpper_def)
qed

lemma other_key:
  assumes "sec \<noteq> []" "\<not> isEncrypted sec" "NonceSize k = length nc" "Open k nc (Seal k' nc sec) = None"
  shows "decrypt (Some k) (encrypt (Some k') nc sec) = []"
  using assms by (simp add: encrypt_def decrypt_def)

lemma empty_secret_signs_in:
  assumes "no_faults (db_of p)" "pn_lim p = newLimiter m t" "List.find (\<lambda>a. ar_username a = name) (admins (tables (db_of p))) = Some a"
    and "decrypt (crypt (db_of p)) (ar_totp_secret a) = []" "w_compare w (ar_password_hash a) pw"
  shows "rs_code (fst (serve w v r (Open_to_all (PostLogin (Some \<lparr>lb_Username = name, lb_Password = pw, lb_Code = clock_code w\<rparr>))) p)) = 200"
proof -
  let ?b = "\<lparr>lb_Username = name, lb_Password = pw, lb_Code = clock_code w\<rparr>"
  have v: "totpVerify w [] (clock_code w)" by (rule code_verifies [OF totpCode_empty])
  then have "clock_code w \<noteq> []" by (auto simp: totpVerify_def TrimSpace_def trim_by_def Let_def)
  then have "fst (handleLogin w r (Some ?b) p) = login_response w p a"
    by (intro login_served) (use assms v find_name [OF assms(3)] in \<open>simp_all add: credentials_ok_def blocked_def newLimiter_def\<close>)
  then show ?thesis
    by (simp add: serve_def securityHeaders_def route_def open_handler_def split_beta login_response_def with_cookie_def writeJSON_def)
qed

subsection \<open>The properties\<close>


text \<open>
  C29. A session alone turns it off. Whoever holds a live session of an account with a second factor gets
  the secret from \<^verbatim>\<open>GET /api/2fa/qr\<close>, inside the QR code; with the code computed from it, at any later time
  the session is still valid, the disable request succeeds and the account has no second factor left.
\<close>
theorem session_turns_second_factor_off:
  assumes "no_faults (db_of p)" "signed_in w r p a" "ar_totp_enabled a"
    and "decrypt (crypt (db_of p)) (ar_totp_secret a) = sec" "sec \<noteq> []" "w_qr w (otpauthURL ''Xuanwu'' (ar_username a) sec)"
    and "signed_in w' r p a" "totpCode w' sec (w_now w') = Some code"
  shows "let (qr, p1) = serve w v r (Account Get2FAQR) p; (answer, p2) = serve w' v r (Account (Post2FADisable (Some code))) p1
    in rs_body qr = PngBody (otpauthURL ''Xuanwu'' (ar_username a) sec) \<and> rs_code answer = 200 \<and>
       enrolled (ar_username a) sec (db_of p) \<and> \<not> enrolled (ar_username a) s (db_of p2)"
proof -
  have "enrolled (ar_username a) sec (db_of p)" using assms(2-4) by (simp add: signed_in_def enrolled_def)
  with qr_served [OF assms(1,2), of v] assms(4-6,8)
    disable_served(1) [OF assms(1,7), of code v] disable_served(2) [OF assms(1,7), of code s v]
  show ?thesis by (simp add: split_beta)
qed

text \<open>
  C28. A changed panel secret opens the second factor. If the panel is started with a \<^verbatim>\<open>PANEL_JWT_SECRET\<close>
  under which an account's stored secret no longer opens, the account still counts as enrolled, with
  the empty secret, and a sign-in with its password and a code computed from the time alone
  succeeds.
\<close>
theorem changed_secret_opens_second_factor:
  assumes "validateSecrets (w_unicode w0) cfg = None" "w_bcrypt w0 (AdminPass cfg) = Inr hash" "no_faults s" "db_ok (tables s)"
    and "List.find (\<lambda>a. ar_username a = name) (admins (tables s)) = Some a" "ar_totp_enabled a"
    and "ar_totp_secret a = encrypt (Some (derive old)) nc sec" "sec \<noteq> []" "\<not> isEncrypted sec"
    and "NonceSize (derive (JWTSecret cfg)) = length nc" "Open (derive (JWTSecret cfg)) nc (Seal (derive old) nc sec) = None"
    and "w_compare w (ar_password_hash a) pw"
  shows "\<exists>p. Run w0 derive ns e cfg s = (Inr p, db_of p) \<and> enrolled name [] (db_of p) \<and>
    rs_code (fst (serve w v r (Open_to_all (PostLogin (Some \<lparr>lb_Username = name, lb_Password = pw, lb_Code = clock_code w\<rparr>))) p)) = 200"
proof -
  obtain p where p: "Run w0 derive ns e cfg s = (Inr p, db_of p)" "no_faults (db_of p)" "pn_lim p = newLimiter 8 (300 * 10 ^ 9)"
    "crypt (db_of p) = newCrypter derive (JWTSecret cfg)"
    "\<forall>nm a. List.find (\<lambda>a. ar_username a = nm) (admins (tables s)) = Some a \<longrightarrow> \<not> needs_encryption (ar_totp_secret a) \<longrightarrow>
       List.find (\<lambda>a. ar_username a = nm) (admins (tables (db_of p))) = Some a"
    by (rule Run_started [OF assms(3,4,1,2), of derive ns e]) (rule that)
  have "isEncrypted (ar_totp_secret a)" using assms(7,8) encrypt_marked [of "Some (derive old)" sec nc] by simp
  with p(5) assms(5) have a: "List.find (\<lambda>a. ar_username a = name) (admins (tables (db_of p))) = Some a"
    by (simp add: needs_encryption_def)
  have "crypt (db_of p) = Some (derive (JWTSecret cfg))" using p(4) secret_set [OF assms(1)] by (simp add: newCrypter_def)
  then have lost: "decrypt (crypt (db_of p)) (ar_totp_secret a) = []" using other_key assms(7-11) by simp
  from empty_secret_signs_in [OF p(2,3) a lost assms(12)] p(1) a lost assms(6) show ?thesis
    by (auto simp: enrolled_def)
qed

subsection \<open>Examples\<close>

definition enrolled_row :: admin_row where
  "enrolled_row = root_row\<lparr>ar_totp_secret := ''AAAAAAAA'', ar_totp_enabled := True\<rparr>"

definition enrolled_store :: store where
  "enrolled_store = \<lparr>tables = empty_db\<lparr>admins := [enrolled_row], seq_admins := 1\<rparr>, faults = [], crypt = None\<rparr>"

lemma enrolled_panel:
  "no_faults (db_of (panel_on enrolled_store))" "signed_in plain_world root_request (panel_on enrolled_store) enrolled_row"
  "decrypt (crypt (db_of (panel_on enrolled_store))) (ar_totp_secret enrolled_row) = ''AAAAAAAA''"
  "enrolled ''root'' ''AAAAAAAA'' (db_of (panel_on enrolled_store))" "ar_username enrolled_row = ''root''"
  by (simp_all add: panel_on_def boot_app_def enrolled_store_def no_faults_def enrolled_def enrolled_row_def decrypt_plain isEncrypted_def
      encPrefix_def signed_in_def root_token root_row_def session_secret_def sample_config_def)
    (use root_token(2) [of enrolled_store] in \<open>simp add: session_secret_def panel_on_def sample_config_def\<close>)

lemma some_code: "\<exists>code. totpCode w ''AAAAAAAA'' t = Some code"
proof -
  have "b32decode (ToUpper (TrimSpace ''AAAAAAAA'')) \<noteq> None" by code_simp
  then show ?thesis by (auto simp: totpCode_def split: option.split)
qed


theorem session_turns_second_factor_off_witness:
  "\<exists>code. \<not> enrolled ''root'' ''AAAAAAAA''
     (db_of (snd (serve plain_world ''v1'' root_request (Account (Post2FADisable (Some code)))
       (snd (serve plain_world ''v1'' root_request (Account Get2FAQR) (panel_on enrolled_store))))))"
proof -
  obtain code where code: "totpCode plain_world ''AAAAAAAA'' (w_now plain_world) = Some code" using some_code by blast
  have "w_qr plain_world u" "ar_totp_enabled enrolled_row" for u by (simp_all add: plain_world_def enrolled_row_def)
  with session_turns_second_factor_off [OF enrolled_panel(1,2) _ enrolled_panel(3) _ _ enrolled_panel(2) code] enrolled_panel(5)
  show ?thesis by (auto simp: split_beta)
qed

text \<open>A cipher that opens nothing sealed under another key.\<close>

definition keyed_aead :: "string \<Rightarrow> aead" where
  "keyed_aead k = \<lparr>NonceSize = 1, Seal = (\<lambda>nc s. k @ s),
     Open = (\<lambda>nc s. if take (length k) s = k then Some (drop (length k) s) else None)\<rparr>"

definition rotated_store :: store where
  "rotated_store = \<lparr>tables = empty_db\<lparr>admins := [enrolled_row\<lparr>ar_totp_secret := encrypt (Some (keyed_aead ''old'')) ''n'' ''AAAAAAAA''\<rparr>],
     seq_admins := 1\<rparr>, faults = [], crypt = None\<rparr>"

theorem changed_secret_opens_second_factor_witness:
  "\<exists>p. Run plain_world keyed_aead plain_nonces (\<lambda>_. []) sample_config rotated_store = (Inr p, db_of p) \<and> enrolled ''root'' [] (db_of p) \<and>
     rs_code (fst (serve plain_world ''v1'' root_request
       (Open_to_all (PostLogin (Some \<lparr>lb_Username = ''root'', lb_Password = ''pw'', lb_Code = clock_code plain_world\<rparr>))) p)) = 200"
proof (rule changed_secret_opens_second_factor [OF sample_boot(1,2), where nc = "''n''" and old = "''old''" and sec = "''AAAAAAAA''"
      and a = "enrolled_row\<lparr>ar_totp_secret := encrypt (Some (keyed_aead ''old'')) ''n'' ''AAAAAAAA''\<rparr>"])
  show "db_ok (tables rotated_store)"
    by (simp add: rotated_store_def db_ok_defs enrolled_row_def root_row_def) (simp add: empty_db_def)
  show "Open (keyed_aead (JWTSecret sample_config)) ''n'' (Seal (keyed_aead ''old'') ''n'' ''AAAAAAAA'') = None"
    "NonceSize (keyed_aead (JWTSecret sample_config)) = length ''n''"
    by (simp_all add: keyed_aead_def sample_config_def)
qed (simp_all add: rotated_store_def no_faults_def enrolled_row_def root_row_def isEncrypted_def encPrefix_def plain_world_def)

end
