(* ===== verification/Schema.thy ===== *)
theory Schema
  imports Prelude
begin

section \<open>Opening the database file (internal/panel/store.go: schema, OpenStore, migrate)\<close>

text \<open>
  The file as SQLite has it, tables with named columns, since a file written by an earlier version of
  the panel may lack some. Keys and UNIQUE constraints are left to \<open>Tables\<close>, which is this file with
  the columns of \<open>schema\<close>.
\<close>

subsection \<open>Files\<close>

datatype cell = Integer int | Txt string

datatype column_type = INTEGER | TEXT

fun cell_type :: "cell \<Rightarrow> column_type" where
  "cell_type (Integer n) = INTEGER"
| "cell_type (Txt s) = TEXT"

text \<open>A row maps column names to cells.\<close>

type_synonym raw_row = "(string \<times> cell) list"

record raw_table =
  rt_columns :: "(string \<times> column_type) list"
  rt_rows :: "raw_row list"

type_synonym raw_db = "(string \<times> raw_table) list"

text \<open>\<open>None\<close> is a column without a DEFAULT clause.\<close>

record column =
  co_name :: string
  co_type :: column_type
  co_default :: "cell option"

definition required :: "string \<Rightarrow> column_type \<Rightarrow> column" where
  "required n ty = \<lparr>co_name = n, co_type = ty, co_default = None\<rparr>"

definition text0 :: "string \<Rightarrow> column" where
  "text0 n = \<lparr>co_name = n, co_type = TEXT, co_default = Some (Txt [])\<rparr>"

definition integer :: "int \<Rightarrow> string \<Rightarrow> column" where
  "integer dflt n = \<lparr>co_name = n, co_type = INTEGER, co_default = Some (Integer dflt)\<rparr>"

subsection \<open>The schema\<close>

definition admin_columns :: "column list" where
  "admin_columns = [required ''id'' INTEGER, required ''username'' TEXT, required ''password_hash'' TEXT,
     text0 ''totp_secret'', integer 0 ''totp_enabled'', integer 0 ''session_epoch'']"

definition node_columns :: "column list" where
  "node_columns = [required ''id'' INTEGER, required ''name'' TEXT, required ''token'' TEXT, text0 ''address'', text0 ''remark'',
     integer 0 ''last_seen'', integer 0 ''created_at'', text0 ''reality_dest'', text0 ''reality_server_name'',
     text0 ''reality_private_key'', text0 ''reality_public_key'', text0 ''reality_short_id'', text0 ''tls_domain'',
     integer 0 ''traffic_seq'', text0 ''agent_version'']"

definition user_columns :: "column list" where
  "user_columns = [required ''id'' INTEGER, required ''username'' TEXT, required ''uuid'' TEXT, required ''sub_token'' TEXT,
     integer 0 ''data_limit'', integer 0 ''data_used'', integer 0 ''expire_at'', integer 1 ''enabled'', integer 0 ''created_at'',
     text0 ''portal_password_hash'', integer 0 ''reset_day'', integer 0 ''last_reset'', integer 0 ''session_epoch'',
     integer 0 ''must_change_pw'', text0 ''note'']"

definition daily_columns :: "string \<Rightarrow> column list" where
  "daily_columns owner = [required owner INTEGER, required ''day'' TEXT, integer 0 ''up'', integer 0 ''down'']"

definition schema :: "(string \<times> column list) list" where
  "schema = [(''admins'', admin_columns), (''nodes'', node_columns), (''users'', user_columns),
     (''user_nodes'', [required ''user_id'' INTEGER, required ''node_id'' INTEGER]),
     (''node_traffic'', [required ''user_id'' INTEGER, required ''node_id'' INTEGER, integer 0 ''up'', integer 0 ''down'', integer 0 ''updated_at'']),
     (''traffic_daily'', daily_columns ''user_id''), (''node_traffic_daily'', daily_columns ''node_id''),
     (''audit_log'', [required ''id'' INTEGER, required ''ts'' INTEGER, required ''actor'' TEXT, required ''action'' TEXT, text0 ''detail'']),
     (''settings'', [required ''key'' TEXT, text0 ''value'']),
     (''user_devices'', [required ''user_id'' INTEGER, required ''node_id'' INTEGER, required ''ip'' TEXT, text0 ''inbound'',
        integer 0 ''conns'', integer 0 ''first_seen'', integer 0 ''last_seen''])]"

text \<open>The columns the queries name.\<close>

definition nodeCols :: "string list" where
  "nodeCols = [''id'', ''name'', ''token'', ''address'', ''remark'', ''last_seen'', ''created_at'', ''reality_dest'',
     ''reality_server_name'', ''reality_private_key'', ''reality_public_key'', ''reality_short_id'', ''tls_domain'', ''agent_version'']"

definition userCols :: "string list" where
  "userCols = [''id'', ''username'', ''uuid'', ''sub_token'', ''data_limit'', ''data_used'', ''expire_at'', ''enabled'', ''created_at'',
     ''portal_password_hash'', ''reset_day'', ''last_reset'', ''session_epoch'', ''must_change_pw'', ''note'']"

subsection \<open>Opening\<close>

definition typed :: "column \<Rightarrow> string \<times> column_type" where
  "typed c = (co_name c, co_type c)"

definition create_table :: "string \<times> column list \<Rightarrow> raw_db \<Rightarrow> raw_db" where
  "create_table t f = (if fst t \<in> fst ` set f then f else f @ [(fst t, \<lparr>rt_columns = map typed (snd t), rt_rows = []\<rparr>)])"

text \<open>
  \<^verbatim>\<open>ALTER TABLE ... ADD COLUMN\<close>: existing rows get the default (empty text where there is none, which
  none of the statements below is). A column of that name already there is the error \<open>migrate\<close> drops.
\<close>

definition default_of :: "column \<Rightarrow> cell" where
  "default_of c = (case co_default c of None \<Rightarrow> Txt [] | Some v \<Rightarrow> v)"

definition add_column :: "column \<Rightarrow> raw_table \<Rightarrow> raw_table" where
  "add_column c tb =
     (if co_name c \<in> fst ` set (rt_columns tb) then tb
      else \<lparr>rt_columns = rt_columns tb @ [typed c], rt_rows = map (\<lambda>r. r @ [(co_name c, default_of c)]) (rt_rows tb)\<rparr>)"

definition alter_table :: "string \<times> column \<Rightarrow> raw_db \<Rightarrow> raw_db" where
  "alter_table a f = map (\<lambda>(n, tb). (n, if n = fst a then add_column (snd a) tb else tb)) f"

definition migrations :: "(string \<times> column) list" where
  "migrations =
     [(''users'', text0 ''portal_password_hash''), (''users'', integer 0 ''reset_day''), (''users'', integer 0 ''last_reset''),
      (''nodes'', integer 0 ''traffic_seq''), (''admins'', text0 ''totp_secret''), (''admins'', integer 0 ''totp_enabled''),
      (''admins'', integer 0 ''session_epoch''), (''users'', integer 0 ''session_epoch''), (''users'', integer 0 ''must_change_pw''),
      (''users'', text0 ''note''), (''nodes'', text0 ''agent_version'')]"

text \<open>What the engine does: open the file, run each CREATE (the first failure ends them), each ALTER.\<close>

record open_env =
  oe_open :: bool
  oe_create :: "string \<Rightarrow> bool"
  oe_alter :: "string \<Rightarrow> string \<Rightarrow> bool"

definition migrate :: "open_env \<Rightarrow> raw_db \<Rightarrow> raw_db" where
  "migrate v f = fold (\<lambda>a f. if oe_alter v (fst a) (co_name (snd a)) then alter_table a f else f) migrations f"

fun init_schema :: "open_env \<Rightarrow> (string \<times> column list) list \<Rightarrow> raw_db \<Rightarrow> bool \<times> raw_db" where
  "init_schema v [] f = (True, f)"
| "init_schema v (t # ts) f = (if oe_create v (fst t) then init_schema v ts (create_table t f) else (False, f))"

datatype open_err = OpenFailed | InitSchema

definition OpenStore :: "open_env \<Rightarrow> raw_db \<Rightarrow> (open_err + unit) \<times> raw_db" where
  "OpenStore v f =
     (if \<not> oe_open v then (Inl OpenFailed, f)
      else case init_schema v schema f of
             (False, f) \<Rightarrow> (Inl InitSchema, f)
           | (True, f) \<Rightarrow> (Inr (), migrate v f))"

subsection \<open>Files of earlier versions\<close>

definition migrated :: "string \<Rightarrow> string \<Rightarrow> bool" where
  "migrated t c \<longleftrightarrow> (t, c) \<in> (\<lambda>(t, c). (t, co_name c)) ` set migrations"

text \<open>
  A table as this version or an earlier one left it: columns of the schema, at least those no
  migration adds, and rows with a cell of the declared type in each of them.
\<close>

definition row_typed :: "(string \<times> column_type) list \<Rightarrow> raw_row \<Rightarrow> bool" where
  "row_typed cols r \<longleftrightarrow> list_all (\<lambda>(c, ty). case map_of r c of None \<Rightarrow> False | Some v \<Rightarrow> cell_type v = ty) cols \<and>
     fst ` set r \<subseteq> fst ` set cols"

definition earlier_table :: "string \<Rightarrow> column list \<Rightarrow> raw_table \<Rightarrow> bool" where
  "earlier_table t cs tb \<longleftrightarrow> set (rt_columns tb) \<subseteq> typed ` set cs \<and>
     list_all (\<lambda>c. migrated t (co_name c) \<or> typed c \<in> set (rt_columns tb)) cs \<and>
     list_all (row_typed (rt_columns tb)) (rt_rows tb)"

definition earlier_file :: "raw_db \<Rightarrow> bool" where
  "earlier_file f \<longleftrightarrow> keys_distinct f \<and>
     list_all (\<lambda>(t, cs). case map_of f t of None \<Rightarrow> True | Some tb \<Rightarrow> earlier_table t cs tb) schema"

text \<open>A table of this version.\<close>

definition current_table :: "column list \<Rightarrow> raw_table \<Rightarrow> bool" where
  "current_table cs tb \<longleftrightarrow> set (rt_columns tb) = typed ` set cs \<and> list_all (row_typed (map typed cs)) (rt_rows tb)"

text \<open>An old row in the new table: every cell is kept, a column it lacked reads as the schema's default.\<close>

definition upgraded_row :: "column list \<Rightarrow> raw_row \<Rightarrow> raw_row \<Rightarrow> bool" where
  "upgraded_row cs r r' \<longleftrightarrow> list_all (\<lambda>c. map_of r' (co_name c) =
     (case map_of r (co_name c) of Some v \<Rightarrow> Some v | None \<Rightarrow> co_default c)) cs"

subsection \<open>What each step does to one table\<close>

lemma create_lookup: "map_of (create_table t f) n =
    (case map_of f n of Some tb \<Rightarrow> Some tb | None \<Rightarrow> if n = fst t then Some \<lparr>rt_columns = map typed (snd t), rt_rows = []\<rparr> else None)"
proof (cases "map_of f (fst t)")
  case None
  then have "fst t \<notin> fst ` set f" by (simp add: map_of_eq_None_iff)
  with None show ?thesis by (cases "map_of f n") (auto simp: create_table_def map_add_def)
next
  case (Some tb)
  then have "fst t \<in> fst ` set f" by (metis fst_conv image_eqI map_of_SomeD)
  with Some show ?thesis by (auto simp: create_table_def split: option.split)
qed

lemma creates_lookup: "map_of (fold create_table ts f) n =
    (case map_of f n of Some tb \<Rightarrow> Some tb | None \<Rightarrow> map_option (\<lambda>cs. \<lparr>rt_columns = map typed cs, rt_rows = []\<rparr>) (map_of ts n))"
proof (induction ts arbitrary: f)
  case (Cons t ts)
  obtain a cs where "t = (a, cs)" by fastforce
  with Cons show ?case by (simp add: create_lookup split: option.split)
qed (simp split: option.split)

lemma alter_lookup: "map_of (alter_table a f) n = map_option (if n = fst a then add_column (snd a) else id) (map_of f n)"
  by (induction f) (auto simp: alter_table_def)

definition added :: "string \<Rightarrow> (string \<times> column) list \<Rightarrow> column list" where
  "added t ms = map snd (filter (\<lambda>a. fst a = t) ms)"

lemma alters_lookup: "map_of (fold alter_table ms f) n = map_option (fold add_column (added n ms)) (map_of f n)"
proof (induction ms arbitrary: f)
  case Nil
  show ?case by (cases "map_of f n") (simp_all add: added_def)
next
  case (Cons m ms)
  then show ?case by (cases "map_of f n") (simp_all add: alter_lookup added_def)
qed

lemma create_keys: "keys_distinct f \<Longrightarrow> keys_distinct (create_table t f)"
  by (simp add: create_table_def)

lemma creates_keys: "keys_distinct f \<Longrightarrow> keys_distinct (fold create_table ts f)"
  by (induction ts arbitrary: f) (simp_all add: create_keys)

lemma alters_keys: "map fst (fold alter_table ms f) = map fst f"
proof (induction ms arbitrary: f)
  case (Cons m ms)
  have "map fst (alter_table m f) = map fst f" by (induction f) (auto simp: alter_table_def)
  with Cons show ?case by simp
qed simp

lemma init_schema_ok: "(\<And>t. oe_create v t) \<Longrightarrow> init_schema v ts f = (True, fold create_table ts f)"
  by (induction ts arbitrary: f) simp_all

lemma OpenStore_ok:
  assumes "oe_open v" "\<And>t. oe_create v t" "\<And>t c. oe_alter v t c"
  shows "OpenStore v f = (Inr (), fold alter_table migrations (fold create_table schema f))"
  by (simp add: OpenStore_def init_schema_ok [OF assms(2)] assms(1,3) migrate_def)

subsection \<open>Adding columns to a table\<close>

definition well_formed :: "column list \<Rightarrow> raw_table \<Rightarrow> bool" where
  "well_formed cs tb \<longleftrightarrow> set (rt_columns tb) \<subseteq> typed ` set cs \<and> list_all (row_typed (rt_columns tb)) (rt_rows tb)"

definition addable :: "column list \<Rightarrow> column \<Rightarrow> bool" where
  "addable cs c \<longleftrightarrow> c \<in> set cs \<and> co_default c = Some (default_of c) \<and> cell_type (default_of c) = co_type c"

lemma row_typed_add:
  assumes "row_typed cols r" "n \<notin> fst ` set cols" "cell_type d = ty"
  shows "row_typed (cols @ [(n, ty)]) (r @ [(n, d)])"
proof -
  have "map_of r n = None" using assms(1,2) by (auto simp: row_typed_def map_of_eq_None_iff)
  then have "map_of (r @ [(n, d)]) n = Some d" by (simp add: map_add_def)
  moreover have "map_of (r @ [(n, d)]) c = Some w" if "map_of r c = Some w" for c w using that by (simp add: map_add_def)
  ultimately show ?thesis using assms by (auto simp: row_typed_def list_all_iff split: option.splits)
qed

lemma add_column_well_formed:
  assumes "well_formed cs tb" "addable cs c"
  shows "well_formed cs (add_column c tb)"
proof (cases "co_name c \<in> fst ` set (rt_columns tb)")
  case False
  have "row_typed (rt_columns tb @ [typed c]) (r @ [(co_name c, default_of c)])" if "r \<in> set (rt_rows tb)" for r
    using row_typed_add [OF _ False, of r "default_of c" "co_type c"] assms that by (auto simp: well_formed_def list_all_iff addable_def typed_def)
  with False assms show ?thesis by (auto simp: add_column_def well_formed_def list_all_iff addable_def)
qed (use assms in \<open>simp add: add_column_def\<close>)

text \<open>A row and what it has become on the way.\<close>

definition extended :: "column list \<Rightarrow> raw_row \<Rightarrow> raw_row \<Rightarrow> bool" where
  "extended cs r r' \<longleftrightarrow> (\<forall>n. map_of r' n = map_of r n \<or>
     map_of r n = None \<and> (\<exists>c \<in> set cs. co_name c = n \<and> map_of r' n = co_default c))"

lemma extended_add:
  assumes "extended cs r r'" "addable cs c"
  shows "extended cs r (r' @ [(co_name c, default_of c)])"
  unfolding extended_def
proof
  fix n
  have e: "map_of r' n = map_of r n \<or> map_of r n = None \<and> (\<exists>c \<in> set cs. co_name c = n \<and> map_of r' n = co_default c)"
    using assms(1) by (simp add: extended_def)
  show "map_of (r' @ [(co_name c, default_of c)]) n = map_of r n \<or>
      map_of r n = None \<and> (\<exists>b \<in> set cs. co_name b = n \<and> map_of (r' @ [(co_name c, default_of c)]) n = co_default b)"
  proof (cases "n = co_name c \<and> map_of r' n = None")
    case True
    then have "map_of r n = None" using e by auto
    moreover have "map_of (r' @ [(co_name c, default_of c)]) n = co_default c" "c \<in> set cs"
      using True assms(2) by (auto simp: map_add_def addable_def)
    ultimately show ?thesis using True by blast
  next
    case False
    then have eq: "map_of (r' @ [(co_name c, default_of c)]) n = map_of r' n" by (auto simp: map_add_def split: option.split)
    show ?thesis unfolding eq by (rule e)
  qed
qed

lemma add_columns:
  assumes "well_formed cs tb" "list_all (addable cs) ms"
  shows "well_formed cs (fold add_column ms tb) \<and>
    fst ` set (rt_columns (fold add_column ms tb)) = fst ` set (rt_columns tb) \<union> co_name ` set ms \<and>
    (list_all2 (extended cs) rs (rt_rows tb) \<longrightarrow> list_all2 (extended cs) rs (rt_rows (fold add_column ms tb)))"
  using assms
proof (induction ms arbitrary: tb)
  case (Cons c ms)
  have c: "addable cs c" using Cons.prems(2) by simp
  have "well_formed cs (add_column c tb)" by (rule add_column_well_formed [OF Cons.prems(1) c])
  moreover have "fst ` set (rt_columns (add_column c tb)) = insert (co_name c) (fst ` set (rt_columns tb))"
    by (auto simp: add_column_def typed_def)
  moreover have "list_all2 (extended cs) rs (rt_rows (add_column c tb))" if "list_all2 (extended cs) rs (rt_rows tb)"
    using that extended_add [OF _ c] by (auto simp: add_column_def list_all2_map2 elim: list_all2_mono)
  ultimately show ?case using Cons.IH [of "add_column c tb"] Cons.prems(2) by auto
qed simp

subsection \<open>The whole file\<close>

lemma schema_facts:
  "distinct (map fst schema)"
  "list_all (\<lambda>(t, cs). distinct (map co_name cs) \<and> list_all (addable cs) (added t migrations) \<and> co_name ` set (added t migrations) \<subseteq> co_name ` set cs) schema"
  by code_simp+

lemma migrated_added: "migrated t c \<longleftrightarrow> c \<in> co_name ` set (added t migrations)"
  by (auto simp: migrated_def added_def image_iff split: prod.splits)

lemma typed_inj: "distinct (map co_name cs) \<Longrightarrow> c \<in> set cs \<Longrightarrow> x \<in> typed ` set cs \<Longrightarrow> fst x = co_name c \<Longrightarrow> x = typed c"
  by (auto simp: typed_def distinct_map inj_on_def)

text \<open>One table of the schema, made or brought up to date.\<close>

lemma table_upgraded:
  assumes "(t, cs) \<in> set schema" "earlier_table t cs tb"
  defines "tb' \<equiv> fold add_column (added t migrations) tb"
  shows "current_table cs tb' \<and> list_all2 (upgraded_row cs) (rt_rows tb) (rt_rows tb')"
proof -
  have cs: "distinct (map co_name cs)" "list_all (addable cs) (added t migrations)"
    using assms(1) schema_facts(2) by (auto simp: list_all_iff)
  have wf: "well_formed cs tb" and cover: "\<And>c. c \<in> set cs \<Longrightarrow> migrated t (co_name c) \<or> typed c \<in> set (rt_columns tb)"
    using assms(2) by (auto simp: earlier_table_def well_formed_def list_all_iff)
  have "list_all2 (extended cs) (rt_rows tb) (rt_rows tb)" by (simp add: list_all2_same extended_def)
  from add_columns [OF wf cs(2), of "rt_rows tb"] this
  have wf': "well_formed cs tb'" and names: "fst ` set (rt_columns tb') = fst ` set (rt_columns tb) \<union> co_name ` set (added t migrations)"
    and ext: "list_all2 (extended cs) (rt_rows tb) (rt_rows tb')" by (simp_all add: tb'_def)
  have "typed c \<in> set (rt_columns tb')" if c: "c \<in> set cs" for c
  proof -
    have "co_name c \<in> fst ` set (rt_columns tb')"
      using cover [OF c] names migrated_added [of t "co_name c"] by (force simp: typed_def image_iff)
    then obtain x where "x \<in> set (rt_columns tb')" "fst x = co_name c" by auto
    moreover have "x \<in> typed ` set cs" using calculation(1) wf' by (auto simp: well_formed_def)
    ultimately show ?thesis using typed_inj [OF cs(1) c, of x] by simp
  qed
  then have cols: "set (rt_columns tb') = typed ` set cs" using wf' by (auto simp: well_formed_def)
  have "row_typed (map typed cs) r" if "r \<in> set (rt_rows tb')" for r
    using wf' that cols by (auto simp: well_formed_def row_typed_def list_all_iff)
  with cols have cur: "current_table cs tb'" by (simp add: current_table_def list_all_iff)
  have "upgraded_row cs r r'" if "extended cs r r'" "r' \<in> set (rt_rows tb')" for r r'
    unfolding upgraded_row_def list_all_iff
  proof
    fix c assume c: "c \<in> set cs"
    have "map_of r' (co_name c) \<noteq> None"
      using cur that(2) c by (fastforce simp: current_table_def list_all_iff row_typed_def typed_def split: option.splits)
    moreover have "c' = c" if "c' \<in> set cs" "co_name c' = co_name c" for c'
      using cs(1) c that by (auto simp: distinct_map inj_on_def)
    ultimately show "map_of r' (co_name c) = (case map_of r (co_name c) of Some v \<Rightarrow> Some v | None \<Rightarrow> co_default c)"
      using that(1) unfolding extended_def by (cases "map_of r (co_name c)") (force dest: spec [of _ "co_name c"])+
  qed
  with ext cur show ?thesis by (auto simp: list_all2_conv_all_nth)
qed

lemma fresh_table: "(t, cs) \<in> set schema \<Longrightarrow> earlier_table t cs \<lparr>rt_columns = map typed cs, rt_rows = []\<rparr>"
  by (auto simp: earlier_table_def list_all_iff)

lemma opened_table:
  assumes "earlier_file f" "(t, cs) \<in> set schema"
  defines "tb \<equiv> (case map_of f t of Some tb \<Rightarrow> tb | None \<Rightarrow> \<lparr>rt_columns = map typed cs, rt_rows = []\<rparr>)"
  shows "map_of (fold alter_table migrations (fold create_table schema f)) t = Some (fold add_column (added t migrations) tb) \<and> earlier_table t cs tb"
proof -
  have "map_of schema t = Some cs" using schema_facts(1) assms(2) by simp
  moreover have "earlier_table t cs tb"
    using assms(1,2) fresh_table [OF assms(2)] by (auto simp: earlier_file_def list_all_iff tb_def split: option.split)
  ultimately show ?thesis by (auto simp: alters_lookup creates_lookup tb_def split: option.split)
qed

lemma create_present: "fst ` set ts \<subseteq> fst ` set f \<Longrightarrow> fold create_table ts f = f"
  by (induction ts arbitrary: f) (auto simp: create_table_def)

lemma alter_present:
  assumes "\<And>t c. (t, c) \<in> set ms \<Longrightarrow> \<forall>tb. (t, tb) \<in> set f \<longrightarrow> co_name c \<in> fst ` set (rt_columns tb)"
  shows "fold alter_table ms f = f"
  using assms
proof (induction ms)
  case (Cons m ms)
  obtain t c where m: "m = (t, c)" by fastforce
  have "alter_table m f = f"
    unfolding alter_table_def by (rule map_idI) (use Cons.prems [of t c] in \<open>auto simp: m add_column_def\<close>)
  moreover have "fold alter_table ms f = f" by (rule Cons.IH) (use Cons.prems in auto)
  ultimately show ?case by simp
qed simp

lemma query_columns: "set nodeCols \<subseteq> co_name ` set node_columns" "set userCols \<subseteq> co_name ` set user_columns"
  by code_simp+

lemma migrations_known: "list_all (\<lambda>(t, c). t \<in> fst ` set schema) migrations"
  by code_simp


text \<open>A file of the first version, with one administrator.\<close>

definition first_file :: raw_db where
  "first_file = [(''admins'', \<lparr>rt_columns = [(''id'', INTEGER), (''username'', TEXT), (''password_hash'', TEXT)],
     rt_rows = [[(''id'', Integer 1), (''username'', Txt ''root''), (''password_hash'', Txt ''#pw'')]]\<rparr>)]"

definition engine_ok :: open_env where
  "engine_ok = \<lparr>oe_open = True, oe_create = (\<lambda>_. True), oe_alter = (\<lambda>_ _. True)\<rparr>"


text \<open>
  \<open>migrate\<close> drops every error, not only the expected one: when an ALTER fails for another reason the
  start still succeeds, with the column missing from the table.
\<close>

lemma failed_migration_unnoticed:
  "fst (OpenStore (engine_ok\<lparr>oe_alter := (\<lambda>t c. c \<noteq> ''session_epoch'')\<rparr>) first_file) = Inr ()"
  by code_simp

end
