(* ===== verification/Assets.thy ===== *)
theory Assets
  imports GoStr Codecs
begin

section \<open>The embedded web files (internal/panel/app.go: staticHandler; portal.go: handlePortalPage)\<close>

text \<open>
  The files are a list of names and contents; the directory is flat. \<^verbatim>\<open>http.FileServer\<close> is modelled as
  far as it is used: it redirects a path that ends in \<^verbatim>\<open>/index.html\<close>, serves the index for \<^verbatim>\<open>/\<close>, and
  answers 304 when the validator the handler has set is the one the client sent. A path is clean, as
  the mux leaves it. SHA-256 is a parameter.
\<close>

type_synonym web_files = "(string \<times> string) list"

record asset =
  as_status :: int
  as_etag :: "string option"
  as_cache_control :: "string option"
  as_body :: string

text \<open>The first eight bytes of the digest, in quotes.\<close>

definition etag_of :: "(string \<Rightarrow> string) \<Rightarrow> string \<Rightarrow> string" where
  "etag_of sha b = [CHR 0x22] @ hexEncode (take 8 (sha b)) @ [CHR 0x22]"

definition etags :: "(string \<Rightarrow> string) \<Rightarrow> web_files \<Rightarrow> (string \<times> string) list" where
  "etags sha fs = map (\<lambda>(p, b). (''/'' @ p, etag_of sha b)) fs"

definition fileServer :: "web_files \<Rightarrow> string \<Rightarrow> string option \<Rightarrow> string option \<Rightarrow> string option \<Rightarrow> asset" where
  "fileServer fs path none_match et cc =
     (let plain = (\<lambda>code b. \<lparr>as_status = code, as_etag = et, as_cache_control = cc, as_body = b\<rparr>) in
      if HasSuffix path ''/index.html'' then plain 301 []
      else case map_of fs (if path = ''/'' then ''index.html'' else drop 1 path) of
             None \<Rightarrow> plain 404 ''404 page not found''
           | Some b \<Rightarrow> if et \<noteq> None \<and> none_match = et then plain 304 [] else plain 200 b)"

text \<open>\<open>none_match\<close> is the request's \<^verbatim>\<open>If-None-Match\<close>, one validator as a browser sends it.\<close>

definition staticHandler :: "(string \<Rightarrow> string) \<Rightarrow> web_files \<Rightarrow> string \<Rightarrow> string option \<Rightarrow> asset" where
  "staticHandler sha fs path none_match =
     (let p = (if path = ''/'' then ''/index.html'' else path) in
      case map_of (etags sha fs) p of
        Some et \<Rightarrow> fileServer fs path none_match (Some et) (Some ''no-cache'')
      | None \<Rightarrow> fileServer fs path none_match None None)"

text \<open>The portal's page has neither validator nor cache directive.\<close>

definition handlePortalPage :: "web_files \<Rightarrow> asset" where
  "handlePortalPage web =
     (case map_of web ''portal.html'' of
        None \<Rightarrow> \<lparr>as_status = 404, as_etag = None, as_cache_control = None, as_body = ''not found'' @ [CHR 0x0A]\<rparr>
      | Some b \<Rightarrow> \<lparr>as_status = 200, as_etag = None, as_cache_control = None, as_body = b\<rparr>)"

subsection \<open>Revalidation\<close>

text \<open>What a browser that keeps a copy shows after asking again: its copy on 304, else what it gets.\<close>

definition shown :: "string \<Rightarrow> asset \<Rightarrow> string" where
  "shown copy a = (if as_status a = 304 then copy else as_body a)"

definition file_at :: "string \<Rightarrow> string" where
  "file_at path = (if path = ''/'' then ''index.html'' else drop 1 path)"

definition served_path :: "string \<Rightarrow> bool" where
  "served_path path \<longleftrightarrow> (\<exists>p. path = ''/'' @ p \<and> \<not> HasSuffix path ''/index.html'')"

lemma etags_lookup: "map_of (etags sha fs) (''/'' @ p) = map_option (etag_of sha) (map_of fs p)"
  by (induction fs) (auto simp: etags_def)

lemma hex_byte_inj: "hex_byte a = hex_byte b \<Longrightarrow> a = b"
proof -
  have d: "hex_digit x = hex_digit y \<Longrightarrow> x < 16 \<Longrightarrow> y < 16 \<Longrightarrow> x = y" for x y
    by (auto simp: hex_digit_def char_of_eq_iff of_char_of take_bit_eq_mod split: if_splits)
  assume h: "hex_byte a = hex_byte b"
  have lt: "of_char c div 16 < (16 :: nat)" for c :: char
    using byte_less [of c] by (simp add: less_mult_imp_div_less)
  have "of_char a div 16 = (of_char b div 16 :: nat)" "of_char a mod 16 = (of_char b mod 16 :: nat)"
    using h d lt by (simp_all add: hex_byte_def)
  then have "(of_char a :: nat) = of_char b" by (metis div_mult_mod_eq)
  then show "a = b" by simp
qed

lemma hexEncode_inj: "hexEncode xs = hexEncode ys \<Longrightarrow> xs = ys"
proof (induction xs arbitrary: ys)
  case Nil
  then show ?case by (cases ys) (simp_all add: hexEncode_def hex_byte_def)
next
  case (Cons x xs)
  then obtain y zs where "ys = y # zs" by (cases ys) (simp_all add: hexEncode_def hex_byte_def)
  with Cons hex_byte_inj [of x y] show ?case by (simp add: hexEncode_def hex_byte_def)
qed

lemma staticHandler_served:
  assumes "served_path path" "map_of fs (file_at path) = Some b"
  shows "staticHandler sha fs path nm =
    \<lparr>as_status = (if nm = Some (etag_of sha b) then 304 else 200), as_etag = Some (etag_of sha b), as_cache_control = Some ''no-cache'',
     as_body = (if nm = Some (etag_of sha b) then [] else b)\<rparr>"
proof -
  have "map_of (etags sha fs) (if path = ''/'' then ''/index.html'' else path) = Some (etag_of sha b)"
  proof (cases "path = ''/''")
    case True
    with assms(2) etags_lookup [of sha fs "''index.html''"] show ?thesis by (simp add: file_at_def)
  next
    case False
    obtain p where "path = ''/'' @ p" using assms(1) by (auto simp: served_path_def)
    with False assms(2) etags_lookup [of sha fs p] show ?thesis by (simp add: file_at_def)
  qed
  with assms show ?thesis by (auto simp: staticHandler_def fileServer_def served_path_def file_at_def Let_def)
qed

text \<open>
  A redeploy reaches every browser. Whatever build a browser's copy of a page or script came from, asking
  again with the copy's validator shows the content of the build that is running now, provided the
  first eight bytes of the two digests tell different contents apart; and while the file is unchanged
  the answer is an empty 304.
\<close>
theorem redeploy_seen:
  assumes "served_path path" "map_of old (file_at path) = Some b" "map_of new (file_at path) = Some b'"
    and "take 8 (sha b) = take 8 (sha b') \<Longrightarrow> b = b'"
    and "staticHandler sha old path None = a"
  shows "as_status a = 200 \<and> as_body a = b \<and> as_cache_control a = Some ''no-cache'' \<and>
    shown (as_body a) (staticHandler sha new path (as_etag a)) = b' \<and>
    (b' = b \<longrightarrow> staticHandler sha new path (as_etag a) = \<lparr>as_status = 304, as_etag = as_etag a, as_cache_control = Some ''no-cache'', as_body = []\<rparr>)"
proof -
  have a: "a = \<lparr>as_status = 200, as_etag = Some (etag_of sha b), as_cache_control = Some ''no-cache'', as_body = b\<rparr>"
    using staticHandler_served [OF assms(1,2), of sha None] assms(5) by simp
  have "b' = b" if "etag_of sha b = etag_of sha b'"
    using that assms(4) hexEncode_inj by (auto simp: etag_of_def)
  then show ?thesis using staticHandler_served [OF assms(1,3), of sha "as_etag a"] by (auto simp: a shown_def)
qed

theorem redeploy_seen_witness:
  "shown ''v1'' (staticHandler id [(''app.js'', ''v2'')] ''/app.js'' (as_etag (staticHandler id [(''app.js'', ''v1'')] ''/app.js'' None))) = ''v2''"
proof -
  have s: "served_path ''/app.js''" by (simp add: served_path_def HasSuffix_def HasPrefix_def)
  have f: "map_of [(''app.js'', ''v1'')] (file_at ''/app.js'') = Some ''v1''" "map_of [(''app.js'', ''v2'')] (file_at ''/app.js'') = Some ''v2''"
    "take 8 (id ''v1'') = take 8 (id ''v2'') \<Longrightarrow> ''v1'' = ''v2''" by (simp_all add: file_at_def)
  from redeploy_seen [OF s f refl] show ?thesis by metis
qed

end
