(* ===== verification/Spec2Isabelle.thy ===== *)
theory Spec2Isabelle
  imports Ledger Confine Conns Resets Agent Throttle TwoFactor Schema Assets
begin

text \<open>
  The Xuanwu control panel and its node agents, modelled and verified.

  The program. One panel process (\<^verbatim>\<open>cmd/panel\<close>, \<^verbatim>\<open>internal/panel\<close>) keeps administrators, users, nodes and
  traffic in an SQLite file, serves a web interface, subscriptions, a user portal and a Telegram bot,
  and holds a WebSocket to every node. On each node an agent (\<^verbatim>\<open>cmd/agent\<close>, \<^verbatim>\<open>internal/agent\<close>) applies
  the Xray configuration the panel pushes, if it can without restarting Xray, and reports traffic,
  client devices and health. The frames between them are \<^verbatim>\<open>internal/wire\<close>; the configuration is built by
  \<^verbatim>\<open>internal/nodeconf\<close>, keys by \<^verbatim>\<open>internal/nodekey\<close>. Without a panel an agent manages a local user file
  (standalone mode); a separate process holds the Docker socket for it.

  Conventions. A definition has the name of the Go function it models (changed where it is a constant of
  HOL, e.g. \<open>percent\<close> for \<^verbatim>\<open>pct\<close>, \<open>ServeProxy\<close> for \<^verbatim>\<open>ServeHTTP\<close>); a struct is a record whose fields have a
  short prefix. Text is a list of bytes. \<^verbatim>\<open>int64\<close> is \<open>int\<close> with \<open>wrap64\<close> written where the code can
  overflow, \<^verbatim>\<open>uint64\<close>, \<^verbatim>\<open>uint32\<close> and bytes under bit operations are words, \<^verbatim>\<open>float64\<close> is exact arithmetic
  followed by \<open>f64\<close>, its rounding. A Go map is an association list, so that a range loop has an order;
  what is shown does not depend on it. An error is a value of a sum or option type. A method with a
  mutex is one step, since the lock is held for the whole of it. The random source, the clock, and the
  outcome of each system call and each SQL statement are arguments or part of the state, so that every
  error branch of the code is a branch of the model.

  Shared theories.
    Prelude: \<open>wrap64\<close>, association-list maps, upserts; the locale \<open>keyed_update\<close> for the three tables
      with \<^verbatim>\<open>ON CONFLICT\<close> updates (interpreted in StoreInv).
    GoStr, Url, Base64, Codecs, Json, Float64, Scan: \<^verbatim>\<open>strings\<close>, \<^verbatim>\<open>strconv\<close>, \<^verbatim>\<open>time\<close>'s calendar,
      \<^verbatim>\<open>net/url\<close>, the encodings, decoded JSON, binary64, and pieces of regular expressions.
    Wire, Models, Nodeconf: the frames, the structs, and the Xray configuration.

  The panel's database (\<^verbatim>\<open>store.go\<close>, \<^verbatim>\<open>crypt.go\<close>).
    Schema: the file itself with named columns, \<open>OpenStore\<close> and \<open>migrate\<close>; old files are brought up to date.
    Tables, Store: the tables as records, statements with engine failures (\<open>faults\<close>), transactions, and
      one definition per method. StoreInv: the schema's invariant and that every statement keeps it.
    StoreOps, Ledger: every sequence of calls; the usage a quota is checked against equals the sum of the
      per-node breakdown (locale \<open>ledger_rel\<close>, interpreted for equality and for at-most).
    Crypt, Secrets, AtRest: encryption of secret columns, the pass over legacy plaintext (locale
      \<open>secret_column\<close>, interpreted for node keys and second-factor secrets), and that from the start on no
      secret is ever in the clear in the file, a download or a snapshot.

  The panel and its nodes (\<^verbatim>\<open>app.go\<close>, \<^verbatim>\<open>hub.go\<close>, \<^verbatim>\<open>traffic.go\<close>, \<^verbatim>\<open>config.go\<close>, \<^verbatim>\<open>notify.go\<close>).
    Hub, Traffic: the process state, connections as a heap of pointers, the read and write loops, reports,
      provisioning, resets, notices. Quiet: which handlers leave the store alone. Samples: a small panel.
    Ingest, Link: a traffic report's effect, and the exactly-once protocol between the agent's buffer and
      the panel (locales \<open>durable_buffer\<close>, \<open>traffic_sink\<close> and \<open>traffic_link\<close>, interpreted on the code's
      definitions), over lost messages, reconnections and restarts of both sides.
    Confine, Conns, Sync, Resets: what a node can change; one connection per node; a node's configuration
      follows the users; the monthly pass.

  The panel's HTTP surface and bot (\<^verbatim>\<open>auth.go\<close>, \<^verbatim>\<open>api.go\<close>, \<^verbatim>\<open>admins.go\<close>, \<^verbatim>\<open>twofa.go\<close>, \<^verbatim>\<open>totp.go\<close>, \<^verbatim>\<open>settings.go\<close>,
  \<^verbatim>\<open>portal.go\<close>, \<^verbatim>\<open>sub.go\<close>, \<^verbatim>\<open>bot.go\<close>, \<^verbatim>\<open>keys.go\<close>, \<^verbatim>\<open>backup.go\<close>, \<^verbatim>\<open>middleware.go\<close>, \<^verbatim>\<open>reset.go\<close>).
    Validate, Limiter: input validation and the login throttle. Evolve: a calculus of what a computation may
      do to the store (\<open>evolves\<close>, \<open>confined\<close>), used for every handler. Http: requests, responses, the panel
      with its settings. Auth, Totp, Login, AdminApi, Api, Sub, Backup: the handlers. Bot: the commands.
      Assets: the embedded files. Boot, Routes: start, recovery, and the mux.
    Sessions, Signin, Access, Recovery, Throttle: tokens, signing in, who can reach what, first start and
      recovery, and the bound on password guesses. TwoFactor: what can turn a second factor off, and the
      two ways around it that the code leaves. System, Names: one step relation over everything that
      drives the panel, and what it keeps: every stored name is validated, and what is pushed is understood.

  The agent.
    Pending: the durable traffic buffer. Stats: reading Xray's counters. Devices: the access-log watcher.
    Metrics: the health snapshot. Live, Nginx, Apply: the restart-free update, the generated \<^verbatim>\<open>nginx.conf\<close>,
      and \<open>applyConfig\<close> with the baseline of what Xray runs. Standalone: the local user file and its
      commands. Dockproxy: the filter in front of the Docker socket. Agent: the process, its modes and the
      session, whose handlers are shown to follow the protocol of Link.

  Bounds. Loops are structural recursions or recursions with a termination proof; none needs fuel. The
  unit loop of \<open>fmtBytes\<close> is bounded by the number of units, as in the code. Sums that the code keeps in
  \<^verbatim>\<open>int64\<close> are shown exact under the stated assumption that they fit.

  Parameters, with what is assumed of them in the statements that need it: HMAC-SHA-256 and SHA-1
  (unforgeability for \<open>session_unforgeable\<close>), SHA-256 (no collision on the texts at hand), AES-GCM (opens
  what it sealed), bcrypt (a hash accepts its own password), curve25519, Xray's gRPC handler service
  (an operation that succeeds has its documented effect), the Docker daemon, the Unicode tables.

  Not modelled: TCP, TLS and WebSocket framing, deadlines and pings; matching a request to a pattern of
  the mux; the text of JSON bodies (handlers get decoded values); the long poll to Telegram; signals
  and listening; logging; and the HTML and JavaScript files themselves. SQLite is modelled to the
  extent of the statements the store issues.
\<close>

end
